(* ===== verification/Prelude.thy ===== *)
theory Prelude
  imports Main
begin

text \<open>
  Shared vocabulary of the development. The two user scripts under \<open>src/\<close>
  manipulate JavaScript strings, arrays and maps; this theory gives the JavaScript
  built-ins they call a HOL meaning once, so that every component theory reads like
  the code. Strings are \<open>string\<close> (lists of 8-bit \<open>char\<close>); the code only ever
  inspects ASCII characters (path separators, dots, the filename alphabet), so the
  UTF-16 code units of JavaScript and the bytes here agree on everything the
  theorems mention. JavaScript's "absent" values (\<open>undefined\<close>, \<open>null\<close>, the
  empty string) are all falsy; where the code only tests truthiness of a string
  field, the empty string stands for all three.
\<close>

named_theorems js_simps "evaluation rules of the modelled JavaScript built-ins"

type_synonym key = string
type_synonym path = string
type_synonym time = nat

section \<open>Characters\<close>

definition is_ascii_upper :: "char \<Rightarrow> bool" where
  "is_ascii_upper c \<longleftrightarrow> 65 \<le> (of_char c :: nat) \<and> (of_char c :: nat) \<le> 90"

definition is_ascii_lower :: "char \<Rightarrow> bool" where
  "is_ascii_lower c \<longleftrightarrow> 97 \<le> (of_char c :: nat) \<and> (of_char c :: nat) \<le> 122"

definition is_ascii_digit :: "char \<Rightarrow> bool" where
  "is_ascii_digit c \<longleftrightarrow> 48 \<le> (of_char c :: nat) \<and> (of_char c :: nat) \<le> 57"

text \<open>\<open>String.prototype.toLowerCase\<close> on the ASCII range.\<close>

fun js_lower_char :: "char \<Rightarrow> char" where
  "js_lower_char (Char b0 b1 b2 b3 b4 b5 b6 b7) =
     (if is_ascii_upper (Char b0 b1 b2 b3 b4 b5 b6 b7) then Char b0 b1 b2 b3 b4 True b6 b7
      else Char b0 b1 b2 b3 b4 b5 b6 b7)"

definition js_to_lower :: "string \<Rightarrow> string" where
  "js_to_lower s = map js_lower_char s"

text \<open>The white space of \<open>String.prototype.trim\<close> and of the regular-expression
  class \<open>\s\<close>, on the ASCII range.\<close>

definition js_is_space :: "char \<Rightarrow> bool" where
  "js_is_space c \<longleftrightarrow> c \<in> {CHR '' '', CHR 0x09, CHR 0x0A, CHR 0x0B, CHR 0x0C, CHR 0x0D}"

definition js_trim :: "string \<Rightarrow> string" where
  "js_trim s = rev (dropWhile js_is_space (rev (dropWhile js_is_space s)))"

section \<open>Strings\<close>

text \<open>\<open>s.split(c).pop()\<close>: the part after the last \<open>c\<close> (all of \<open>s\<close> without one).\<close>

definition after_last :: "char \<Rightarrow> string \<Rightarrow> string" where
  "after_last c s = rev (takeWhile (\<lambda>x. x \<noteq> c) (rev s))"

text \<open>\<open>s.substring(0, s.lastIndexOf(c))\<close>: the part before the last \<open>c\<close>. Without
  a \<open>c\<close>, \<open>lastIndexOf\<close> is \<open>-1\<close> and \<open>substring(0, -1)\<close> is empty.\<close>

definition before_last :: "char \<Rightarrow> string \<Rightarrow> string" where
  "before_last c s = (if c \<in> set s then rev (drop 1 (dropWhile (\<lambda>x. x \<noteq> c) (rev s))) else [])"

text \<open>\<open>name.includes(".") ? name.substring(name.lastIndexOf(".")) : ""\<close>: the
  extension with its dot.\<close>

definition js_ext :: "string \<Rightarrow> string" where
  "js_ext name = (if CHR ''.'' \<in> set name then CHR ''.'' # after_last (CHR ''.'') name else [])"

text \<open>\<open>s.endsWith(suf)\<close>.\<close>

definition ends_with :: "string \<Rightarrow> string \<Rightarrow> bool" where
  "ends_with s suf \<longleftrightarrow> length suf \<le> length s \<and> drop (length s - length suf) s = suf"

text \<open>\<open>s.substring(0, n)\<close> for a number \<open>n\<close> that may be negative (then it is 0).\<close>

definition js_prefix :: "string \<Rightarrow> int \<Rightarrow> string" where
  "js_prefix s n = take (nat n) s"

text \<open>Decimal rendering of a counter, as a template literal \<open>${counter}\<close> does.\<close>

definition digit_char :: "nat \<Rightarrow> char" where
  "digit_char d = ''0123456789'' ! d"

fun dec_string :: "nat \<Rightarrow> string" where
  "dec_string n = (if n < 10 then [digit_char n] else dec_string (n div 10) @ [digit_char (n mod 10)])"

declare dec_string.simps [simp del]

section \<open>Arrays\<close>

text \<open>\<open>xs.indexOf(x)\<close>, \<open>-1\<close> when absent.\<close>

definition js_index_of :: "'a \<Rightarrow> 'a list \<Rightarrow> int" where
  "js_index_of x xs = (if x \<in> set xs then int (length (takeWhile (\<lambda>y. y \<noteq> x) xs)) else -1)"

text \<open>\<open>xs[i]\<close>: \<open>undefined\<close> (here \<open>None\<close>) outside the array.\<close>

definition js_nth :: "'a list \<Rightarrow> int \<Rightarrow> 'a option" where
  "js_nth xs i = (if 0 \<le> i \<and> i < int (length xs) then Some (xs ! nat i) else None)"

text \<open>\<open>i = xs.indexOf(x); if (i > -1) xs.splice(i, 1, y)\<close>: replace the first
  occurrence.\<close>

fun replace_first :: "'a \<Rightarrow> 'a \<Rightarrow> 'a list \<Rightarrow> 'a list" where
  "replace_first x y [] = []"
| "replace_first x y (z # zs) = (if z = x then y # zs else z # replace_first x y zs)"

section \<open>Lemmas on the built-ins\<close>

lemma after_last_no_sep [simp]: "c \<notin> set (after_last c s)"
  by (auto simp: after_last_def dest: set_takeWhileD)

lemma takeWhile_neq_all: "c \<notin> set s \<Longrightarrow> takeWhile (\<lambda>x. x \<noteq> c) s = s"
  by (auto simp: takeWhile_eq_all_conv)

lemma dropWhile_neq_all: "c \<notin> set s \<Longrightarrow> dropWhile (\<lambda>x. x \<noteq> c) s = []"
  by (auto simp: dropWhile_eq_Nil_conv)

lemma after_last_append_sep [simp]: "c \<notin> set t \<Longrightarrow> after_last c (p @ c # t) = t"
proof -
  assume c: "c \<notin> set t"
  then have "takeWhile (\<lambda>x. x \<noteq> c) (rev t @ c # rev p) = rev t"
    by (subst takeWhile_append2) auto
  then show ?thesis by (simp add: after_last_def)
qed

lemma after_last_no_occ [simp]: "c \<notin> set s \<Longrightarrow> after_last c s = s"
  by (simp add: after_last_def takeWhile_neq_all)

lemma before_last_append_sep [simp]: "c \<notin> set t \<Longrightarrow> before_last c (p @ c # t) = p"
proof -
  assume c: "c \<notin> set t"
  then have "dropWhile (\<lambda>x. x \<noteq> c) (rev t @ c # rev p) = c # rev p"
    by (subst dropWhile_append2) auto
  then show ?thesis by (simp add: before_last_def)
qed

lemma ends_with_iff: "ends_with s suf \<longleftrightarrow> (\<exists>p. s = p @ suf)"
proof
  assume "ends_with s suf"
  then have "s = take (length s - length suf) s @ suf"
    unfolding ends_with_def by (metis append_take_drop_id)
  then show "\<exists>p. s = p @ suf" ..
next
  assume "\<exists>p. s = p @ suf"
  then show "ends_with s suf" by (auto simp: ends_with_def)
qed

lemma ends_with_append [simp]: "ends_with (p @ suf) suf"
  by (auto simp: ends_with_iff)

lemma js_ext_append_sep [simp]:
  "CHR ''.'' \<notin> set t \<Longrightarrow> js_ext (p @ CHR ''.'' # t) = CHR ''.'' # t"
  by (simp add: js_ext_def)

lemma js_to_lower_length [simp]: "length (js_to_lower s) = length s"
  by (simp add: js_to_lower_def)

lemma js_to_lower_append [simp]: "js_to_lower (s @ t) = js_to_lower s @ js_to_lower t"
  by (simp add: js_to_lower_def)

lemma js_lower_char_idem [simp]: "js_lower_char (js_lower_char c) = js_lower_char c"
  by (cases c) (simp add: is_ascii_upper_def)

lemma js_lower_char_cases:
  "js_lower_char c = c \<or> (is_ascii_upper c \<and> is_ascii_lower (js_lower_char c))"
  by (cases c) (simp add: is_ascii_upper_def is_ascii_lower_def)

lemma js_to_lower_idem [simp]: "js_to_lower (js_to_lower s) = js_to_lower s"
  by (simp add: js_to_lower_def)

lemma js_prefix_length: "0 \<le> n \<Longrightarrow> length (js_prefix s n) \<le> nat n"
  by (simp add: js_prefix_def)

lemma set_replace_first: "x \<in> set xs \<Longrightarrow> set (replace_first x y xs) = insert y (set (remove1 x xs))"
  by (induction xs) auto

lemma length_replace_first [simp]: "length (replace_first x y xs) = length xs"
  by (induction xs) auto

lemma replace_first_absent [simp]: "x \<notin> set xs \<Longrightarrow> replace_first x y xs = xs"
  by (induction xs) auto

lemma set_replace_first_subset: "set (replace_first x y xs) \<subseteq> insert y (set xs)"
  by (induction xs) auto

lemma distinct_replace_first:
  "distinct xs \<Longrightarrow> y \<notin> set xs \<Longrightarrow> distinct (replace_first x y xs)"
  by (induction xs) (use set_replace_first_subset in fastforce)+

lemma js_nth_in: "js_nth xs i = Some x \<Longrightarrow> x \<in> set xs"
  by (auto simp: js_nth_def split: if_splits)

lemma js_index_of_nonneg: "x \<in> set xs \<Longrightarrow> 0 \<le> js_index_of x xs"
  by (simp add: js_index_of_def)

lemma js_index_of_nth: "x \<in> set xs \<Longrightarrow> xs ! nat (js_index_of x xs) = x"
  by (induction xs) (auto simp: js_index_of_def)

lemma js_index_of_less: "x \<in> set xs \<Longrightarrow> nat (js_index_of x xs) < length xs"
  by (induction xs) (auto simp: js_index_of_def)

lemma set_after_last_subset: "set (after_last c s) \<subseteq> set s"
  by (auto simp: after_last_def dest: set_takeWhileD)

lemma set_before_last_subset: "set (before_last c s) \<subseteq> set s"
  by (auto simp: before_last_def dest!: in_set_dropD set_dropWhileD)

lemma before_after_last: "c \<in> set s \<Longrightarrow> before_last c s @ c # after_last c s = s"
proof -
  assume c: "c \<in> set s"
  let ?t = "takeWhile (\<lambda>x. x \<noteq> c) (rev s)" and ?d = "dropWhile (\<lambda>x. x \<noteq> c) (rev s)"
  have "?d \<noteq> []" using c by (auto simp: dropWhile_eq_Nil_conv)
  moreover have "?d \<noteq> [] \<Longrightarrow> hd ?d = c" using hd_dropWhile [of "\<lambda>x. x \<noteq> c" "rev s"] by simp
  ultimately have d: "?d = c # drop 1 ?d" by (cases ?d) auto
  have "rev s = ?t @ ?d" by simp
  also have "\<dots> = ?t @ c # drop 1 ?d" using d by simp
  finally have "s = rev (drop 1 ?d) @ c # rev ?t" by (metis rev_append rev_rev_ident rev.simps(2) append_assoc append_Cons append_Nil)
  then show ?thesis using c by (simp add: before_last_def after_last_def)
qed

lemma set_dec_string: "set (dec_string n) \<subseteq> set ''0123456789''"
proof (induction n rule: dec_string.induct)
  case (1 n)
  have d: "\<And>m. m < 10 \<Longrightarrow> digit_char m \<in> set ''0123456789''"
    unfolding digit_char_def by (rule nth_mem) simp
  show ?case
    using 1 d by (subst dec_string.simps) auto
qed

lemma replace_first_back: "y \<notin> set xs \<Longrightarrow> replace_first y x (replace_first x y xs) = xs"
  by (induction xs) auto

lemmas [js_simps] = is_ascii_upper_def is_ascii_lower_def is_ascii_digit_def js_to_lower_def
  js_is_space_def js_trim_def after_last_def before_last_def js_ext_def ends_with_def js_prefix_def
  digit_char_def dec_string.simps js_index_of_def js_nth_def

end
