(* ===== verification/Downloads.thy ===== *)
theory Downloads
  imports Prelude
begin

text \<open>
  The data model of \<open>src/tidy-downloads.uc.js\<close>: the host's download objects as
  the script reads them, the per-download bookkeeping record \<open>cardData\<close> kept in
  \<open>activeDownloadCards\<close>, and the script's global variables gathered into one
  session state. Host download objects are shared by reference between the host's
  event callbacks, the card records and the AI-rename continuations, and the script
  writes into them (\<open>download.target.path\<close>, \<open>download.aiName\<close>); they therefore
  live in a store \<open>downloads\<close> indexed by an object reference \<open>dlref\<close>, and a card
  holds the reference, as \<open>cardData.download\<close> does.
\<close>

section \<open>Host download objects\<close>

type_synonym dlref = nat

record download =
  target_path :: path          \<comment> \<open>\<open>download.target.path\<close>\<close>
  dl_id :: string              \<comment> \<open>\<open>download.id\<close>\<close>
  source_url :: string         \<comment> \<open>\<open>download.source.url\<close>\<close>
  dl_url :: string             \<comment> \<open>\<open>download.url\<close>\<close>
  dl_filename :: string        \<comment> \<open>\<open>download.filename\<close>\<close>
  content_type :: string
  succeeded :: bool
  dl_error :: "string option"  \<comment> \<open>\<open>download.error\<close>, with its message\<close>
  canceled :: bool
  current_bytes :: nat
  total_bytes :: nat
  has_progress :: bool
  ai_name :: string            \<comment> \<open>\<open>download.aiName\<close>, written by the script\<close>

text \<open>A download is finished when the host reports success, an error or a cancel.\<close>

definition dl_finished :: "download \<Rightarrow> bool" where
  "dl_finished d \<longleftrightarrow> succeeded d \<or> dl_error d \<noteq> None \<or> canceled d"

text \<open>\<open>getDownloadKey\<close>: the target path, else the host id, else a temporary key
  built from the URL and the clock \<open>Date.now()\<close>.\<close>

definition get_download_key :: "download \<Rightarrow> time \<Rightarrow> key" where
  "get_download_key d now =
     (if target_path d \<noteq> [] then target_path d
      else if dl_id d \<noteq> [] then dl_id d
      else ''temp_'' @ (if source_url d \<noteq> [] then source_url d
                         else if dl_url d \<noteq> [] then dl_url d else ''unknown'')
           @ ''_'' @ dec_string now)"

text \<open>\<open>path.split(/[\\/]/).pop()\<close>: the last component under either separator.\<close>

definition last_component :: "string \<Rightarrow> string" where
  "last_component s = rev (takeWhile (\<lambda>x. x \<noteq> CHR ''/'' \<and> x \<noteq> CHR 0x5C) (rev s))"

text \<open>\<open>url.match(/\/([^\/\?]+)$/)\<close>: a non-empty last segment after a slash, with
  no query mark in it.\<close>

definition url_last_segment :: "string \<Rightarrow> string option" where
  "url_last_segment url =
     (let t = after_last (CHR ''/'') url
      in if CHR ''/'' \<in> set url \<and> t \<noteq> [] \<and> CHR ''?'' \<notin> set t then Some t else None)"

definition get_safe_filename :: "download \<Rightarrow> string" where
  "get_safe_filename d =
     (if dl_filename d \<noteq> [] then dl_filename d
      else if target_path d \<noteq> [] then last_component (target_path d)
      else if source_url d \<noteq> [] then
        (case url_last_segment (source_url d) of Some t \<Rightarrow> t | None \<Rightarrow> ''Untitled'')
      else ''Untitled'')"

section \<open>Pod records\<close>

text \<open>The style values the layout pass writes. \<open>Placed x\<close> is
  \<open>translateX(x px) scale(1) translateY(0)\<close>; \<open>Exit_short\<close> and \<open>Exit_long\<close>
  are \<open>scale(0.8) translateX(-30px)\<close> and \<open>scale(0.8) translateX(-60px)\<close>;
  \<open>Entrance\<close> is the creation style \<open>scale(0.3) translateY(30px)\<close>.\<close>

datatype transform = Entrance | Placed int | Exit_short | Exit_long

datatype opacity = Op_0 | Op_075 | Op_1

datatype rotation = Forward | Backward

record card =
  pod_dl :: dlref                           \<comment> \<open>\<open>cardData.download\<close>\<close>
  complete :: bool
  card_key :: key
  original_filename :: string
  orig_path_before_ai :: "path option"      \<comment> \<open>\<open>trueOriginalPathBeforeAIRename\<close>\<close>
  orig_name_before_ai :: "string option"    \<comment> \<open>\<open>trueOriginalSimpleNameBeforeAIRename\<close>\<close>
  last_interaction :: time
  is_visible :: bool
  waiting_zen :: bool                       \<comment> \<open>\<open>isWaitingForZenAnimation\<close>\<close>
  dom_appended :: bool
  intended_transform :: "transform option"  \<comment> \<open>\<open>intendedTargetTransform\<close>\<close>
  intended_opacity :: "opacity option"      \<comment> \<open>\<open>intendedTargetOpacity\<close>\<close>
  being_removed :: bool                     \<comment> \<open>\<open>isBeingRemoved\<close>\<close>
  renaming_initiated :: bool                \<comment> \<open>class \<open>renaming-initiated\<close> of the pod\<close>
  style_opacity :: opacity                  \<comment> \<open>\<open>podElement.style.opacity\<close>\<close>

text \<open>The record \<open>createOrUpdatePodElement\<close> stores for a new pod.\<close>

definition new_card :: "dlref \<Rightarrow> key \<Rightarrow> string \<Rightarrow> time \<Rightarrow> card" where
  "new_card r k name now =
     \<lparr>pod_dl = r, complete = False, card_key = k, original_filename = name,
      orig_path_before_ai = None, orig_name_before_ai = None, last_interaction = now,
      is_visible = False, waiting_zen = False, dom_appended = False,
      intended_transform = None, intended_opacity = None, being_removed = False,
      renaming_initiated = False, style_opacity = Op_0\<rparr>"

section \<open>Session state\<close>

text \<open>The script's globals (\<open>activeDownloadCards\<close>, \<open>orderedPodKeys\<close>,
  \<open>focusedDownloadKey\<close>, \<open>renamedFiles\<close>, \<open>cardUpdateThrottle\<close>,
  \<open>ENABLE_AI_RENAMING\<close>, \<open>aiRenamingPossible\<close>, \<open>lastRotationDirection\<close>), the
  host store of download objects and files (path to size in bytes), and the
  callbacks the script has scheduled but that have not run yet: AI-rename timers
  (the download they captured and the card's \<open>originalFilename\<close> at scheduling
  time) and pod removals.\<close>

record tidy_state =
  downloads :: "dlref \<rightharpoonup> download"
  cards :: "key \<rightharpoonup> card"
  ordered :: "key list"
  focused :: "key option"
  renamed_files :: "path set"
  throttle :: "key \<rightharpoonup> time"
  ai_enabled :: bool
  ai_possible :: bool
  last_rotation :: "rotation option"
  files :: "path \<rightharpoonup> nat"
  zen_host :: bool
  pending_ai :: "(dlref \<times> string) list"
  pending_removal :: "key list"

definition init_state :: "(dlref \<rightharpoonup> download) \<Rightarrow> (path \<rightharpoonup> nat) \<Rightarrow> bool \<Rightarrow> bool \<Rightarrow> tidy_state" where
  "init_state dls fs ai zen =
     \<lparr>downloads = dls, cards = Map.empty, ordered = [], focused = None, renamed_files = {},
      throttle = Map.empty, ai_enabled = ai, ai_possible = ai, last_rotation = None,
      files = fs, zen_host = zen, pending_ai = [], pending_removal = []\<rparr>"

text \<open>A fresh, in-progress download saved at a given path, for the worked examples.\<close>

definition demo_download :: "path \<Rightarrow> download" where
  "demo_download p = \<lparr>target_path = p, dl_id = [], source_url = [], dl_url = [], dl_filename = [],
     content_type = [], succeeded = False, dl_error = None, canceled = False, current_bytes = 0,
     total_bytes = 0, has_progress = False, ai_name = []\<rparr>"

section \<open>Lemmas\<close>

lemma get_download_key_nonempty: "get_download_key d now \<noteq> []"
  by (simp add: get_download_key_def)

lemma get_download_key_path: "target_path d \<noteq> [] \<Longrightarrow> get_download_key d now = target_path d"
  by (simp add: get_download_key_def)

lemma new_card_simps [simp]:
  "pod_dl (new_card r k n t) = r" "card_key (new_card r k n t) = k"
  "complete (new_card r k n t) = False" "renaming_initiated (new_card r k n t) = False"
  "being_removed (new_card r k n t) = False" "original_filename (new_card r k n t) = n"
  "last_interaction (new_card r k n t) = t"
  by (simp_all add: new_card_def)

end
