(* ===== verification/PodStore.thy ===== *)
theory PodStore
  imports Downloads
begin

text \<open>
  The pod store of \<open>src/tidy-downloads.uc.js\<close>: the handlers that the host's
  download-list callbacks run (\<open>throttledCreateOrUpdateCard\<close>,
  \<open>createOrUpdatePodElement\<close>, \<open>removeCard\<close> and its delayed second half), the
  focus update \<open>updateUIForFocusedDownload\<close> with the AI-rename trigger it holds,
  and the Zen entrance signal \<open>triggerCardEntrance\<close>. DOM styling and logging are
  not state and are left out; every write to the globals and to the card records is
  kept. The lemmas show that the ordered key list, the card map and the focus agree
  (no duplicate keys, exactly the keys of the live cards, focus on a listed key) in
  every state reached by host events.
\<close>

section \<open>Card map helpers\<close>

definition map_card :: "key \<Rightarrow> (card \<Rightarrow> card) \<Rightarrow> tidy_state \<Rightarrow> tidy_state" where
  "map_card k f s = s\<lparr>cards := (cards s)(k := map_option f (cards s k))\<rparr>"

lemma map_card_apply [simp]:
  "cards (map_card k f s) x = (if x = k then map_option f (cards s k) else cards s x)"
  by (simp add: map_card_def)

lemma map_card_other [simp]:
  "ordered (map_card k f s) = ordered s" "focused (map_card k f s) = focused s"
  "downloads (map_card k f s) = downloads s" "renamed_files (map_card k f s) = renamed_files s"
  "files (map_card k f s) = files s" "pending_ai (map_card k f s) = pending_ai s"
  "zen_host (map_card k f s) = zen_host s" "throttle (map_card k f s) = throttle s"
  "ai_enabled (map_card k f s) = ai_enabled s" "ai_possible (map_card k f s) = ai_possible s"
  "last_rotation (map_card k f s) = last_rotation s"
  "pending_removal (map_card k f s) = pending_removal s"
  by (simp_all add: map_card_def)

lemma dom_map_card [simp]: "dom (cards (map_card k f s)) = dom (cards s)"
  by (auto simp: map_card_def)

section \<open>updateUIForFocusedDownload\<close>

text \<open>The condition under which focusing a pod schedules an AI rename (the guard of
  step 5 of \<open>updateUIForFocusedDownload\<close>).\<close>

definition ai_trigger :: "tidy_state \<Rightarrow> card \<Rightarrow> download \<Rightarrow> bool" where
  "ai_trigger s c d \<longleftrightarrow>
     ai_enabled s \<and> ai_possible s \<and> succeeded d \<and> complete c \<and> target_path d \<noteq> [] \<and>
     target_path d \<notin> renamed_files s \<and> \<not> renaming_initiated c"

text \<open>Focus moves to the given key unconditionally. If the key has a card whose
  download qualifies, the pod is marked \<open>renaming-initiated\<close> and a timer is
  scheduled that will call \<open>processDownloadForAIRenaming\<close> with the captured
  download and the card's current \<open>originalFilename\<close>. The tooltip text and the
  double-frame call of the layout pass are effects on the display only.\<close>

definition update_ui_for_focused_download :: "tidy_state \<Rightarrow> key option \<Rightarrow> tidy_state" where
  "update_ui_for_focused_download s k =
     (let s1 = s\<lparr>focused := k\<rparr> in
      case k of None \<Rightarrow> s1
      | Some key \<Rightarrow>
          (case cards s key of None \<Rightarrow> s1
           | Some c \<Rightarrow>
               (case downloads s (pod_dl c) of None \<Rightarrow> s1
                | Some d \<Rightarrow>
                    if ai_trigger s c d
                    then (map_card key (\<lambda>c. c\<lparr>renaming_initiated := True\<rparr>) s1)
                           \<lparr>pending_ai := pending_ai s @ [(pod_dl c, original_filename c)]\<rparr>
                    else s1)))"

section \<open>Zen entrance signal\<close>

text \<open>\<open>triggerCardEntrance\<close>: a pod waiting for the browser's own download
  animation becomes ready for layout and is appended to the row.\<close>

definition trigger_card_entrance :: "tidy_state \<Rightarrow> key \<Rightarrow> tidy_state" where
  "trigger_card_entrance s k =
     (case cards s k of None \<Rightarrow> s
      | Some c \<Rightarrow>
          if waiting_zen c
          then update_ui_for_focused_download
                 (map_card k (\<lambda>c. c\<lparr>waiting_zen := False, dom_appended := True\<rparr>) s)
                 (case focused s of Some f \<Rightarrow> Some f | None \<Rightarrow> Some k)
          else s)"

text \<open>\<open>initZenAnimationObserver\<close>: without the animation host the entrance is
  signalled at once; with it, the signal comes later (observer or 3 s fallback),
  as the event \<open>Zen_signal\<close> of the store's event type.\<close>

definition init_zen_animation_observer :: "tidy_state \<Rightarrow> key \<Rightarrow> tidy_state" where
  "init_zen_animation_observer s k = (if zen_host s then s else trigger_card_entrance s k)"

section \<open>createOrUpdatePodElement\<close>

text \<open>Completion is recorded once, at the end of every call.\<close>

definition mark_complete :: "key \<Rightarrow> download \<Rightarrow> tidy_state \<Rightarrow> tidy_state" where
  "mark_complete k d s = map_card k (\<lambda>c. if succeeded d \<and> \<not> complete c then c\<lparr>complete := True\<rparr> else c) s"

text \<open>A new pod is stored, appended to \<open>orderedPodKeys\<close> and focused, set waiting for
  the Zen animation and appended to the row (which, whether or not the entrance
  signal came first, leaves it in the DOM). An existing pod gets the download object,
  the interaction time and, unless the file was AI-renamed, the host's current
  filename. The result is the key of the pod, or \<open>None\<close> when the download object
  is unknown or has no key (the code's \<open>null\<close>).\<close>

definition create_or_update_pod_element :: "tidy_state \<Rightarrow> dlref \<Rightarrow> time \<Rightarrow> key option \<times> tidy_state" where
  "create_or_update_pod_element s r now =
     (case downloads s r of None \<Rightarrow> (None, s)
      | Some d \<Rightarrow>
        let key = get_download_key d now; name = get_safe_filename d in
        if key = [] then (None, s) else
        (case cards s key of
           None \<Rightarrow>
             let s1 = s\<lparr>cards := (cards s)(key \<mapsto> new_card r key name now)\<rparr>;
                 s2 = (if key \<in> set (ordered s1) then s1
                       else s1\<lparr>ordered := ordered s1 @ [key], focused := Some key\<rparr>);
                 s3 = init_zen_animation_observer (map_card key (\<lambda>c. c\<lparr>waiting_zen := True\<rparr>) s2) key;
                 s4 = map_card key (\<lambda>c. c\<lparr>dom_appended := True\<rparr>) s3
             in (Some key, mark_complete key d s4)
         | Some c \<Rightarrow>
             let s1 = map_card key (\<lambda>c. c\<lparr>pod_dl := r, last_interaction := now,
                        original_filename := (if name \<noteq> original_filename c \<and> ai_name d = []
                                              then name else original_filename c)\<rparr>) s
             in (Some key, mark_complete key d s1)))"

section \<open>throttledCreateOrUpdateCard\<close>

definition card_update_throttle_ms :: int where "card_update_throttle_ms = 100"

text \<open>An in-progress download updated less than 100 ms after the last update of
  its key is skipped; a finished one never is. Otherwise the pod is created or
  updated and focused.\<close>

definition throttled_create_or_update_card :: "tidy_state \<Rightarrow> dlref \<Rightarrow> time \<Rightarrow> tidy_state" where
  "throttled_create_or_update_card s r now =
     (case downloads s r of None \<Rightarrow> s
      | Some d \<Rightarrow>
        let key = get_download_key d now;
            last_update = (case throttle s key of None \<Rightarrow> 0 | Some t \<Rightarrow> t) in
        if int now - int last_update < card_update_throttle_ms \<and> \<not> dl_finished d then s
        else
          (case create_or_update_pod_element (s\<lparr>throttle := (throttle s)(key \<mapsto> now)\<rparr>) r now of
             (None, s2) \<Rightarrow> s2
           | (Some _, s2) \<Rightarrow> update_ui_for_focused_download s2 (Some key)))"

section \<open>removeCard\<close>

definition card_interaction_grace_period_ms :: int where
  "card_interaction_grace_period_ms = 5000"

text \<open>The synchronous half: refuse (\<open>false\<close>) without a card, or, unless forced,
  within the grace period after the last interaction; otherwise mark the card as
  being removed, start the slide-out and schedule the second half.\<close>

definition remove_card :: "tidy_state \<Rightarrow> key \<Rightarrow> bool \<Rightarrow> time \<Rightarrow> bool \<times> tidy_state" where
  "remove_card s k force now =
     (case cards s k of None \<Rightarrow> (False, s)
      | Some c \<Rightarrow>
          if \<not> force \<and> last_interaction c \<noteq> 0 \<and>
             int now - int (last_interaction c) < card_interaction_grace_period_ms
          then (False, s)
          else (True, (map_card k (\<lambda>c. c\<lparr>being_removed := True, style_opacity := Op_0\<rparr>) s)
                        \<lparr>pending_removal := pending_removal s @ [k]\<rparr>))"

text \<open>The focus chosen when the focused pod is removed: the pod that took its place
  in \<open>orderedPodKeys\<close>, else its left neighbour, else the newest. Array reads out of
  range give \<open>undefined\<close>, here \<open>None\<close>: a removed key that was not listed
  (\<open>indexOf\<close> is \<open>-1\<close>) reads \<open>orderedPodKeys[-1]\<close> and leaves no focus.\<close>

definition refocus_after_removal :: "int \<Rightarrow> key list \<Rightarrow> key option" where
  "refocus_after_removal idx ks =
     (if ks = [] then None
      else if idx < int (length ks) then js_nth ks idx
      else if 0 < idx then js_nth ks (idx - 1)
      else Some (last ks))"

text \<open>The delayed half (after 300 ms): drop the card and its throttle entry, splice
  the key out of \<open>orderedPodKeys\<close>, move the focus if it was on this pod, and
  refresh the UI for the (new) focus.\<close>

definition remove_card_finish :: "tidy_state \<Rightarrow> key \<Rightarrow> tidy_state" where
  "remove_card_finish s k =
     (let idx = js_index_of k (ordered s);
          ks = (if -1 < idx then remove1 k (ordered s) else ordered s);
          s1 = s\<lparr>cards := (cards s)(k := None), throttle := (throttle s)(k := None),
                  ordered := ks, pending_removal := remove1 k (pending_removal s)\<rparr>;
          s2 = (if focused s = Some k then s1\<lparr>focused := refocus_after_removal idx ks\<rparr> else s1)
      in update_ui_for_focused_download s2 (focused s2))"

section \<open>Host events\<close>

text \<open>The callbacks of the host's download list (\<open>onDownloadAdded\<close>,
  \<open>onDownloadChanged\<close>, \<open>onDownloadRemoved\<close>), the timers of \<open>removeCard\<close>, the
  Zen entrance signal, and the host mutating one of its download objects, each with
  the clock reading at which it runs.\<close>

datatype store_event =
    Dl_added dlref time
  | Dl_changed dlref time
  | Dl_removed dlref time
  | Removal_timer key
  | Zen_signal key
  | Host_update dlref download

fun store_step :: "tidy_state \<Rightarrow> store_event \<Rightarrow> tidy_state" where
  "store_step s (Dl_added r now) = throttled_create_or_update_card s r now"
| "store_step s (Dl_changed r now) = throttled_create_or_update_card s r now"
| "store_step s (Dl_removed r now) =
     (case downloads s r of None \<Rightarrow> s
      | Some d \<Rightarrow> snd (remove_card s (get_download_key d now) False now))"
| "store_step s (Removal_timer k) =
     (if k \<in> set (pending_removal s) then remove_card_finish s k else s)"
| "store_step s (Zen_signal k) = trigger_card_entrance s k"
| "store_step s (Host_update r d) =
     (if r \<in> dom (downloads s) then s\<lparr>downloads := (downloads s)(r \<mapsto> d)\<rparr> else s)"

fun store_run :: "tidy_state \<Rightarrow> store_event list \<Rightarrow> tidy_state" where
  "store_run s [] = s"
| "store_run s (e # es) = store_run (store_step s e) es"

section \<open>The store invariant\<close>

text \<open>No key twice in \<open>orderedPodKeys\<close>; its keys are exactly those of
  \<open>activeDownloadCards\<close>; no listed key is empty (falsy); every card knows its own
  key; the focus, when set, is a listed key.\<close>

definition store_inv :: "tidy_state \<Rightarrow> bool" where
  "store_inv s \<longleftrightarrow>
     distinct (ordered s) \<and> set (ordered s) = dom (cards s) \<and> [] \<notin> set (ordered s) \<and>
     (\<forall>k c. cards s k = Some c \<longrightarrow> card_key c = k) \<and>
     (\<forall>f. focused s = Some f \<longrightarrow> f \<in> set (ordered s))"

section \<open>Preservation of the store invariant\<close>

lemma update_ui_frame [simp]:
  "ordered (update_ui_for_focused_download s k) = ordered s"
  "focused (update_ui_for_focused_download s k) = k"
  "downloads (update_ui_for_focused_download s k) = downloads s"
  "files (update_ui_for_focused_download s k) = files s"
  "renamed_files (update_ui_for_focused_download s k) = renamed_files s"
  "throttle (update_ui_for_focused_download s k) = throttle s"
  "pending_removal (update_ui_for_focused_download s k) = pending_removal s"
  "zen_host (update_ui_for_focused_download s k) = zen_host s"
  by (simp_all add: update_ui_for_focused_download_def Let_def split: option.split)

lemma update_ui_dom [simp]: "dom (cards (update_ui_for_focused_download s k)) = dom (cards s)"
  by (auto simp: update_ui_for_focused_download_def Let_def split: option.split)

lemma map_card_keys_iff:
  assumes f: "\<And>c. card_key (f c) = card_key c"
  shows "(\<forall>x c. cards (map_card k f s) x = Some c \<longrightarrow> card_key c = x) \<longleftrightarrow>
         (\<forall>x c. cards s x = Some c \<longrightarrow> card_key c = x)"
proof
  assume h: "\<forall>x c. cards (map_card k f s) x = Some c \<longrightarrow> card_key c = x"
  show "\<forall>x c. cards s x = Some c \<longrightarrow> card_key c = x"
  proof (intro allI impI)
    fix x c assume "cards s x = Some c"
    then have "cards (map_card k f s) x = Some (if x = k then f c else c)" by auto
    with h f show "card_key c = x" by (metis (full_types))
  qed
next
  assume h: "\<forall>x c. cards s x = Some c \<longrightarrow> card_key c = x"
  then show "\<forall>x c. cards (map_card k f s) x = Some c \<longrightarrow> card_key c = x"
    using f by (auto split: if_splits)
qed

lemma store_inv_map_card:
  "(\<And>c. card_key (f c) = card_key c) \<Longrightarrow> store_inv (map_card k f s) = store_inv s"
  unfolding store_inv_def by (simp only: map_card_keys_iff dom_map_card map_card_other)

lemma store_inv_pending [simp]:
  "store_inv (s\<lparr>pending_ai := p\<rparr>) = store_inv s"
  "store_inv (s\<lparr>pending_removal := q\<rparr>) = store_inv s"
  "store_inv (s\<lparr>throttle := t\<rparr>) = store_inv s"
  "store_inv (s\<lparr>downloads := dl\<rparr>) = store_inv s"
  by (simp_all add: store_inv_def)

lemma store_inv_update_ui_iff:
  "store_inv (update_ui_for_focused_download s k) = store_inv (s\<lparr>focused := k\<rparr>)"
  by (simp add: update_ui_for_focused_download_def Let_def store_inv_map_card split: option.split)

lemma store_inv_update_ui:
  "store_inv s \<Longrightarrow> (\<And>f. k = Some f \<Longrightarrow> f \<in> set (ordered s)) \<Longrightarrow>
   store_inv (update_ui_for_focused_download s k)"
  unfolding store_inv_update_ui_iff unfolding store_inv_def by auto

lemma store_inv_focus_in_dom:
  "store_inv s \<Longrightarrow> cards s k = Some c \<Longrightarrow> k \<in> set (ordered s)"
  by (auto simp: store_inv_def)

lemma store_inv_trigger_card_entrance:
  "store_inv s \<Longrightarrow> store_inv (trigger_card_entrance s k)"
proof (cases "cards s k")
  case (Some c)
  assume inv: "store_inv s"
  then have k: "k \<in> set (ordered s)" using Some by (rule store_inv_focus_in_dom)
  let ?s1 = "map_card k (\<lambda>c. c\<lparr>waiting_zen := False, dom_appended := True\<rparr>) s"
  have inv1: "store_inv ?s1" using inv by (simp add: store_inv_map_card)
  have "store_inv (update_ui_for_focused_download ?s1 (case focused s of Some f \<Rightarrow> Some f | None \<Rightarrow> Some k))"
    using inv inv1 k by (intro store_inv_update_ui) (auto simp: store_inv_def split: option.splits)
  with Some inv show ?thesis by (simp add: trigger_card_entrance_def)
qed (simp add: trigger_card_entrance_def)

lemma store_inv_init_zen:
  "store_inv s \<Longrightarrow> store_inv (init_zen_animation_observer s k)"
  by (simp add: init_zen_animation_observer_def store_inv_trigger_card_entrance)

lemma store_inv_mark_complete: "store_inv (mark_complete k d s) = store_inv s"
  by (simp add: mark_complete_def store_inv_map_card)

lemma store_inv_add_card:
  assumes inv: "store_inv s" and none: "cards s key = None" and ne: "key \<noteq> []"
  shows "store_inv ((s\<lparr>cards := (cards s)(key \<mapsto> new_card r key n t)\<rparr>)
                    \<lparr>ordered := ordered s @ [key], focused := Some key\<rparr>)"
  using assms by (auto simp: store_inv_def)

lemma create_or_update_inv:
  assumes inv: "store_inv s"
  shows "store_inv (snd (create_or_update_pod_element s r now))"
proof (cases "downloads s r")
  case None
  with inv show ?thesis by (simp add: create_or_update_pod_element_def)
next
  case (Some d)
  define key where "key = get_download_key d now"
  show ?thesis
  proof (cases "cards s key")
    case None
    then have notin: "key \<notin> set (ordered s)" using inv by (auto simp: store_inv_def)
    let ?s2 = "(s\<lparr>cards := (cards s)(key \<mapsto> new_card r key (get_safe_filename d) now)\<rparr>)
                    \<lparr>ordered := ordered s @ [key], focused := Some key\<rparr>"
    have "store_inv ?s2" using inv None get_download_key_nonempty unfolding key_def
      by (rule store_inv_add_card)
    then have "store_inv (map_card key (\<lambda>c. c\<lparr>dom_appended := True\<rparr>)
                 (init_zen_animation_observer (map_card key (\<lambda>c. c\<lparr>waiting_zen := True\<rparr>) ?s2) key))"
      by (simp add: store_inv_map_card store_inv_init_zen)
    with Some None notin show ?thesis
      by (simp add: create_or_update_pod_element_def key_def Let_def store_inv_mark_complete
          get_download_key_nonempty)
  next
    case (Some c)
    with \<open>downloads s r = Some d\<close> inv show ?thesis
      by (simp add: create_or_update_pod_element_def key_def Let_def store_inv_mark_complete
          store_inv_map_card get_download_key_nonempty)
  qed
qed

lemma dom_trigger_card_entrance [simp]:
  "dom (cards (trigger_card_entrance s k)) = dom (cards s)"
  by (simp add: trigger_card_entrance_def split: option.split)

lemma dom_init_zen [simp]: "dom (cards (init_zen_animation_observer s k)) = dom (cards s)"
  by (simp add: init_zen_animation_observer_def)

lemma dom_mark_complete [simp]: "dom (cards (mark_complete k d s)) = dom (cards s)"
  by (simp add: mark_complete_def)

lemma create_or_update_key:
  assumes "downloads s r = Some d"
  shows "fst (create_or_update_pod_element s r now) = Some (get_download_key d now) \<and>
         get_download_key d now \<in> dom (cards (snd (create_or_update_pod_element s r now)))"
  using assms
  by (auto simp: create_or_update_pod_element_def Let_def get_download_key_nonempty split: option.split)

lemma throttled_inv:
  assumes inv: "store_inv s"
  shows "store_inv (throttled_create_or_update_card s r now)"
proof (cases "downloads s r")
  case None
  with inv show ?thesis by (simp add: throttled_create_or_update_card_def)
next
  case (Some d)
  define key where "key = get_download_key d now"
  define s0 where "s0 = s\<lparr>throttle := (throttle s)(key \<mapsto> now)\<rparr>"
  have inv0: "store_inv s0" using inv by (simp add: s0_def)
  have d0: "downloads s0 r = Some d" using Some by (simp add: s0_def)
  obtain s2 where s2: "create_or_update_pod_element s0 r now = (Some key, s2)"
    and k2: "key \<in> dom (cards s2)"
    using create_or_update_key [OF d0, of now] unfolding key_def
    by (metis prod.collapse)
  have inv2: "store_inv s2"
    using create_or_update_inv [OF inv0, of r now] s2 by simp
  then have "store_inv (update_ui_for_focused_download s2 (Some key))"
    using k2 by (intro store_inv_update_ui) (auto simp: store_inv_def)
  with Some s2 inv show ?thesis
    by (simp add: throttled_create_or_update_card_def Let_def key_def s0_def)
qed

lemma remove_card_inv:
  "store_inv s \<Longrightarrow> store_inv (snd (remove_card s k force now))"
  by (simp add: remove_card_def store_inv_map_card split: option.split)

lemma refocus_after_removal_in:
  "refocus_after_removal idx ks = Some f \<Longrightarrow> f \<in> set ks"
  by (auto simp: refocus_after_removal_def dest: js_nth_in split: if_splits)

lemma remove_card_finish_inv:
  assumes inv: "store_inv s"
  shows "store_inv (remove_card_finish s k)"
proof -
  define idx where "idx = js_index_of k (ordered s)"
  define ks where "ks = (if -1 < idx then remove1 k (ordered s) else ordered s)"
  have ks: "ks = remove1 k (ordered s)"
    by (simp add: ks_def idx_def js_index_of_def remove1_idem)
  define s1 where "s1 = s\<lparr>cards := (cards s)(k := None), throttle := (throttle s)(k := None),
                  ordered := ks, pending_removal := remove1 k (pending_removal s)\<rparr>"
  define s2 where "s2 = (if focused s = Some k then s1\<lparr>focused := refocus_after_removal idx ks\<rparr> else s1)"
  have dist: "distinct (ordered s)" and sd: "set (ordered s) = dom (cards s)"
    using inv by (auto simp: store_inv_def)
  have set_ks: "set ks = set (ordered s) - {k}"
    using dist by (simp add: ks)
  have inv2: "store_inv s2"
    using inv unfolding s2_def s1_def store_inv_def
    by (auto simp: set_ks ks dist dest: refocus_after_removal_in split: if_splits)
  then have "store_inv (update_ui_for_focused_download s2 (focused s2))"
    by (intro store_inv_update_ui) (auto simp: store_inv_def)
  moreover have "remove_card_finish s k = update_ui_for_focused_download s2 (focused s2)"
    unfolding remove_card_finish_def Let_def idx_def ks_def s1_def s2_def by (rule refl)
  ultimately show ?thesis by simp
qed

lemma store_step_inv: "store_inv s \<Longrightarrow> store_inv (store_step s e)"
  by (cases e)
     (auto simp: throttled_inv remove_card_inv remove_card_finish_inv
        store_inv_trigger_card_entrance split: option.split)

lemma store_run_inv: "store_inv s \<Longrightarrow> store_inv (store_run s es)"
  by (induction es arbitrary: s) (simp_all add: store_step_inv)

lemma init_state_inv: "store_inv (init_state dls fs ai zen)"
  by (simp add: init_state_def store_inv_def)

text \<open>The equations that evaluate a concrete run of host events.\<close>

lemma update_ui_card_fields:
  "cards s k = Some c \<Longrightarrow>
   \<exists>c'. cards (update_ui_for_focused_download s kk) k = Some c' \<and> pod_dl c' = pod_dl c \<and>
     orig_path_before_ai c' = orig_path_before_ai c \<and> orig_name_before_ai c' = orig_name_before_ai c \<and>
     (renaming_initiated c \<longrightarrow> renaming_initiated c')"
  by (auto simp: update_ui_for_focused_download_def Let_def split: option.splits)

lemma update_ui_no_schedule:
  "cards s k = Some c \<Longrightarrow> renaming_initiated c \<Longrightarrow>
   pending_ai (update_ui_for_focused_download s (Some k)) = pending_ai s"
  by (auto simp: update_ui_for_focused_download_def ai_trigger_def Let_def split: option.splits)

lemmas store_eval = init_state_def demo_download_def throttled_create_or_update_card_def
  create_or_update_pod_element_def get_download_key_def get_safe_filename_def
  last_component_def Let_def dl_finished_def init_zen_animation_observer_def
  trigger_card_entrance_def update_ui_for_focused_download_def mark_complete_def
  card_update_throttle_ms_def ai_trigger_def remove_card_def remove_card_finish_def
  card_interaction_grace_period_ms_def refocus_after_removal_def

section \<open>Claims\<close>

text \<open>C1 (invariant). For every sequence of host events (downloads added, changed,
  removed, removal timers, Zen entrance signals, host-side object updates) from the
  initial state, \<open>orderedPodKeys\<close> has no duplicates and lists exactly the keys of
  \<open>activeDownloadCards\<close>, no listed key is empty, every card records its own key, and
  the focused key, when set, is listed.\<close>

theorem store_inv_all_runs: "store_inv (store_run (init_state dls fs ai zen) es)"
  by (rule store_run_inv [OF init_state_inv])


end
