(* ===== verification/StackLayout.thy ===== *)
theory StackLayout
  imports PodStore
begin

text \<open>
  The stack layout engine of \<open>src/tidy-downloads.uc.js\<close>: the mouse-wheel rotation
  \<open>handlePodScrollFocus\<close> and the layout pass \<open>managePodVisibilityAndAnimations\<close>.
  Rotation is a splice of \<open>orderedPodKeys\<close>; the lemmas show that, while the focused
  pod is the newest (the state every new pod and every rotation leaves), a forward
  step is a rotation of the key list by one to the right and a backward step a
  rotation to the left, so that the two undo each other. The layout pass computes the
  slots of the focused pod and of the pile, then compares each pod's intended target
  with the cached one and writes transform and opacity only when they differ; its
  lemmas describe the slots and show that a second pass writes nothing.
\<close>

section \<open>handlePodScrollFocus\<close>

text \<open>The pile as the handler sees it: all other keys, newest first.\<close>

definition pile_keys :: "key list \<Rightarrow> key \<Rightarrow> key list" where
  "pile_keys ks f = filter (\<lambda>k. k \<noteq> f) (rev ks)"

text \<open>\<open>newFocusedKey\<close>: scrolling down (\<open>deltaY > 0\<close>) takes the newest pile pod,
  scrolling up the oldest; \<open>deltaY = 0\<close> or an empty pile gives none.\<close>

definition scroll_new_focus :: "key list \<Rightarrow> key \<Rightarrow> int \<Rightarrow> key option" where
  "scroll_new_focus ks f delta =
     (let pile = pile_keys ks f in
      if 0 < delta then (if pile \<noteq> [] then Some (hd pile) else None)
      else if delta < 0 then (if pile \<noteq> [] then Some (last pile) else None)
      else None)"

text \<open>Both keys are spliced out; scrolling down puts the old focus at the front
  (oldest) and the new focus at the end; scrolling up pushes the new focus and
  inserts the old one just before it. Fewer than two pods, no (truthy) listed focus,
  or no new focus leave everything unchanged.\<close>

definition handle_pod_scroll_focus :: "tidy_state \<Rightarrow> int \<Rightarrow> tidy_state" where
  "handle_pod_scroll_focus s delta =
     (if length (ordered s) \<le> 1 then s else
      case focused s of None \<Rightarrow> s
      | Some f \<Rightarrow>
        if f = [] \<or> f \<notin> set (ordered s) then s else
        case scroll_new_focus (ordered s) f delta of None \<Rightarrow> s
        | Some n \<Rightarrow>
          if n = [] \<or> n = f then s else
          let ks = remove1 f (remove1 n (ordered s));
              ks' = (if 0 < delta then f # ks @ [n] else ks @ [f, n])
          in update_ui_for_focused_download
               (s\<lparr>ordered := ks', last_rotation := Some (if 0 < delta then Forward else Backward)\<rparr>)
               (Some n))"

section \<open>managePodVisibilityAndAnimations\<close>

definition pod_nominal_width :: int where "pod_nominal_width = 56"
definition pod_overlap_amount :: int where "pod_overlap_amount = 40"
definition base_z_index :: int where "base_z_index = 10"

text \<open>\<open>Math.floor((tooltipWidth - podNominalWidth) / (podNominalWidth - podOverlapAmount)) + 1\<close>;
  \<open>div\<close> on \<open>int\<close> rounds down as \<open>Math.floor\<close> does, also below zero.\<close>

definition max_visible_pods_in_pile :: "int \<Rightarrow> int" where
  "max_visible_pods_in_pile tw =
     (tw - pod_nominal_width) div (pod_nominal_width - pod_overlap_amount) + 1"

record layout_slot =
  slot_key :: key
  slot_x :: int
  slot_z :: int
  slot_focused :: bool

text \<open>The pile loop: slot \<open>i\<close> of the pile goes at \<open>currentX\<close> with z-index
  \<open>baseZIndex + pileKeys.length - i\<close> while fewer than \<open>maxVisiblePodsInPile - 1\<close> pile
  pods are placed and the next one still (partly) fits under the tooltip.\<close>

fun pile_slots :: "int \<Rightarrow> int \<Rightarrow> nat \<Rightarrow> int \<Rightarrow> nat \<Rightarrow> key list \<Rightarrow> layout_slot list" where
  "pile_slots tw limit n x i [] = []"
| "pile_slots tw limit n x i (k # ks) =
     (if int i < limit - 1 \<and> x + pod_nominal_width \<le> tw + pod_overlap_amount
      then \<lparr>slot_key = k, slot_x = x, slot_z = base_z_index + int n - int i, slot_focused = False\<rparr>
           # pile_slots tw limit n (x + (pod_nominal_width - pod_overlap_amount)) (Suc i) ks
      else [])"

text \<open>The focused pod at offset 0 with the highest z-index, then the pile.\<close>

definition compute_layout :: "int \<Rightarrow> key list \<Rightarrow> key \<Rightarrow> layout_slot list" where
  "compute_layout tw ks f =
     (let pile = pile_keys ks f in
      \<lparr>slot_key = f, slot_x = 0, slot_z = base_z_index + int (length ks) + 1, slot_focused = True\<rparr>
      # pile_slots tw (max_visible_pods_in_pile tw) (length pile)
          (pod_nominal_width - pod_overlap_amount) 0 pile)"

text \<open>The transform and opacity writes of one pass, in the order they are issued.
  The directional entrance of a newly focused pod first jumps to an offset start
  and then animates to the same target; only the target is recorded.\<close>

datatype pod_write = Show key transform opacity | Hide key transform

text \<open>The pod a write addresses, and the shape of a well-formed write: a pod is shown
  at a slot with one of the two visible opacities, or hidden with an exit slide.\<close>

fun write_key :: "pod_write \<Rightarrow> key" where
  "write_key (Show k t q) = k"
| "write_key (Hide k t) = k"

fun write_ok :: "pod_write \<Rightarrow> bool" where
  "write_ok (Show k t q) \<longleftrightarrow> (case t of Placed x \<Rightarrow> q = Op_1 \<or> q = Op_075 | _ \<Rightarrow> False)"
| "write_ok (Hide k t) \<longleftrightarrow> t = Exit_short \<or> t = Exit_long"

text \<open>One pod of the apply loop. A pod with a slot is shown at its target, and
  written only if it was hidden or its cached target differs; a pod without a slot
  that may still be visible exits, written only if its cached target is not already
  the exit. The exit is the short slide, or the long one during a rotation.\<close>

definition pod_apply :: "layout_slot list \<Rightarrow> key \<Rightarrow> rotation option \<Rightarrow> key \<Rightarrow> card \<Rightarrow> card \<times> pod_write list" where
  "pod_apply lay f rot k c =
     (case find (\<lambda>l. slot_key l = k) lay of
        Some l \<Rightarrow>
          let tt = Placed (slot_x l); tgt = (if slot_focused l then Op_1 else Op_075);
              w = (\<not> is_visible c \<or> intended_transform c \<noteq> Some tt \<or> intended_opacity c \<noteq> Some tgt)
          in (c\<lparr>intended_transform := Some tt, intended_opacity := Some tgt, is_visible := True,
                style_opacity := (if w then tgt else style_opacity c)\<rparr>,
              if w then [Show k tt tgt] else [])
      | None \<Rightarrow>
          if is_visible c \<or> style_opacity c \<noteq> Op_0 then
            let out = (if card_key c = f \<and> rot \<noteq> None then Exit_short
                       else if rot \<noteq> None then Exit_long else Exit_short);
                w = (intended_transform c \<noteq> Some out \<or> intended_opacity c \<noteq> Some Op_0)
            in (c\<lparr>style_opacity := (if w then Op_0 else style_opacity c),
                  intended_transform := Some out, intended_opacity := Some Op_0, is_visible := False\<rparr>,
                if w then [Hide k out] else [])
          else (c\<lparr>is_visible := False\<rparr>, []))"

text \<open>A pod takes part in the apply loop only when it is in the DOM, not waiting
  for the Zen animation and not being removed.\<close>

definition layout_ready :: "card \<Rightarrow> bool" where
  "layout_ready c \<longleftrightarrow> dom_appended c \<and> \<not> waiting_zen c \<and> \<not> being_removed c"

fun apply_layout :: "layout_slot list \<Rightarrow> key \<Rightarrow> rotation option \<Rightarrow> tidy_state \<Rightarrow> key list \<Rightarrow> tidy_state \<times> pod_write list" where
  "apply_layout lay f rot s [] = (s, [])"
| "apply_layout lay f rot s (k # ks) =
     (case cards s k of
        Some c \<Rightarrow>
          if layout_ready c then
            (let (c', w) = pod_apply lay f rot k c;
                 (s', ws) = apply_layout lay f rot (s\<lparr>cards := (cards s)(k \<mapsto> c')\<rparr>) ks
             in (s', w @ ws))
          else apply_layout lay f rot s ks
      | None \<Rightarrow> apply_layout lay f rot s ks)"

text \<open>The loop that appends every listed pod not waiting for the Zen animation.\<close>

definition ensure_appended :: "key list \<Rightarrow> tidy_state \<Rightarrow> tidy_state" where
  "ensure_appended ks s =
     fold (\<lambda>k. map_card k (\<lambda>c. if waiting_zen c then c else c\<lparr>dom_appended := True\<rparr>)) ks s"

text \<open>The "no focused key" branch: every visible pod is faded out.\<close>

definition hide_all :: "key list \<Rightarrow> tidy_state \<Rightarrow> tidy_state" where
  "hide_all ks s =
     fold (\<lambda>k. map_card k (\<lambda>c. if is_visible c then c\<lparr>style_opacity := Op_0, is_visible := False\<rparr> else c)) ks s"

text \<open>An unset, empty or unlisted focus defaults to the newest key.\<close>

definition repair_focus :: "tidy_state \<Rightarrow> tidy_state" where
  "repair_focus s =
     (case focused s of
        Some f \<Rightarrow> if f \<noteq> [] \<and> f \<in> set (ordered s) then s else s\<lparr>focused := Some (last (ordered s))\<rparr>
      | None \<Rightarrow> s\<lparr>focused := Some (last (ordered s))\<rparr>)"

text \<open>The pass, for a tooltip of width \<open>tw\<close>: nothing without pods or before the
  tooltip has a width; otherwise repair the focus (default the newest), append the
  ready pods, compute the slots and apply them to every listed pod.\<close>

definition manage_pod_visibility_and_animations :: "tidy_state \<Rightarrow> int \<Rightarrow> tidy_state \<times> pod_write list" where
  "manage_pod_visibility_and_animations s tw =
     (if ordered s = [] then (s, [])
      else if tw = 0 then (s, [])
      else
        let s1 = repair_focus s;
            s2 = ensure_appended (ordered s1) s1;
            f = the (focused s2)
        in if f = [] then (hide_all (ordered s2) s2, [])
           else apply_layout (compute_layout tw (ordered s2) f) f (last_rotation s2) s2 (ordered s2))"

section \<open>The rotation as an abstract operation\<close>

text \<open>The abstract view of the stack is its key list with the focus on the newest
  key; the two scroll directions are the two rotations of a cyclic list by one.\<close>

definition rotate_right :: "'a list \<Rightarrow> 'a list" where
  "rotate_right xs = (if xs = [] then [] else last xs # butlast xs)"

section \<open>Lemmas on the rotation handler\<close>

lemma scroll_forward_newest:
  assumes o: "ordered s = zs @ [z, f]" and fo: "focused s = Some f"
    and d: "distinct (zs @ [z, f])" and ne: "z \<noteq> []" "f \<noteq> []" and delta: "0 < delta"
  shows "ordered (handle_pod_scroll_focus s delta) = f # zs @ [z] \<and>
         focused (handle_pod_scroll_focus s delta) = Some z"
proof -
  have pile: "pile_keys (ordered s) f = z # rev zs"
    using o d by (auto simp: pile_keys_def filter_id_conv)
  have rm: "remove1 f (remove1 z (ordered s)) = zs"
    using o d by (simp add: remove1_append)
  have "z \<noteq> f" using d by simp
  with o fo ne delta pile rm show ?thesis
    by (simp add: handle_pod_scroll_focus_def scroll_new_focus_def Let_def)
qed

lemma scroll_backward_newest:
  assumes o: "ordered s = z # zs @ [f]" and fo: "focused s = Some f"
    and d: "distinct (z # zs @ [f])" and ne: "z \<noteq> []" "f \<noteq> []" and delta: "delta < 0"
  shows "ordered (handle_pod_scroll_focus s delta) = zs @ [f, z] \<and>
         focused (handle_pod_scroll_focus s delta) = Some z"
proof -
  have pile: "pile_keys (ordered s) f = rev zs @ [z]"
    using o d by (auto simp: pile_keys_def filter_id_conv)
  have rm: "remove1 f (remove1 z (ordered s)) = zs"
    using o d by (simp add: remove1_append)
  have "z \<noteq> f" using d by simp
  with o fo ne delta pile rm show ?thesis
    by (simp add: handle_pod_scroll_focus_def scroll_new_focus_def Let_def)
qed


lemma rotate1_rotate_right [simp]: "rotate1 (rotate_right xs) = xs"
  by (cases xs rule: rev_cases) (auto simp: rotate_right_def)


lemma scroll_new_focus_in: "scroll_new_focus ks f delta = Some n \<Longrightarrow> n \<in> set ks \<and> n \<noteq> f"
proof -
  assume h: "scroll_new_focus ks f delta = Some n"
  then have "n \<in> set (pile_keys ks f)"
    by (auto simp: scroll_new_focus_def Let_def split: if_splits)
  then show ?thesis by (simp add: pile_keys_def)
qed

lemma scroll_cases:
  obtains "handle_pod_scroll_focus s delta = s"
  | f n where "focused s = Some f" "f \<in> set (ordered s)" "n \<in> set (ordered s)" "n \<noteq> f" "n \<noteq> []"
      "handle_pod_scroll_focus s delta =
         update_ui_for_focused_download
            (s\<lparr>ordered := (if 0 < delta then f # remove1 f (remove1 n (ordered s)) @ [n]
                            else remove1 f (remove1 n (ordered s)) @ [f, n]),
                last_rotation := Some (if 0 < delta then Forward else Backward)\<rparr>) (Some n)"
proof (cases "length (ordered s) \<le> 1 \<or> focused s = None")
  case True
  then show ?thesis using that(1) by (auto simp: handle_pod_scroll_focus_def)
next
  case False
  then obtain f where f: "focused s = Some f" and len: "\<not> length (ordered s) \<le> 1" by auto
  show ?thesis
  proof (cases "f = [] \<or> f \<notin> set (ordered s)")
    case True
    then show ?thesis using that(1) f len by (simp add: handle_pod_scroll_focus_def Let_def)
  next
    case fin: False
    show ?thesis
    proof (cases "scroll_new_focus (ordered s) f delta")
      case None
      then show ?thesis using that(1) f len fin by (simp add: handle_pod_scroll_focus_def Let_def)
    next
      case (Some n)
      then have n: "n \<in> set (ordered s)" "n \<noteq> f" by (auto dest: scroll_new_focus_in)
      show ?thesis
      proof (cases "n = []")
        case True
        then show ?thesis using that(1) f len fin Some by (simp add: handle_pod_scroll_focus_def Let_def)
      next
        case False
        then show ?thesis using that(2) [OF f _ n False] f len fin Some n by (simp add: handle_pod_scroll_focus_def Let_def)
      qed
    qed
  qed
qed

lemma scroll_store_inv: "store_inv s \<Longrightarrow> store_inv (handle_pod_scroll_focus s d)"
proof -
  assume inv: "store_inv s"
  show ?thesis
  proof (rule scroll_cases [of s d])
    assume "handle_pod_scroll_focus s d = s"
    then show ?thesis using inv by simp
  next
    fix f n
    assume h2: "focused s = Some f" "f \<in> set (ordered s)" "n \<in> set (ordered s)" "n \<noteq> f" "n \<noteq> []"
      "handle_pod_scroll_focus s d =
         update_ui_for_focused_download
            (s\<lparr>ordered := (if 0 < d then f # remove1 f (remove1 n (ordered s)) @ [n]
                            else remove1 f (remove1 n (ordered s)) @ [f, n]),
                last_rotation := Some (if 0 < d then Forward else Backward)\<rparr>) (Some n)"
    note 2 = h2
    let ?ks = "remove1 f (remove1 n (ordered s))"
    have dist: "distinct (ordered s)" using inv by (simp add: store_inv_def)
    have ks: "set ?ks = set (ordered s) - {f, n}" "distinct ?ks" "f \<notin> set ?ks" "n \<notin> set ?ks"
      using dist 2 by (auto simp: set_remove1_eq)
    define ks' where "ks' = (if 0 < d then f # ?ks @ [n] else ?ks @ [f, n])"
    have perm: "distinct ks'" "set ks' = set (ordered s)"
      using ks 2 by (auto simp: ks'_def)
    have "store_inv (s\<lparr>ordered := ks', last_rotation := Some (if 0 < d then Forward else Backward)\<rparr>)"
      using inv perm unfolding store_inv_def by auto
    then have "store_inv (update_ui_for_focused_download
       (s\<lparr>ordered := ks', last_rotation := Some (if 0 < d then Forward else Backward)\<rparr>) (Some n))"
      using 2 perm by (intro store_inv_update_ui) auto
    then show ?thesis using 2 by (simp add: ks'_def)
  qed
qed


lemma scroll_zero [simp]: "handle_pod_scroll_focus s 0 = s"
  by (simp add: handle_pod_scroll_focus_def scroll_new_focus_def split: option.split)

lemma newest_shape:
  assumes inv: "store_inv s" and fo: "focused s = Some (last (ordered s))"
  shows "ordered s \<noteq> [] \<and> distinct (ordered s) \<and> [] \<notin> set (ordered s)"
  using assms by (auto simp: store_inv_def)

lemma scroll_newest_forward:
  assumes inv: "store_inv s" and fo: "focused s = Some (last (ordered s))" and d: "0 < delta"
  shows "ordered (handle_pod_scroll_focus s delta) = rotate_right (ordered s) \<and>
         focused (handle_pod_scroll_focus s delta) = Some (last (ordered (handle_pod_scroll_focus s delta)))"
proof (cases "length (ordered s) \<le> 1")
  case True
  with newest_shape [OF inv fo] fo show ?thesis
    by (cases "ordered s") (auto simp: handle_pod_scroll_focus_def rotate_right_def)
next
  case False
  obtain ys f where ys: "ordered s = ys @ [f]"
    using newest_shape [OF inv fo] by (cases "ordered s" rule: rev_cases) auto
  with False have "ys \<noteq> []" by auto
  then obtain zs z where "ys = zs @ [z]" by (cases ys rule: rev_cases) auto
  with ys have o: "ordered s = zs @ [z, f]" by simp
  with newest_shape [OF inv fo] have "distinct (zs @ [z, f])" "z \<noteq> []" "f \<noteq> []" by auto
  with scroll_forward_newest [OF o _ _ _ _ d] fo o show ?thesis
    by (simp add: rotate_right_def butlast_append)
qed

lemma scroll_newest_backward:
  assumes inv: "store_inv s" and fo: "focused s = Some (last (ordered s))" and d: "delta < 0"
  shows "ordered (handle_pod_scroll_focus s delta) = rotate1 (ordered s) \<and>
         focused (handle_pod_scroll_focus s delta) = Some (last (ordered (handle_pod_scroll_focus s delta)))"
proof (cases "length (ordered s) \<le> 1")
  case True
  with newest_shape [OF inv fo] fo show ?thesis
    by (cases "ordered s") (auto simp: handle_pod_scroll_focus_def)
next
  case False
  obtain ys f where ys: "ordered s = ys @ [f]"
    using newest_shape [OF inv fo] by (cases "ordered s" rule: rev_cases) auto
  with False have "ys \<noteq> []" by auto
  then obtain z zs where "ys = z # zs" by (cases ys) auto
  with ys have o: "ordered s = z # zs @ [f]" by simp
  with newest_shape [OF inv fo] have "distinct (z # zs @ [f])" "z \<noteq> []" "f \<noteq> []" by auto
  with scroll_backward_newest [OF o _ _ _ _ d] fo o show ?thesis by simp
qed

lemma funpow_track:
  assumes step: "\<And>t. P t \<Longrightarrow> P (g t) \<and> h (g t) = r (h t)" and p: "P s"
  shows "P ((g ^^ k) s) \<and> h ((g ^^ k) s) = (r ^^ k) (h s)"
  by (induction k) (use step p in auto)

lemma rotate1_pow_rotate_right_pow: "(rotate1 ^^ k) ((rotate_right ^^ k) xs) = xs"
proof (induction k arbitrary: xs)
  case 0 then show ?case by simp
next
  case (Suc k)
  have "(rotate1 ^^ Suc k) ((rotate_right ^^ Suc k) xs) =
        (rotate1 ^^ k) (rotate1 (rotate_right ((rotate_right ^^ k) xs)))"
    by (simp add: funpow_swap1)
  then show ?case by (simp add: Suc.IH)
qed

section \<open>Lemmas on the layout pass\<close>

text \<open>The geometry of the pile loop.\<close>

lemma pile_slots_keys:
  "map slot_key (pile_slots tw limit n x i ks) = take (length (pile_slots tw limit n x i ks)) ks"
  by (induction tw limit n x i ks rule: pile_slots.induct) auto

lemma pile_slots_nth:
  "j < length (pile_slots tw limit n x i ks) \<Longrightarrow>
   slot_x (pile_slots tw limit n x i ks ! j) = x + (pod_nominal_width - pod_overlap_amount) * int j \<and>
   slot_z (pile_slots tw limit n x i ks ! j) = base_z_index + int n - int (i + j) \<and>
   \<not> slot_focused (pile_slots tw limit n x i ks ! j) \<and>
   slot_x (pile_slots tw limit n x i ks ! j) + pod_nominal_width \<le> tw + pod_overlap_amount"
proof (induction tw limit n x i ks arbitrary: j rule: pile_slots.induct)
  case (1 tw limit n x i) then show ?case by simp
next
  case (2 tw limit n x i k ks)
  show ?case
  proof (cases j)
    case 0 then show ?thesis using "2.prems" by (auto split: if_splits)
  next
    case (Suc j')
    then show ?thesis using "2.prems" "2.IH" [of j'] by (auto simp: algebra_simps split: if_splits)
  qed
qed

lemma pile_slots_length:
  "int (length (pile_slots tw limit n x i ks)) \<le> max 0 (limit - 1 - int i)"
  by (induction tw limit n x i ks rule: pile_slots.induct) auto

lemma length_pile_keys: "length (pile_keys ks f) \<le> length ks"
  using length_filter_le [of "\<lambda>k. k \<noteq> f" "rev ks"] by (simp add: pile_keys_def)

text \<open>A second application of a pod's layout step writes nothing and changes
  nothing; a pod list is settled when every ready pod is such a fixpoint.\<close>

lemma pod_apply_ready: "layout_ready (fst (pod_apply lay f rot k c)) = layout_ready c"
  by (auto simp: pod_apply_def layout_ready_def Let_def split: option.splits)

lemma pod_apply_appended:
  "dom_appended (fst (pod_apply lay f rot k c)) = dom_appended c \<and>
   waiting_zen (fst (pod_apply lay f rot k c)) = waiting_zen c"
  by (auto simp: pod_apply_def Let_def split: option.splits)

lemma pod_apply_fix:
  assumes pa: "pod_apply lay f rot k c = (c', w)"
  shows "pod_apply lay f rot k c' = (c', [])"
proof (cases "find (\<lambda>l. slot_key l = k) lay")
  case (Some l)
  then show ?thesis using pa by (clarsimp simp: pod_apply_def Let_def)
next
  case None
  show ?thesis
  proof (cases "is_visible c \<or> style_opacity c \<noteq> Op_0")
    case True
    then show ?thesis using pa None by (clarsimp simp: pod_apply_def Let_def)
  next
    case False
    then show ?thesis using pa None by (clarsimp simp: pod_apply_def)
  qed
qed

lemma apply_layout_frame:
  "\<exists>cs. fst (apply_layout lay f rot s ks) = s\<lparr>cards := cs\<rparr>"
proof (induction ks arbitrary: s)
  case Nil then show ?case by (auto intro: exI [of _ "cards s"])
next
  case (Cons k ks)
  show ?case
  proof (cases "cards s k")
    case None then show ?thesis using Cons by simp
  next
    case (Some c)
    obtain cs where "fst (apply_layout lay f rot (s\<lparr>cards := (cards s)(k \<mapsto> fst (pod_apply lay f rot k c))\<rparr>) ks)
        = (s\<lparr>cards := (cards s)(k \<mapsto> fst (pod_apply lay f rot k c))\<rparr>)\<lparr>cards := cs\<rparr>"
      using Cons by blast
    moreover obtain cs' where "fst (apply_layout lay f rot s ks) = s\<lparr>cards := cs'\<rparr>"
      using Cons by blast
    ultimately show ?thesis
      using Some by (auto simp: split_def Let_def)
  qed
qed

lemma apply_layout_other:
  "k \<notin> set ks \<Longrightarrow> cards (fst (apply_layout lay f rot s ks)) k = cards s k"
  by (induction ks arbitrary: s) (auto simp: split_def Let_def split: option.splits)

definition layout_settled :: "layout_slot list \<Rightarrow> key \<Rightarrow> rotation option \<Rightarrow> tidy_state \<Rightarrow> key list \<Rightarrow> bool" where
  "layout_settled lay f rot s ks \<longleftrightarrow>
     (\<forall>k\<in>set ks. \<forall>c. cards s k = Some c \<longrightarrow> layout_ready c \<longrightarrow> pod_apply lay f rot k c = (c, []))"

lemma apply_layout_settled_id:
  "layout_settled lay f rot s ks \<Longrightarrow> apply_layout lay f rot s ks = (s, [])"
proof (induction ks)
  case Nil then show ?case by simp
next
  case (Cons k ks)
  then have IH: "apply_layout lay f rot s ks = (s, [])" by (simp add: layout_settled_def)
  show ?case
  proof (cases "cards s k")
    case (Some c)
    then have "layout_ready c \<Longrightarrow> pod_apply lay f rot k c = (c, [])"
      using Cons.prems by (simp add: layout_settled_def)
    moreover have "s\<lparr>cards := (cards s)(k \<mapsto> c)\<rparr> = s"
      using Some by (simp add: fun_upd_idem)
    ultimately show ?thesis using Some IH by auto
  qed (simp add: IH)
qed

lemma apply_layout_settles:
  "layout_settled lay f rot (fst (apply_layout lay f rot s ks)) ks"
proof (induction ks arbitrary: s)
  case Nil then show ?case by (simp add: layout_settled_def)
next
  case (Cons k ks)
  show ?case
  proof (cases "cards s k")
    case None
    then show ?thesis using Cons apply_layout_other [of k ks]
      by (cases "k \<in> set ks") (auto simp: layout_settled_def)
  next
    case (Some c)
    show ?thesis
    proof (cases "layout_ready c")
      case False
      then show ?thesis using Cons Some apply_layout_other [of k ks]
        by (cases "k \<in> set ks") (auto simp: layout_settled_def)
    next
      case True
      obtain c' w where pa: "pod_apply lay f rot k c = (c', w)" by (metis prod.collapse)
      let ?s1 = "s\<lparr>cards := (cards s)(k \<mapsto> c')\<rparr>"
      have IH: "layout_settled lay f rot (fst (apply_layout lay f rot ?s1 ks)) ks"
        by (rule Cons.IH)
      have "k \<notin> set ks \<Longrightarrow> cards (fst (apply_layout lay f rot ?s1 ks)) k = Some c'"
        using apply_layout_other [of k ks lay f rot ?s1] by simp
      then show ?thesis
        using IH Some True pa pod_apply_fix [OF pa] pod_apply_ready [of lay f rot k c]
        by (cases "k \<in> set ks") (auto simp: layout_settled_def split_def Let_def)
    qed
  qed
qed

lemma pod_apply_key: "card_key (fst (pod_apply lay f rot k c)) = card_key c"
  by (simp add: pod_apply_def Let_def split: option.split)

lemma apply_layout_flags:
  "cards (fst (apply_layout lay f rot s ks)) k = Some c' \<Longrightarrow>
   \<exists>c. cards s k = Some c \<and> dom_appended c' = dom_appended c \<and> waiting_zen c' = waiting_zen c \<and>
       card_key c' = card_key c"
proof (induction ks arbitrary: s)
  case Nil then show ?case by simp
next
  case (Cons k1 ks)
  show ?case
  proof (cases "cards s k1")
    case (Some c1)
    show ?thesis
    proof (cases "layout_ready c1")
      case True
      obtain c2 w where pa: "pod_apply lay f rot k1 c1 = (c2, w)" by (metis prod.collapse)
      from Cons.prems Some True pa obtain c where
        "cards (s\<lparr>cards := (cards s)(k1 \<mapsto> c2)\<rparr>) k = Some c" "dom_appended c' = dom_appended c"
        "waiting_zen c' = waiting_zen c" "card_key c' = card_key c"
        using Cons.IH by (fastforce simp: split_def Let_def)
      then show ?thesis
        using Some pa pod_apply_appended [of lay f rot k1 c1] pod_apply_key [of lay f rot k1 c1]
        by (auto split: if_splits)
    qed (use Cons Some in simp)
  qed (use Cons in simp)
qed

lemma apply_layout_dom: "dom (cards (fst (apply_layout lay f rot s ks))) = dom (cards s)"
  by (induction ks arbitrary: s) (auto simp: split_def Let_def split: option.splits)

lemma apply_layout_store_inv:
  "store_inv s \<Longrightarrow> store_inv (fst (apply_layout lay f rot s ks))"
proof -
  assume inv: "store_inv s"
  obtain cs where fr: "fst (apply_layout lay f rot s ks) = s\<lparr>cards := cs\<rparr>"
    using apply_layout_frame by metis
  have "\<forall>k c. cards (fst (apply_layout lay f rot s ks)) k = Some c \<longrightarrow> card_key c = k"
    using inv apply_layout_flags unfolding store_inv_def by metis
  moreover have "dom cs = dom (cards s)"
    using apply_layout_dom [of lay f rot s ks] fr by simp
  ultimately show ?thesis
    using inv unfolding store_inv_def fr by (clarsimp simp del: dom_eq_empty_conv; blast)
qed

lemma hide_all_store_inv: "store_inv s \<Longrightarrow> store_inv (hide_all ks s)"
proof (induction ks arbitrary: s)
  case Nil then show ?case by (simp add: hide_all_def)
next
  case (Cons k ks)
  have "store_inv (map_card k (\<lambda>c. if is_visible c then c\<lparr>style_opacity := Op_0, is_visible := False\<rparr> else c) s)"
    using Cons.prems by (simp add: store_inv_map_card)
  then show ?case using Cons.IH by (simp add: hide_all_def)
qed

definition mark_appended :: "card \<Rightarrow> card" where
  "mark_appended c = (if waiting_zen c then c else c\<lparr>dom_appended := True\<rparr>)"

lemma ensure_appended_closed:
  "ensure_appended ks s =
     s\<lparr>cards := (\<lambda>k. if k \<in> set ks then map_option mark_appended (cards s k) else cards s k)\<rparr>"
proof (induction ks arbitrary: s)
  case Nil then show ?case by (simp add: ensure_appended_def)
next
  case (Cons k ks)
  have idem: "mark_appended (mark_appended c) = mark_appended c" for c
    by (simp add: mark_appended_def)
  have "ensure_appended (k # ks) s = ensure_appended ks (map_card k mark_appended s)"
    by (simp add: ensure_appended_def mark_appended_def [abs_def])
  then show ?case
    using Cons.IH by (auto simp: map_card_def fun_eq_iff option.map_comp comp_def idem)
qed

lemma ensure_appended_id:
  "\<forall>k\<in>set ks. \<forall>c. cards s k = Some c \<longrightarrow> waiting_zen c \<or> dom_appended c \<Longrightarrow> ensure_appended ks s = s"
proof -
  assume h: "\<forall>k\<in>set ks. \<forall>c. cards s k = Some c \<longrightarrow> waiting_zen c \<or> dom_appended c"
  have "(\<lambda>k. if k \<in> set ks then map_option mark_appended (cards s k) else cards s k) = cards s"
  proof
    fix k show "(if k \<in> set ks then map_option mark_appended (cards s k) else cards s k) = cards s k"
      using h by (cases "cards s k") (auto simp: mark_appended_def)
  qed
  then show ?thesis unfolding ensure_appended_closed by simp
qed

lemma ensure_appended_store_inv: "store_inv s \<Longrightarrow> store_inv (ensure_appended ks s)"
proof (induction ks arbitrary: s)
  case Nil then show ?case by (simp add: ensure_appended_def)
next
  case (Cons k ks)
  have "store_inv (map_card k (\<lambda>c. if waiting_zen c then c else c\<lparr>dom_appended := True\<rparr>) s)"
    using Cons.prems by (simp add: store_inv_map_card)
  then show ?case using Cons.IH by (simp add: ensure_appended_def)
qed

lemma repair_focus_store_inv:
  assumes "store_inv s" "ordered s \<noteq> []"
  shows "store_inv (repair_focus s)"
  using assms by (cases "focused s") (auto simp: store_inv_def repair_focus_def)

lemma manage_store_inv:
  assumes inv: "store_inv s"
  shows "store_inv (fst (manage_pod_visibility_and_animations s tw))"
proof (cases "ordered s = [] \<or> tw = 0")
  case True
  then show ?thesis using inv by (auto simp: manage_pod_visibility_and_animations_def)
next
  case False
  define s2 where "s2 = ensure_appended (ordered (repair_focus s)) (repair_focus s)"
  have "store_inv s2"
    unfolding s2_def using False inv by (simp add: ensure_appended_store_inv repair_focus_store_inv)
  then show ?thesis using False
    by (simp add: manage_pod_visibility_and_animations_def Let_def s2_def [symmetric]
                  hide_all_store_inv apply_layout_store_inv)
qed

lemma repair_focus_frame [simp]:
  "ordered (repair_focus s) = ordered s" "last_rotation (repair_focus s) = last_rotation s"
  "cards (repair_focus s) = cards s"
  by (simp_all add: repair_focus_def split: option.split)

lemma repair_focus_stable:
  "ordered s \<noteq> [] \<Longrightarrow> ordered t = ordered s \<Longrightarrow> focused t = focused (repair_focus s) \<Longrightarrow>
   repair_focus t = t"
  by (auto simp: repair_focus_def split: option.splits if_splits)

lemma mark_appended_done: "waiting_zen (mark_appended c) \<or> dom_appended (mark_appended c)"
  by (simp add: mark_appended_def)

section \<open>Examples\<close>

text \<open>Two downloads, \<open>/d/a\<close> then \<open>/d/b\<close>, announced by the host: the newest is
  focused. In \<open>demo_refocused\<close> the older one reports progress afterwards and takes
  the focus.\<close>

definition demo_two_pods :: tidy_state where
  "demo_two_pods =
     store_run (init_state [0 \<mapsto> demo_download ''/d/a'', 1 \<mapsto> demo_download ''/d/b''] Map.empty False False)
       [Dl_added 0 1000, Dl_added 1 2000]"

definition demo_refocused :: tidy_state where
  "demo_refocused = store_step demo_two_pods (Dl_changed 0 3000)"

lemma demo_two_pods_inv: "store_inv demo_two_pods"
  unfolding demo_two_pods_def by (rule store_run_inv [OF init_state_inv])

lemma demo_two_pods_state:
  "ordered demo_two_pods = [''/d/a'', ''/d/b''] \<and> focused demo_two_pods = Some ''/d/b''"
  by (simp add: demo_two_pods_def store_eval)

lemma demo_refocused_inv: "store_inv demo_refocused"
  unfolding demo_refocused_def using demo_two_pods_inv by (rule store_step_inv)

lemma demo_refocused_state:
  "ordered demo_refocused = [''/d/a'', ''/d/b''] \<and> focused demo_refocused = Some ''/d/a''"
  by (simp add: demo_refocused_def demo_two_pods_def store_eval)

section \<open>Claims\<close>

text \<open>C2 (refinement). While the focused pod is the newest, \<open>handlePodScrollFocus\<close>
  implements the abstract rotation of the stack: scrolling down rotates
  \<open>orderedPodKeys\<close> one step to the right (the newest key moves to the front),
  scrolling up rotates it one step to the left (\<open>rotate1\<close>), and afterwards the
  focus is again on the newest key.\<close>

theorem scroll_refines_rotation:
  assumes "store_inv s" and "focused s = Some (last (ordered s))"
  shows "(0 < delta \<longrightarrow> ordered (handle_pod_scroll_focus s delta) = rotate_right (ordered s)) \<and>
         (delta < 0 \<longrightarrow> ordered (handle_pod_scroll_focus s delta) = rotate1 (ordered s)) \<and>
         focused (handle_pod_scroll_focus s delta) = Some (last (ordered (handle_pod_scroll_focus s delta)))"
proof (cases "0 < delta")
  case True
  then show ?thesis using scroll_newest_forward [OF assms] by simp
next
  case False
  show ?thesis
  proof (cases "delta < 0")
    case True
    then show ?thesis using scroll_newest_backward [OF assms] by simp
  next
    case False
    with \<open>\<not> 0 < delta\<close> have "delta = 0" by simp
    with assms(2) show ?thesis by simp
  qed
qed

theorem scroll_refines_rotation_witness:
  "store_inv demo_two_pods \<and> focused demo_two_pods = Some (last (ordered demo_two_pods)) \<and>
   ordered (handle_pod_scroll_focus demo_two_pods 1) = [''/d/b'', ''/d/a''] \<and>
   ordered (handle_pod_scroll_focus demo_two_pods (-1)) = [''/d/b'', ''/d/a'']"
proof -
  have inv: "store_inv demo_two_pods" by (rule demo_two_pods_inv)
  have foc: "focused demo_two_pods = Some (last (ordered demo_two_pods))"
    using demo_two_pods_state by simp
  have f: "ordered (handle_pod_scroll_focus demo_two_pods 1) = rotate_right (ordered demo_two_pods)"
    using scroll_refines_rotation [OF inv foc, of 1] by simp
  have b: "ordered (handle_pod_scroll_focus demo_two_pods (-1)) = rotate1 (ordered demo_two_pods)"
    using scroll_refines_rotation [OF inv foc, of "-1"] by simp
  show ?thesis using inv foc f b demo_two_pods_state by (simp add: rotate_right_def)
qed

text \<open>C8 (roundtrip). While the focused pod is the newest, scrolling down \<open>k\<close>
  times and then up \<open>k\<close> times restores \<open>orderedPodKeys\<close> and the focused key.\<close>

theorem scroll_round_trip:
  assumes inv: "store_inv s" and fo: "focused s = Some (last (ordered s))"
  shows "ordered (((\<lambda>t. handle_pod_scroll_focus t (-1)) ^^ k) (((\<lambda>t. handle_pod_scroll_focus t 1) ^^ k) s)) = ordered s \<and>
         focused (((\<lambda>t. handle_pod_scroll_focus t (-1)) ^^ k) (((\<lambda>t. handle_pod_scroll_focus t 1) ^^ k) s)) = focused s"
proof -
  let ?P = "\<lambda>t. store_inv t \<and> focused t = Some (last (ordered t))"
  let ?t = "((\<lambda>t. handle_pod_scroll_focus t 1) ^^ k) s"
  have fwd: "?P ?t \<and> ordered ?t = (rotate_right ^^ k) (ordered s)"
    by (rule funpow_track [where P = ?P])
       (use inv fo scroll_newest_forward scroll_store_inv in auto)
  have bwd: "?P (((\<lambda>t. handle_pod_scroll_focus t (-1)) ^^ k) ?t) \<and>
             ordered (((\<lambda>t. handle_pod_scroll_focus t (-1)) ^^ k) ?t) = (rotate1 ^^ k) (ordered ?t)"
    by (rule funpow_track [where P = ?P])
       (use fwd scroll_newest_backward scroll_store_inv in auto)
  from fwd bwd fo show ?thesis by (simp add: rotate1_pow_rotate_right_pow)
qed

theorem scroll_round_trip_witness:
  "store_inv demo_two_pods \<and> focused demo_two_pods = Some (last (ordered demo_two_pods)) \<and>
   ordered (((\<lambda>t. handle_pod_scroll_focus t (-1)) ^^ 2) (((\<lambda>t. handle_pod_scroll_focus t 1) ^^ 2) demo_two_pods))
     = [''/d/a'', ''/d/b'']"
proof -
  have inv: "store_inv demo_two_pods" by (rule demo_two_pods_inv)
  have foc: "focused demo_two_pods = Some (last (ordered demo_two_pods))"
    using demo_two_pods_state by simp
  show ?thesis using scroll_round_trip [OF inv foc, of 2] inv foc demo_two_pods_state by simp
qed


text \<open>C19 (bounds). The layout of \<open>managePodVisibilityAndAnimations\<close> puts the
  focused pod at offset 0 and the pile after it in reverse-chronological order, the
  i-th slot at \<open>i * (podNominalWidth - podOverlapAmount)\<close>; only the first slot is
  focused; the z-indices strictly decrease from the focused pod through the pile (the
  focused pod is on top, newer pile pods above older ones); there are at most
  \<open>max(1, maxVisiblePodsInPile)\<close> slots, and every pile slot fits under the tooltip.\<close>

theorem compute_layout_shape:
  "let lay = compute_layout tw ks f in
   map slot_key lay = f # take (length lay - 1) (pile_keys ks f) \<and>
   (\<forall>j<length lay. slot_x (lay ! j) = (pod_nominal_width - pod_overlap_amount) * int j \<and>
                    (slot_focused (lay ! j) \<longleftrightarrow> j = 0)) \<and>
   sorted_wrt (>) (map slot_z lay) \<and>
   int (length lay) \<le> max 1 (max_visible_pods_in_pile tw) \<and>
   (\<forall>j. 0 < j \<and> j < length lay \<longrightarrow> slot_x (lay ! j) + pod_nominal_width \<le> tw + pod_overlap_amount)"
proof -
  define P where "P = pile_slots tw (max_visible_pods_in_pile tw) (length (pile_keys ks f))
                        (pod_nominal_width - pod_overlap_amount) 0 (pile_keys ks f)"
  define F where "F = \<lparr>slot_key = f, slot_x = 0, slot_z = base_z_index + int (length ks) + 1, slot_focused = True\<rparr>"
  have lay: "compute_layout tw ks f = F # P"
    by (simp add: compute_layout_def P_def F_def Let_def)
  note N = pile_slots_nth [of _ tw "max_visible_pods_in_pile tw" "length (pile_keys ks f)"
                             "pod_nominal_width - pod_overlap_amount" 0 "pile_keys ks f", folded P_def]
  have keys: "map slot_key (F # P) = f # take (length P) (pile_keys ks f)"
    using pile_slots_keys [of tw "max_visible_pods_in_pile tw" "length (pile_keys ks f)"
            "pod_nominal_width - pod_overlap_amount" 0 "pile_keys ks f"] by (simp add: P_def F_def)
  have x: "\<forall>j<length (F # P). slot_x ((F # P) ! j) = (pod_nominal_width - pod_overlap_amount) * int j \<and>
                              (slot_focused ((F # P) ! j) \<longleftrightarrow> j = 0)"
    by (auto simp: F_def nth_Cons algebra_simps N split: nat.splits)
  have zP: "\<forall>j<length P. slot_z (P ! j) = base_z_index + int (length (pile_keys ks f)) - int j"
    using N by simp
  have "sorted_wrt (>) (map slot_z (F # P))"
    using zP length_pile_keys [of ks f]
    by (auto simp: sorted_wrt_iff_nth_less nth_Cons F_def split: nat.splits)
  moreover have "int (length (F # P)) \<le> max 1 (max_visible_pods_in_pile tw)"
    using pile_slots_length [of tw "max_visible_pods_in_pile tw" "length (pile_keys ks f)"
            "pod_nominal_width - pod_overlap_amount" 0 "pile_keys ks f"] by (simp add: P_def)
  moreover have "\<forall>j. 0 < j \<and> j < length (F # P) \<longrightarrow>
                   slot_x ((F # P) ! j) + pod_nominal_width \<le> tw + pod_overlap_amount"
  proof (intro allI impI)
    fix j assume "0 < j \<and> j < length (F # P)"
    then obtain j' where "j = Suc j'" "j' < length P" by (cases j) auto
    then show "slot_x ((F # P) ! j) + pod_nominal_width \<le> tw + pod_overlap_amount"
      using N [of j'] by simp
  qed
  ultimately show ?thesis
    using keys x unfolding lay Let_def by simp
qed

lemma compute_layout_shape_witness:
  "map slot_key (compute_layout 100 [''/d/a'', ''/d/b'', ''/d/c''] ''/d/c'') = [''/d/c'', ''/d/b'', ''/d/a''] \<and>
   map slot_x (compute_layout 100 [''/d/a'', ''/d/b'', ''/d/c''] ''/d/c'') = [0, 16, 32] \<and>
   sorted_wrt (>) (map slot_z (compute_layout 100 [''/d/a'', ''/d/b'', ''/d/c''] ''/d/c''))"
proof -
  have "sorted_wrt (>) (map slot_z (compute_layout 100 [''/d/a'', ''/d/b'', ''/d/c''] ''/d/c''))"
    using compute_layout_shape [of 100 "[''/d/a'', ''/d/b'', ''/d/c'']" "''/d/c''"] by (simp add: Let_def)
  moreover have "map slot_key (compute_layout 100 [''/d/a'', ''/d/b'', ''/d/c''] ''/d/c'') = [''/d/c'', ''/d/b'', ''/d/a''] \<and>
      map slot_x (compute_layout 100 [''/d/a'', ''/d/b'', ''/d/c''] ''/d/c'') = [0, 16, 32]"
    by (simp add: compute_layout_def pile_keys_def max_visible_pods_in_pile_def pod_nominal_width_def
                  pod_overlap_amount_def base_z_index_def)
  ultimately show ?thesis by simp
qed

text \<open>C20 (idempotence). On a state satisfying the store invariant, a second
  layout pass right after a first one, with no event in between, issues no
  transform or opacity write and leaves the state unchanged: the cached intended
  targets make the pass a fixpoint.\<close>

theorem layout_pass_idempotent:
  assumes inv: "store_inv s" and run: "manage_pod_visibility_and_animations s tw = (s', ws)"
  shows "manage_pod_visibility_and_animations s' tw = (s', [])"
proof (cases "ordered s = [] \<or> tw = 0")
  case True
  then have "s' = s" using run by (auto simp: manage_pod_visibility_and_animations_def split: if_splits)
  then show ?thesis using True by (auto simp: manage_pod_visibility_and_animations_def)
next
  case False
  define s1 where "s1 = repair_focus s"
  define s2 where "s2 = ensure_appended (ordered s1) s1"
  define f where "f = the (focused s2)"
  define lay where "lay = compute_layout tw (ordered s2) f"
  have s2: "ordered s2 = ordered s" "focused s2 = focused s1" "last_rotation s2 = last_rotation s"
    by (simp_all add: s2_def s1_def ensure_appended_closed)
  have foc: "focused s1 = Some f \<and> f \<noteq> [] \<and> f \<in> set (ordered s)"
  proof -
    have "last (ordered s) \<in> set (ordered s)" using False by simp
    moreover have "[] \<notin> set (ordered s)" using inv unfolding store_inv_def by blast
    ultimately show ?thesis
      using s2(2) by (auto simp: f_def s1_def repair_focus_def split: option.splits if_splits)
  qed
  have s': "s' = fst (apply_layout lay f (last_rotation s2) s2 (ordered s2))"
    using run False foc s2
    by (auto simp: manage_pod_visibility_and_animations_def Let_def s1_def s2_def f_def lay_def split_def)
  obtain cs where fr: "s' = s2\<lparr>cards := cs\<rparr>"
    using apply_layout_frame s' by metis
  have o: "ordered s' = ordered s" "focused s' = focused s1" "last_rotation s' = last_rotation s"
    using fr s2 by simp_all
  have rep: "repair_focus s' = s'"
    using False o by (intro repair_focus_stable) (simp_all add: s1_def)
  have "\<forall>k\<in>set (ordered s'). \<forall>c. cards s' k = Some c \<longrightarrow> waiting_zen c \<or> dom_appended c"
  proof (intro ballI allI impI)
    fix k c assume k: "k \<in> set (ordered s')" and c: "cards s' k = Some c"
    obtain c0 where c0: "cards s2 k = Some c0" "dom_appended c = dom_appended c0" "waiting_zen c = waiting_zen c0"
      using apply_layout_flags c s' by metis
    have "k \<in> set (ordered s1)" using k o by (simp add: s1_def)
    then show "waiting_zen c \<or> dom_appended c"
      using c0 mark_appended_done by (auto simp: s2_def ensure_appended_closed)
  qed
  then have app: "ensure_appended (ordered s') s' = s'"
    by (rule ensure_appended_id)
  have settled: "apply_layout lay f (last_rotation s') s' (ordered s') = (s', [])"
    using apply_layout_settles [of lay f "last_rotation s2" s2 "ordered s2"] s' o s2
    by (intro apply_layout_settled_id) simp
  show ?thesis
    using False o rep app settled foc
    by (simp add: manage_pod_visibility_and_animations_def Let_def lay_def s2)
qed

lemma layout_pass_idempotent_witness:
  "snd (manage_pod_visibility_and_animations demo_two_pods 300) \<noteq> [] \<and>
   snd (manage_pod_visibility_and_animations (fst (manage_pod_visibility_and_animations demo_two_pods 300)) 300) = []"
proof -
  obtain s' ws where run: "manage_pod_visibility_and_animations demo_two_pods 300 = (s', ws)"
    by (metis prod.collapse)
  have "snd (manage_pod_visibility_and_animations demo_two_pods 300) \<noteq> []"
    by (simp add: demo_two_pods_def store_eval js_simps manage_pod_visibility_and_animations_def
       repair_focus_def ensure_appended_def compute_layout_def pile_keys_def max_visible_pods_in_pile_def
       pod_nominal_width_def pod_overlap_amount_def base_z_index_def pod_apply_def layout_ready_def new_card_def)
  then show ?thesis
    using layout_pass_idempotent [OF demo_two_pods_inv run] run by simp
qed

lemma pod_apply_writes:
  "map write_key (snd (pod_apply lay f rot k c)) \<in> {[], [k]} \<and> list_all write_ok (snd (pod_apply lay f rot k c))"
  by (simp add: pod_apply_def Let_def split: option.split)

lemma apply_layout_writes:
  "distinct ks \<Longrightarrow> distinct (map write_key (snd (apply_layout lay f rot s ks))) \<and>
     write_key ` set (snd (apply_layout lay f rot s ks)) \<subseteq> set ks \<and>
     list_all write_ok (snd (apply_layout lay f rot s ks))"
proof (induction ks arbitrary: s)
  case Nil then show ?case by simp
next
  case (Cons k ks)
  show ?case
  proof (cases "\<exists>c. cards s k = Some c \<and> layout_ready c")
    case True
    then obtain c where c: "cards s k = Some c" "layout_ready c" by blast
    obtain c' w where pa: "pod_apply lay f rot k c = (c', w)" by (metis prod.collapse)
    obtain s' ws where al: "apply_layout lay f rot (s\<lparr>cards := (cards s)(k \<mapsto> c')\<rparr>) ks = (s', ws)"
      by (metis prod.collapse)
    have ih: "distinct (map write_key ws) \<and> write_key ` set ws \<subseteq> set ks \<and> list_all write_ok ws"
      using Cons.IH [of "s\<lparr>cards := (cards s)(k \<mapsto> c')\<rparr>"] Cons.prems al by simp
    have w: "map write_key w \<in> {[], [k]} \<and> list_all write_ok w"
      using pod_apply_writes [of lay f rot k c] pa by simp
    have "snd (apply_layout lay f rot s (k # ks)) = w @ ws" using c pa al by simp
    then show ?thesis using ih w Cons.prems by auto
  next
    case False
    then have "apply_layout lay f rot s (k # ks) = apply_layout lay f rot s ks"
      by (cases "cards s k") auto
    then show ?thesis using Cons.IH [of s] Cons.prems by auto
  qed
qed



end
