(* ===== verification/DismissedPile.thy ===== *)
theory DismissedPile
  imports Prelude "HOL-Library.AList" Complex_Main
begin

text \<open>
  The dismissed-downloads pile of \<open>src/zen-stuff.uc.js\<close>: its state (the
  insertion-ordered map \<open>dismissedPods\<close> and the maps \<open>podElements\<close>,
  \<open>pilePositions\<close>, \<open>gridPositions\<close>, the grid mode and the shown sizer), the
  handlers \<open>addPodToPile\<close>, \<open>removePodFromPile\<close>, \<open>updatePileVisibility\<close>,
  \<open>transitionToGrid\<close>, \<open>transitionToPile\<close>, \<open>showPile\<close>, \<open>hidePile\<close>,
  \<open>recalculateLayout\<close>, the position generators, and \<open>init\<close> with
  \<open>loadExistingDismissedPods\<close>, with the pile's
  events as a step function. DOM nodes and their styles other than \<open>display\<close> are
  not modelled; a pod's node is represented by its key in \<open>elements\<close>. A JavaScript
  \<open>Map\<close> is an association list: \<open>set\<close> on a present key replaces the value in
  place (\<open>AList.update\<close>), on a new key appends it; \<open>delete\<close> is \<open>AList.delete\<close>.
  \<open>Math.random()\<close> is an input of the handler that calls it.
\<close>

section \<open>Configuration and state\<close>

definition max_pile_size :: nat where "max_pile_size = 20"
definition pile_display_count :: nat where "pile_display_count = 4"
definition pile_rotation_range :: real where "pile_rotation_range = 8"
definition pile_offset_range :: real where "pile_offset_range = 8"
definition grid_padding :: int where "grid_padding = 12"
definition min_pod_size :: int where "min_pod_size = 45"

text \<open>The snapshot the main script sends with a dismissal (only the fields the
  pile's state logic reads).\<close>

record pod_snapshot =
  ps_key :: key
  ps_filename :: string

record pile_position =
  pp_x :: real
  pp_y :: real
  pp_rotation :: real
  pp_z :: int

record grid_position =
  gp_x :: int
  gp_y :: int
  gp_row :: nat
  gp_col :: nat

record pile_state =
  dismissed :: "(key \<times> pod_snapshot) list"     \<comment> \<open>\<open>dismissedPods\<close>\<close>
  elements :: "key set"                          \<comment> \<open>keys of \<open>podElements\<close>\<close>
  pile_pos :: "key \<rightharpoonup> pile_position"         \<comment> \<open>\<open>pilePositions\<close>\<close>
  grid_pos :: "key \<rightharpoonup> grid_position"         \<comment> \<open>\<open>gridPositions\<close>\<close>
  displayed :: "key \<rightharpoonup> bool"                 \<comment> \<open>\<open>style.display\<close> of each pod\<close>
  grid_mode :: bool                              \<comment> \<open>\<open>isGridMode\<close>\<close>
  pile_shown :: bool                             \<comment> \<open>the sizer's height is not 0\<close>
  initialized :: bool                            \<comment> \<open>\<open>isInitialized\<close>\<close>

definition empty_pile :: pile_state where
  "empty_pile = \<lparr>dismissed = [], elements = {}, pile_pos = Map.empty, grid_pos = Map.empty,
     displayed = Map.empty, grid_mode = False, pile_shown = False, initialized = False\<rparr>"

section \<open>Positions\<close>

text \<open>\<open>generatePilePosition\<close>: rotation and offsets from three draws of
  \<open>Math.random()\<close>, z-index one above the pod's current index in the map.\<close>

definition generate_pile_position :: "key \<Rightarrow> real \<times> real \<times> real \<Rightarrow> pile_state \<Rightarrow> pile_state" where
  "generate_pile_position k rnd s =
     (let (r1, r2, r3) = rnd in
      s\<lparr>pile_pos := (pile_pos s)(k \<mapsto>
         \<lparr>pp_x = (r2 - 1/2) * pile_offset_range * 2, pp_y = (r3 - 1/2) * pile_offset_range * 2,
          pp_rotation = (r1 - 1/2) * pile_rotation_range * 2,
          pp_z = js_index_of k (map fst (dismissed s)) + 1\<rparr>)\<rparr>)"

text \<open>The anchor-based 3-column, 2-row cell of the i-th pod: the first pod at the
  origin, the others at \<open>col * (podSize + spacing)\<close> and \<open>-visualRow * (podSize +
  spacing)\<close>, with \<open>visualRow = floor(i / 3) mod 2\<close>.\<close>

definition grid_cell :: "nat \<Rightarrow> grid_position" where
  "grid_cell i =
     (let col = i mod 3; row = i div 3; vrow = row mod 2 in
      \<lparr>gp_x = (if i = 0 then 0 else int col * (min_pod_size + grid_padding)),
       gp_y = (if i = 0 then 0 else - (int vrow * (min_pod_size + grid_padding))),
       gp_row = row, gp_col = col\<rparr>)"

definition generate_grid_position :: "key \<Rightarrow> pile_state \<Rightarrow> pile_state" where
  "generate_grid_position k s =
     (let idx = js_index_of k (map fst (dismissed s)) in
      if idx = -1 then s else s\<lparr>grid_pos := (grid_pos s)(k \<mapsto> grid_cell (nat idx))\<rparr>)"

definition regenerate_grid :: "pile_state \<Rightarrow> pile_state" where
  "regenerate_grid s = fold generate_grid_position (map fst (dismissed s)) s"

section \<open>Handlers\<close>

text \<open>\<open>transitionToPile\<close>: leave grid mode; the pods are sent back to their pile
  transforms, and \<open>updatePileVisibility\<close> runs from a timer (the event
  \<open>Visibility_timer\<close> below).\<close>

definition transition_to_pile :: "pile_state \<Rightarrow> pile_state" where
  "transition_to_pile s = (if \<not> grid_mode s then s else s\<lparr>grid_mode := False\<rparr>)"

definition hide_pile :: "pile_state \<Rightarrow> pile_state" where
  "hide_pile s = (let s1 = s\<lparr>pile_shown := False\<rparr> in if grid_mode s1 then transition_to_pile s1 else s1)"

definition show_pile :: "pile_state \<Rightarrow> pile_state" where
  "show_pile s = (if dismissed s = [] then s else s\<lparr>pile_shown := True\<rparr>)"

text \<open>The loop of \<open>updatePileVisibility\<close> over the keys, newest first: the first
  \<open>pileDisplayCount\<close> pods with a node are shown, the others hidden in pile mode and
  shown in grid mode.\<close>

fun visibility_loop :: "key set \<Rightarrow> bool \<Rightarrow> nat \<Rightarrow> key list \<Rightarrow> (key \<rightharpoonup> bool) \<Rightarrow> (key \<rightharpoonup> bool)" where
  "visibility_loop els gm cnt [] d = d"
| "visibility_loop els gm cnt (k # ks) d =
     (if k \<notin> els then visibility_loop els gm cnt ks d
      else if cnt < pile_display_count then visibility_loop els gm (Suc cnt) ks (d(k \<mapsto> True))
      else visibility_loop els gm cnt ks (d(k \<mapsto> gm)))"

definition update_pile_visibility :: "pile_state \<Rightarrow> pile_state" where
  "update_pile_visibility s =
     (if dismissed s = [] then (if pile_shown s then hide_pile s else s)
      else s\<lparr>displayed := visibility_loop (elements s) (grid_mode s) 0 (rev (map fst (dismissed s))) (displayed s)\<rparr>)"

text \<open>\<open>removePodFromPile\<close>: forget the pod in the four maps, regenerate the grid
  positions of the rest, and update the visibility.\<close>

definition remove_pod_from_pile :: "key \<Rightarrow> pile_state \<Rightarrow> pile_state" where
  "remove_pod_from_pile k s =
     update_pile_visibility (regenerate_grid
       (s\<lparr>dismissed := AList.delete k (dismissed s), elements := elements s - {k},
          pile_pos := (pile_pos s)(k := None), grid_pos := (grid_pos s)(k := None)\<rparr>))"

text \<open>\<open>addPodToPile\<close>: ignore a snapshot without key; when the map holds
  \<open>maxPileSize\<close> pods, remove the oldest (first inserted) one; store the snapshot
  (in place when the key is present), create its node, generate both positions and
  update the visibility.\<close>

definition add_pod_to_pile :: "pod_snapshot \<Rightarrow> real \<times> real \<times> real \<Rightarrow> pile_state \<Rightarrow> pile_state" where
  "add_pod_to_pile p rnd s =
     (if ps_key p = [] then s
      else
        let s1 = (if max_pile_size \<le> length (dismissed s) then remove_pod_from_pile (fst (hd (dismissed s))) s else s);
            s2 = s1\<lparr>dismissed := AList.update (ps_key p) p (dismissed s1), elements := insert (ps_key p) (elements s1)\<rparr>;
            s3 = generate_grid_position (ps_key p) (generate_pile_position (ps_key p) rnd s2)
        in update_pile_visibility s3)"

text \<open>\<open>transitionToGrid\<close>: enter grid mode, show the last six pods and hide the
  others, and place the six in the grid by their index among the six.\<close>

definition last_six :: "key list \<Rightarrow> key list" where
  "last_six ks = drop (length ks - 6) ks"

definition transition_to_grid :: "pile_state \<Rightarrow> pile_state" where
  "transition_to_grid s =
     (if grid_mode s then s
      else
        let ks = map fst (dismissed s); six = last_six ks
        in s\<lparr>grid_mode := True,
             displayed := (\<lambda>k. if k \<in> set ks \<and> k \<in> elements s then Some (k \<in> set six) else displayed s k),
             grid_pos := (\<lambda>k. if k \<in> set six then Some (grid_cell (nat (js_index_of k six))) else grid_pos s k)\<rparr>)"

definition recalculate_layout :: "pile_state \<Rightarrow> pile_state" where
  "recalculate_layout s = (if dismissed s = [] then s else regenerate_grid s)"

text \<open>\<open>loadExistingDismissedPods\<close> (lines 267-273): every pod the main script's
  \<open>dismissedPods.getAll()\<close> holds, in its order, is added as by a dismissal (each
  with its three random draws; \<open>animate = false\<close> only changes the DOM).\<close>

definition load_existing_dismissed_pods ::
  "(pod_snapshot \<times> (real \<times> real \<times> real)) list \<Rightarrow> pile_state \<Rightarrow> pile_state" where
  "load_existing_dismissed_pods ps s = fold (\<lambda>(p, rnd). add_pod_to_pile p rnd) ps s"

text \<open>\<open>init\<close>: without the main script's \<open>window.zenTidyDownloads\<close> it schedules
  itself again after 500 ms; when \<open>findDownloadButton\<close> throws (no downloads button
  in the toolbar) it retries after 1000 ms; otherwise it registers the listeners,
  loads the pods the main script already dismissed and marks itself initialised.
  The DOM set-up is not modelled.\<close>

definition zen_init ::
  "bool \<Rightarrow> bool \<Rightarrow> (pod_snapshot \<times> (real \<times> real \<times> real)) list \<Rightarrow> pile_state \<Rightarrow> pile_state \<times> nat option" where
  "zen_init api button existing s =
     (if \<not> api then (s, Some 500)
      else if \<not> button then (s, Some 1000)
      else ((load_existing_dismissed_pods existing s)\<lparr>initialized := True\<rparr>, None))"

section \<open>Events\<close>

text \<open>The pile's callbacks: the init timer (whether the downloads button is found,
  and the pods already dismissed with their draws), a dismissal from the main script (with
  the three random draws), the main script's removal notice, the hover timers that
  show or hide the sizer, the pointer entering the pile, the timer of
  \<open>transitionToPile\<close>, and a (debounced) resize. Before \<open>init\<close> succeeds no
  listener is registered, so only the init timer has an effect.\<close>

datatype pile_event =
    Init_timer bool "(pod_snapshot \<times> (real \<times> real \<times> real)) list"
  | Pod_dismissed pod_snapshot "real \<times> real \<times> real"
  | Download_removed key
  | Show_timer
  | Hide_timer
  | Pile_hover
  | Visibility_timer
  | Resize

fun pile_step :: "bool \<Rightarrow> pile_state \<Rightarrow> pile_event \<Rightarrow> pile_state" where
  "pile_step api s (Init_timer button existing) =
     (if initialized s then s else fst (zen_init api button existing s))"
| "pile_step api s e =
     (if \<not> initialized s then s
      else case e of
        Pod_dismissed p rnd \<Rightarrow> add_pod_to_pile p rnd s
      | Download_removed k \<Rightarrow> (if k \<in> set (map fst (dismissed s)) then remove_pod_from_pile k s else s)
      | Show_timer \<Rightarrow> show_pile s
      | Hide_timer \<Rightarrow> hide_pile s
      | Pile_hover \<Rightarrow> transition_to_grid s
      | Visibility_timer \<Rightarrow> update_pile_visibility s
      | Resize \<Rightarrow> recalculate_layout s
      | Init_timer _ _ \<Rightarrow> s)"

fun pile_run :: "bool \<Rightarrow> pile_state \<Rightarrow> pile_event list \<Rightarrow> pile_state" where
  "pile_run api s [] = s"
| "pile_run api s (e # es) = pile_run api (pile_step api s e) es"

section \<open>The pile invariant and worked examples\<close>

text \<open>No key twice in \<open>dismissedPods\<close>, at most \<open>maxPileSize\<close> pods, a node for
  exactly the stored pods, and positions only for stored pods.\<close>

definition pile_inv :: "pile_state \<Rightarrow> bool" where
  "pile_inv s \<longleftrightarrow>
     distinct (map fst (dismissed s)) \<and> length (dismissed s) \<le> max_pile_size \<and>
     elements s = set (map fst (dismissed s)) \<and>
     dom (pile_pos s) \<subseteq> set (map fst (dismissed s)) \<and> dom (grid_pos s) \<subseteq> set (map fst (dismissed s))"

text \<open>Three pods dismissed one after the other, the oldest of them removed from
  the host's list before the third arrives (the main script's API taken as
  present).\<close>

definition demo_pile_tie :: pile_state where
  "demo_pile_tie = pile_run True empty_pile
     [Init_timer True [], Pod_dismissed \<lparr>ps_key = ''a'', ps_filename = ''a''\<rparr> (1/2, 1/2, 1/2),
      Pod_dismissed \<lparr>ps_key = ''b'', ps_filename = ''b''\<rparr> (1/2, 1/2, 1/2),
      Download_removed ''a'',
      Pod_dismissed \<lparr>ps_key = ''c'', ps_filename = ''c''\<rparr> (1/2, 1/2, 1/2)]"

text \<open>A full pile of twenty pods with distinct keys.\<close>

definition demo_full_keys :: "key list" where
  "demo_full_keys = map (\<lambda>i. replicate (Suc i) (CHR ''x'')) [0..<20]"

definition demo_full_pile :: pile_state where
  "demo_full_pile = empty_pile\<lparr>initialized := True,
     dismissed := map (\<lambda>k. (k, \<lparr>ps_key = k, ps_filename = k\<rparr>)) demo_full_keys, elements := set demo_full_keys\<rparr>"

section \<open>Lemmas\<close>

lemma keys_update: "map fst (AList.update k v al) = (if k \<in> set (map fst al) then map fst al else map fst al @ [k])"
  by (induction al) auto

lemma length_alist_update:
  "length (AList.update k v al) = (if k \<in> set (map fst al) then length al else Suc (length al))"
  by (induction al) auto

lemma keys_delete: "distinct (map fst al) \<Longrightarrow> map fst (AList.delete k al) = remove1 k (map fst al)"
proof (induction al)
  case Nil then show ?case by simp
next
  case (Cons p al)
  then show ?case
    by (cases p) (auto simp: AList.delete_id remove1_idem)
qed

lemma pile_frame [simp]:
  "dismissed (update_pile_visibility s) = dismissed s" "elements (update_pile_visibility s) = elements s"
  "pile_pos (update_pile_visibility s) = pile_pos s" "grid_pos (update_pile_visibility s) = grid_pos s"
  "dismissed (generate_pile_position k r s) = dismissed s" "elements (generate_pile_position k r s) = elements s"
  "grid_pos (generate_pile_position k r s) = grid_pos s"
  "dismissed (generate_grid_position k s) = dismissed s" "elements (generate_grid_position k s) = elements s"
  "pile_pos (generate_grid_position k s) = pile_pos s"
  by (simp_all add: update_pile_visibility_def hide_pile_def transition_to_pile_def Let_def
      generate_pile_position_def generate_grid_position_def split: prod.split)

lemma pile_inv_visibility [simp]: "pile_inv (update_pile_visibility s) = pile_inv s"
  by (simp add: pile_inv_def)

lemma regenerate_grid_frame:
  "dismissed (regenerate_grid s) = dismissed s \<and> elements (regenerate_grid s) = elements s \<and>
   pile_pos (regenerate_grid s) = pile_pos s \<and>
   dom (grid_pos (regenerate_grid s)) \<subseteq> dom (grid_pos s) \<union> set (map fst (dismissed s))"
proof -
  have "\<And>t. dismissed t = dismissed s \<Longrightarrow>
      dismissed (fold generate_grid_position ks t) = dismissed s \<and> elements (fold generate_grid_position ks t) = elements t \<and>
      pile_pos (fold generate_grid_position ks t) = pile_pos t \<and>
      dom (grid_pos (fold generate_grid_position ks t)) \<subseteq> dom (grid_pos t) \<union> set (map fst (dismissed s))" for ks
  proof (induction ks)
    case Nil then show ?case by simp
  next
    case (Cons k ks)
    have "dom (grid_pos (generate_grid_position k t)) \<subseteq> dom (grid_pos t) \<union> set (map fst (dismissed s))"
      using Cons.prems js_index_of_nonneg [of k "map fst (dismissed s)"]
      by (auto simp: generate_grid_position_def js_index_of_def Let_def split: if_splits)
    moreover have t': "dismissed (generate_grid_position k t) = dismissed s"
      using Cons.prems by simp
    note IH = Cons.IH [OF t']
    ultimately have "dom (grid_pos (fold generate_grid_position ks (generate_grid_position k t)))
        \<subseteq> dom (grid_pos t) \<union> set (map fst (dismissed s))"
      by blast
    then show ?case using IH by simp
  qed
  then show ?thesis by (simp add: regenerate_grid_def)
qed

lemma grid_pos_generate:
  "dom (grid_pos (generate_grid_position k s)) \<subseteq> insert k (dom (grid_pos s))"
  by (auto simp: generate_grid_position_def Let_def)

lemma remove_pod_inv: "pile_inv s \<Longrightarrow> pile_inv (remove_pod_from_pile k s)"
proof -
  assume inv: "pile_inv s"
  define s1 where "s1 = s\<lparr>dismissed := AList.delete k (dismissed s), elements := elements s - {k},
          pile_pos := (pile_pos s)(k := None), grid_pos := (grid_pos s)(k := None)\<rparr>"
  have d: "distinct (map fst (dismissed s))" using inv by (simp add: pile_inv_def)
  have k1: "map fst (dismissed s1) = remove1 k (map fst (dismissed s))"
    using keys_delete [OF d] by (simp add: s1_def)
  have "length (AList.delete k (dismissed s)) \<le> length (dismissed s)"
    by (simp add: AList.delete_eq)
  then have "pile_inv s1"
    using inv k1 unfolding pile_inv_def
    by (auto simp: s1_def distinct_remove1 length_remove1 keys_delete [OF d] set_remove1_eq [OF d]
             dest: length_pos_if_in_set)
  moreover note R = regenerate_grid_frame [of s1]
  ultimately have "pile_inv (regenerate_grid s1)"
    unfolding pile_inv_def by (simp only:) blast
  then show ?thesis
    unfolding remove_pod_from_pile_def s1_def [symmetric] by (simp add: pile_inv_visibility)
qed

lemma remove_pod_keys:
  "pile_inv s \<Longrightarrow> map fst (dismissed (remove_pod_from_pile k s)) = remove1 k (map fst (dismissed s))"
proof -
  assume "pile_inv s"
  then have d: "distinct (map fst (dismissed s))" by (simp add: pile_inv_def)
  show ?thesis
    using regenerate_grid_frame [of "s\<lparr>dismissed := AList.delete k (dismissed s), elements := elements s - {k},
          pile_pos := (pile_pos s)(k := None), grid_pos := (grid_pos s)(k := None)\<rparr>"] keys_delete [OF d, of k]
    by (simp add: remove_pod_from_pile_def)
qed

lemma add_pod_inv: "pile_inv s \<Longrightarrow> pile_inv (add_pod_to_pile p rnd s)"
proof (cases "ps_key p = []")
  case True
  assume "pile_inv s" then show ?thesis using True by (simp add: add_pod_to_pile_def)
next
  case False
  assume inv: "pile_inv s"
  define k where "k = ps_key p"
  define s1 where "s1 = (if max_pile_size \<le> length (dismissed s) then remove_pod_from_pile (fst (hd (dismissed s))) s else s)"
  have i1: "pile_inv s1" using inv remove_pod_inv by (simp add: s1_def)
  have l1: "length (dismissed s1) < max_pile_size"
  proof (cases "max_pile_size \<le> length (dismissed s)")
    case True
    then have "dismissed s \<noteq> []" by (auto simp: max_pile_size_def)
    then have "fst (hd (dismissed s)) \<in> set (map fst (dismissed s))" by (cases "dismissed s") auto
    moreover have "length (map fst (dismissed (remove_pod_from_pile (fst (hd (dismissed s))) s)))
        = length (map fst (dismissed s)) - 1"
      using remove_pod_keys [OF inv, of "fst (hd (dismissed s))"] calculation by (simp add: length_remove1)
    ultimately show ?thesis
      using True inv by (auto simp: s1_def pile_inv_def max_pile_size_def)
  next
    case False then show ?thesis by (simp add: s1_def)
  qed
  define s2 where "s2 = s1\<lparr>dismissed := AList.update k p (dismissed s1), elements := insert k (elements s1)\<rparr>"
  have i2: "pile_inv s2"
    using i1 l1 unfolding pile_inv_def s2_def by (auto simp: keys_update length_alist_update split: if_splits)
  have "pile_inv (generate_grid_position k (generate_pile_position k rnd s2))"
  proof -
    have kin: "k \<in> set (map fst (dismissed s2))" by (simp add: s2_def keys_update)
    have g: "dom (grid_pos (generate_grid_position k (generate_pile_position k rnd s2))) \<subseteq> insert k (dom (grid_pos s2))"
      using grid_pos_generate [of k "generate_pile_position k rnd s2"] by simp
    have p: "dom (pile_pos (generate_grid_position k (generate_pile_position k rnd s2))) \<subseteq> insert k (dom (pile_pos s2))"
      by (auto simp: generate_pile_position_def split: prod.split)
    from i2 kin g p show ?thesis
      unfolding pile_inv_def by (simp only: pile_frame) blast
  qed
  then show ?thesis
    using False by (simp add: add_pod_to_pile_def Let_def k_def [symmetric] s1_def [symmetric] s2_def [symmetric])
qed

lemma set_last_six: "set (last_six ks) \<subseteq> set ks"
  by (simp add: last_six_def set_drop_subset)

lemma transition_to_grid_inv: "pile_inv s \<Longrightarrow> pile_inv (transition_to_grid s)"
  using set_last_six [of "map fst (dismissed s)"]
  unfolding pile_inv_def transition_to_grid_def Let_def by (auto split: if_splits; blast)

lemma regenerate_grid_inv: "pile_inv s \<Longrightarrow> pile_inv (regenerate_grid s)"
proof -
  assume i: "pile_inv s"
  note R = regenerate_grid_frame [of s]
  from i R show ?thesis unfolding pile_inv_def by (simp only:) blast
qed

lemma pile_inv_simple [simp]:
  "pile_inv (show_pile s) = pile_inv s" "pile_inv (hide_pile s) = pile_inv s"
  "pile_inv (s\<lparr>initialized := b\<rparr>) = pile_inv s"
  by (simp_all add: pile_inv_def show_pile_def hide_pile_def transition_to_pile_def Let_def)

lemma load_existing_inv: "pile_inv s \<Longrightarrow> pile_inv (load_existing_dismissed_pods ps s)"
  unfolding load_existing_dismissed_pods_def
  by (induction ps arbitrary: s) (auto simp: add_pod_inv)

lemma zen_init_inv: "pile_inv s \<Longrightarrow> pile_inv (fst (zen_init api button existing s))"
  by (simp add: zen_init_def load_existing_inv)

lemma pile_step_inv: "pile_inv s \<Longrightarrow> pile_inv (pile_step api s e)"
  by (cases e) (auto simp: recalculate_layout_def regenerate_grid_inv add_pod_inv remove_pod_inv
      transition_to_grid_inv zen_init_inv)

lemma pile_run_inv: "pile_inv s \<Longrightarrow> pile_inv (pile_run api s es)"
  by (induction es arbitrary: s) (auto simp: pile_step_inv)

lemma add_pod_keys:
  assumes inv: "pile_inv s" and k: "ps_key p \<noteq> []"
  shows "map fst (dismissed (add_pod_to_pile p rnd s)) =
           (let ks = (if max_pile_size \<le> length (dismissed s) then tl (map fst (dismissed s)) else map fst (dismissed s))
            in if ps_key p \<in> set ks then ks else ks @ [ps_key p])"
proof -
  have d: "distinct (map fst (dismissed s))" using inv by (simp add: pile_inv_def)
  define s1 where "s1 = (if max_pile_size \<le> length (dismissed s) then remove_pod_from_pile (fst (hd (dismissed s))) s else s)"
  have ks1: "map fst (dismissed s1) =
      (if max_pile_size \<le> length (dismissed s) then tl (map fst (dismissed s)) else map fst (dismissed s))"
  proof (cases "max_pile_size \<le> length (dismissed s)")
    case True
    then have ne: "dismissed s \<noteq> []" by (auto simp: max_pile_size_def)
    then have "remove1 (fst (hd (dismissed s))) (map fst (dismissed s)) = tl (map fst (dismissed s))"
      by (cases "dismissed s") auto
    then show ?thesis using True remove_pod_keys [OF inv] by (simp add: s1_def)
  qed (simp add: s1_def)
  have "map fst (dismissed (add_pod_to_pile p rnd s)) = map fst (AList.update (ps_key p) p (dismissed s1))"
    using k by (simp add: add_pod_to_pile_def Let_def s1_def [symmetric])
  also have "\<dots> = (if ps_key p \<in> set (map fst (dismissed s1)) then map fst (dismissed s1)
                      else map fst (dismissed s1) @ [ps_key p])"
    by (rule keys_update)
  finally show ?thesis by (simp only: ks1 Let_def)
qed

lemma grid_cell_table:
  "map (\<lambda>i. (gp_x (grid_cell i), gp_y (grid_cell i))) [0..<6] =
     [(0, 0), (57, 0), (114, 0), (0, -57), (57, -57), (114, -57)]"
  by (simp add: upt_rec grid_cell_def min_pod_size_def grid_padding_def)

lemma grid_cells_inj: "inj_on (\<lambda>i. (gp_x (grid_cell i), gp_y (grid_cell i))) {0..<6}"
proof -
  have "distinct (map (\<lambda>i. (gp_x (grid_cell i), gp_y (grid_cell i))) [0..<6])"
    unfolding grid_cell_table by simp
  then show ?thesis by (simp add: distinct_map)
qed

lemma grid_cells_range:
  "i < 6 \<Longrightarrow> gp_x (grid_cell i) \<in> {0, 57, 114} \<and> gp_y (grid_cell i) \<in> {0, -57}"
proof -
  assume "i < 6"
  then have "(gp_x (grid_cell i), gp_y (grid_cell i)) \<in> set (map (\<lambda>i. (gp_x (grid_cell i), gp_y (grid_cell i))) [0..<6])"
    by simp
  then show ?thesis unfolding grid_cell_table by auto
qed

lemma visibility_loop_pile:
  "distinct ks \<Longrightarrow> set ks \<subseteq> els \<Longrightarrow>
   visibility_loop els False cnt ks d k =
     (if k \<in> set ks then Some (k \<in> set (take (pile_display_count - cnt) ks)) else d k)"
proof (induction ks arbitrary: cnt d)
  case Nil then show ?case by simp
next
  case (Cons k1 ks)
  show ?case
  proof (cases "cnt < pile_display_count")
    case True
    then have "pile_display_count - cnt = Suc (pile_display_count - Suc cnt)" by simp
    then show ?thesis using Cons True by auto
  next
    case False
    then show ?thesis using Cons by auto
  qed
qed

lemma length_last_six: "length (last_six ks) = min (length ks) 6"
  by (simp add: last_six_def)

lemma distinct_last_six: "distinct ks \<Longrightarrow> distinct (last_six ks)"
  by (simp add: last_six_def distinct_drop)

lemma demo_full_pile_inv: "pile_inv demo_full_pile"
  by (simp add: pile_inv_def demo_full_pile_def demo_full_keys_def empty_pile_def max_pile_size_def
      distinct_map inj_on_def comp_def)

lemma demo_pile_tie_inv: "pile_inv demo_pile_tie"
  unfolding demo_pile_tie_def by (rule pile_run_inv) (simp add: pile_inv_def empty_pile_def)

lemmas demo_pile_eval = demo_pile_tie_def empty_pile_def zen_init_def load_existing_dismissed_pods_def add_pod_to_pile_def remove_pod_from_pile_def
  generate_pile_position_def generate_grid_position_def regenerate_grid_def update_pile_visibility_def
  max_pile_size_def pile_display_count_def js_simps

section \<open>Properties\<close>

text \<open>C21. For every sequence of pile events, from the empty pile and whether or not the main script provides its API, the pile invariant holds: distinct keys, at most \<open>maxPileSize\<close> (20) pods, nodes exactly for the stored pods.\<close>

theorem pile_inv_all_runs: "pile_inv (pile_run api empty_pile es)"
  by (rule pile_run_inv) (simp add: pile_inv_def empty_pile_def)

text \<open>C22. Adding a new pod to a full pile evicts exactly the oldest (first inserted) pod and appends the new one.\<close>

theorem add_full_evicts_oldest:
  assumes "pile_inv s" "length (dismissed s) = max_pile_size" "ps_key p \<noteq> []"
    and "ps_key p \<notin> set (map fst (dismissed s))"
  shows "map fst (dismissed (add_pod_to_pile p rnd s)) = tl (map fst (dismissed s)) @ [ps_key p]"
proof -
  have "set (tl (map fst (dismissed s))) \<subseteq> set (map fst (dismissed s))"
    by (cases "map fst (dismissed s)") auto
  then show ?thesis
    using add_pod_keys [OF assms(1,3), of rnd] assms(2,4) by (auto simp: Let_def)
qed

lemma add_full_evicts_oldest_witness:
  "map fst (dismissed (add_pod_to_pile \<lparr>ps_key = ''new'', ps_filename = ''new''\<rparr> (0, 0, 0) demo_full_pile))
     = tl demo_full_keys @ [''new'']"
proof -
  have "map fst (dismissed demo_full_pile) = demo_full_keys"
    by (simp add: demo_full_pile_def empty_pile_def comp_def)
  moreover have "length (dismissed demo_full_pile) = max_pile_size"
    by (simp add: demo_full_pile_def empty_pile_def demo_full_keys_def max_pile_size_def)
  moreover have "''new'' \<notin> set demo_full_keys"
    by (auto simp: demo_full_keys_def)
  ultimately show ?thesis
    using add_full_evicts_oldest [OF demo_full_pile_inv, of "\<lparr>ps_key = ''new'', ps_filename = ''new''\<rparr>" "(0, 0, 0)"]
    by simp
qed

text \<open>C23. \<open>transitionToGrid\<close> shows exactly the six most recent pods and hides the others, and places the six in six distinct cells of the three-column, two-row grid, the oldest of them at the origin.\<close>

theorem transition_to_grid_cells:
  assumes inv: "pile_inv s" and pile: "\<not> grid_mode s"
  shows "let s' = transition_to_grid s; ks = map fst (dismissed s); six = last_six ks in
     grid_mode s' \<and> (\<forall>k\<in>set ks. displayed s' k = Some (k \<in> set six)) \<and>
     inj_on (\<lambda>k. (gp_x (the (grid_pos s' k)), gp_y (the (grid_pos s' k)))) (set six) \<and>
     (\<forall>k\<in>set six. gp_x (the (grid_pos s' k)) \<in> {0, 57, 114} \<and> gp_y (the (grid_pos s' k)) \<in> {0, -57}) \<and>
     (six \<noteq> [] \<longrightarrow> grid_pos s' (hd six) = Some (grid_cell 0))"
proof -
  define ks where "ks = map fst (dismissed s)"
  define six where "six = last_six ks"
  define s' where "s' = transition_to_grid s"
  have d: "distinct six" using inv distinct_last_six by (simp add: pile_inv_def six_def ks_def)
  have len: "length six \<le> 6" by (simp add: six_def length_last_six)
  have gp: "\<And>k. k \<in> set six \<Longrightarrow> grid_pos s' k = Some (grid_cell (nat (js_index_of k six)))"
    using pile by (simp add: s'_def transition_to_grid_def Let_def six_def ks_def)
  have idx: "\<And>k. k \<in> set six \<Longrightarrow> nat (js_index_of k six) < 6"
    using js_index_of_less len by fastforce
  have inj_idx: "inj_on (\<lambda>k. nat (js_index_of k six)) (set six)"
    by (rule inj_onI) (metis js_index_of_nth)
  have "inj_on (\<lambda>k. (gp_x (the (grid_pos s' k)), gp_y (the (grid_pos s' k)))) (set six)"
  proof (rule inj_onI)
    fix a b assume a: "a \<in> set six" and b: "b \<in> set six"
      and eq: "(gp_x (the (grid_pos s' a)), gp_y (the (grid_pos s' a))) = (gp_x (the (grid_pos s' b)), gp_y (the (grid_pos s' b)))"
    then have "nat (js_index_of a six) = nat (js_index_of b six)"
      using gp idx inj_onD [OF grid_cells_inj] by auto
    then show "a = b" using inj_onD [OF inj_idx] a b by blast
  qed
  moreover have "\<forall>k\<in>set six. gp_x (the (grid_pos s' k)) \<in> {0, 57, 114} \<and> gp_y (the (grid_pos s' k)) \<in> {0, -57}"
    using gp idx grid_cells_range by auto
  moreover have "six \<noteq> [] \<longrightarrow> grid_pos s' (hd six) = Some (grid_cell 0)"
    using gp by (cases six) (auto simp: js_index_of_def)
  moreover have "grid_mode s' \<and> (\<forall>k\<in>set ks. displayed s' k = Some (k \<in> set six))"
    using inv pile by (simp add: s'_def transition_to_grid_def Let_def six_def ks_def pile_inv_def)
  ultimately show ?thesis
    unfolding Let_def s'_def [symmetric] ks_def [symmetric] six_def [symmetric] by blast
qed

lemma transition_to_grid_cells_witness:
  "grid_pos (transition_to_grid demo_pile_tie) ''b'' = Some (grid_cell 0) \<and>
   displayed (transition_to_grid demo_pile_tie) ''c'' = Some True"
proof -
  have g: "\<not> grid_mode demo_pile_tie" "map fst (dismissed demo_pile_tie) = [''b'', ''c'']"
    by (simp_all add: demo_pile_eval)
  have "last_six [''b'', ''c''] = [''b'', ''c'']" by (simp add: last_six_def)
  then show ?thesis
    using transition_to_grid_cells [OF demo_pile_tie_inv g(1)] g(2) by (simp add: Let_def)
qed

text \<open>C24. In pile mode \<open>updatePileVisibility\<close> shows exactly the \<open>pileDisplayCount\<close> (4) most recent pods and hides the others.\<close>

theorem pile_visibility_newest:
  assumes inv: "pile_inv s" and pile: "\<not> grid_mode s" and ne: "dismissed s \<noteq> []"
  shows "\<forall>k\<in>set (map fst (dismissed s)).
           displayed (update_pile_visibility s) k = Some (k \<in> set (take pile_display_count (rev (map fst (dismissed s)))))"
proof -
  have "distinct (rev (map fst (dismissed s)))" "set (rev (map fst (dismissed s))) \<subseteq> elements s"
    using inv by (auto simp: pile_inv_def)
  then show ?thesis
    using pile ne visibility_loop_pile [of "rev (map fst (dismissed s))" "elements s" 0]
    by (simp add: update_pile_visibility_def)
qed

lemma pile_visibility_newest_witness:
  "displayed (update_pile_visibility demo_pile_tie) ''b'' = Some True"
proof -
  have g: "\<not> grid_mode demo_pile_tie" "map fst (dismissed demo_pile_tie) = [''b'', ''c'']"
      "dismissed demo_pile_tie \<noteq> []"
    by (simp_all add: demo_pile_eval)
  show ?thesis
    using pile_visibility_newest [OF demo_pile_tie_inv g(1,3)] g(2) by (simp add: pile_display_count_def)
qed

text \<open>C25. \<open>generatePilePosition\<close> stores the drawn rotation and offsets, which lie within \<open>[-8, 8)\<close> degrees and pixels for draws of \<open>Math.random()\<close> in \<open>[0, 1)\<close>.\<close>

theorem pile_position_bounds:
  assumes "0 \<le> r1" "r1 < 1" "0 \<le> r2" "r2 < 1" "0 \<le> r3" "r3 < 1"
  shows "pile_pos (generate_pile_position k (r1, r2, r3) s) k =
           Some \<lparr>pp_x = (r2 - 1/2) * 16, pp_y = (r3 - 1/2) * 16, pp_rotation = (r1 - 1/2) * 16,
                 pp_z = js_index_of k (map fst (dismissed s)) + 1\<rparr> \<and>
         -8 \<le> (r1 - 1/2) * 16 \<and> (r1 - 1/2) * 16 < (8::real) \<and>
         -8 \<le> (r2 - 1/2) * 16 \<and> (r2 - 1/2) * 16 < (8::real) \<and>
         -8 \<le> (r3 - 1/2) * 16 \<and> (r3 - 1/2) * 16 < (8::real)"
  using assms by (simp add: generate_pile_position_def pile_offset_range_def pile_rotation_range_def)

lemma pile_position_bounds_witness:
  "map_option pp_rotation (pile_pos (generate_pile_position ''a'' (1/4, 1/2, 3/4) empty_pile) ''a'') = Some (-4) \<and>
   -8 \<le> ((1/4::real) - 1/2) * 16"
  using pile_position_bounds [of "1/4" "1/2" "3/4" "''a''" empty_pile] by simp

text \<open>C26. The capacity check of \<open>addPodToPile\<close> runs before \<open>Map.set\<close>, which does not grow the map for a present key: dismissing again a pod already in a full pile evicts the oldest pod needlessly and leaves nineteen.\<close>

theorem add_present_when_full_shrinks:
  assumes "pile_inv s" "length (dismissed s) = max_pile_size" "ps_key p \<noteq> []"
    and "ps_key p \<in> set (tl (map fst (dismissed s)))"
  shows "length (dismissed (add_pod_to_pile p rnd s)) = max_pile_size - 1"
proof -
  have "map fst (dismissed (add_pod_to_pile p rnd s)) = tl (map fst (dismissed s))"
    using add_pod_keys [OF assms(1,3), of rnd] assms(2,4) by simp
  then show ?thesis
    using assms(2) by (metis length_map length_tl)
qed

lemma add_present_when_full_shrinks_witness:
  "length (dismissed (add_pod_to_pile \<lparr>ps_key = ''xx'', ps_filename = ''xx''\<rparr> (0, 0, 0) demo_full_pile)) = 19"
proof -
  have "length (dismissed demo_full_pile) = max_pile_size"
    by (simp add: demo_full_pile_def empty_pile_def demo_full_keys_def max_pile_size_def)
  moreover have "''xx'' \<in> set (tl (map fst (dismissed demo_full_pile)))"
    by (simp add: demo_full_pile_def empty_pile_def demo_full_keys_def comp_def upt_rec)
  ultimately show ?thesis
    using add_present_when_full_shrinks [OF demo_full_pile_inv, of "\<lparr>ps_key = ''xx'', ps_filename = ''xx''\<rparr>" "(0, 0, 0)"]
    by (simp add: max_pile_size_def)
qed


text \<open>C28. Without the main script's \<open>window.zenTidyDownloads\<close>, which no file of the repository defines, \<open>init\<close> only reschedules itself: no pile event ever has an effect.\<close>

theorem pile_never_initialized:
  "\<not> initialized s \<Longrightarrow> pile_run False s es = s"
proof (induction es)
  case Nil then show ?case by simp
next
  case (Cons e es)
  then have "pile_step False s e = s" by (cases e) (simp_all add: zen_init_def)
  then show ?case using Cons by simp
qed

lemma pile_never_initialized_witness:
  "pile_run False empty_pile [Init_timer True [], Pod_dismissed \<lparr>ps_key = ''a'', ps_filename = ''a''\<rparr> (0, 0, 0), Pile_hover]
     = empty_pile"
  by (rule pile_never_initialized) (simp add: empty_pile_def)

end
