(* ===== verification/AIRename.thy ===== *)
theory AIRename
  imports PodStore
begin

text \<open>
  The AI rename workflow of \<open>src/tidy-downloads.uc.js\<close>: \<open>callMistralAPI\<close> with
  the remote service as an oracle, the two-prompt strategy and the filename
  sanitiser of \<open>processDownloadForAIRenaming\<close>, the collision probe and file move of
  \<open>renameDownloadFileAndUpdateRecord\<close>, and \<open>undoRename\<close>. The file system is the
  map \<open>files\<close> of the session state (path to size); \<open>PATH_SEPARATOR\<close> is the
  non-Windows \<open>/\<close>.
\<close>

section \<open>Constants\<close>

definition path_separator :: char where "path_separator = CHR ''/''"

definition max_file_size_for_ai :: nat where "max_file_size_for_ai = 50 * 1024 * 1024"

definition ai_renaming_max_filename_length :: int where "ai_renaming_max_filename_length = 70"

definition image_extensions :: "string list" where
  "image_extensions = [''.jpg'', ''.jpeg'', ''.png'', ''.gif'', ''.webp'', ''.bmp'', ''.svg'',
     ''.avif'', ''.ico'', ''.tif'', ''.tiff'', ''.jfif'']"

section \<open>The remote model\<close>

text \<open>The prompts the script sends: the image prompt (with the extension to keep),
  the metadata prompt (image or file, current name, source URL, extension), and the
  connection test of \<open>verifyMistralConnection\<close>. Their wording is fixed text around
  these parameters.\<close>

datatype prompt = Image_prompt string | Metadata_prompt bool string string string | Test_prompt

text \<open>A request: the prompt and, when an image is attached, its MIME type and the
  path whose bytes are encoded.\<close>

record mistral_request =
  req_prompt :: prompt
  req_image :: "(string \<times> path) option"

text \<open>What \<open>fetch\<close> yields: a network failure, or an HTTP status with the trimmed
  field \<open>choices[0].message.content\<close> when the body parses and has one.\<close>

datatype http_response = Network_error | Http_status nat "string option"

type_synonym http = "mistral_request \<Rightarrow> http_response"

definition mime_types :: "(string \<times> string) list" where
  "mime_types = [(''.png'', ''image/png''), (''.gif'', ''image/gif''), (''.svg'', ''image/svg+xml''),
     (''.webp'', ''image/webp''), (''.bmp'', ''image/bmp''), (''.avif'', ''image/avif''),
     (''.ico'', ''image/x-icon''), (''.tif'', ''image/tiff''), (''.tiff'', ''image/tiff''),
     (''.jfif'', ''image/jpeg'')]"

definition get_mime_type_from_extension :: "string \<Rightarrow> string" where
  "get_mime_type_from_extension ext =
     (case map_of mime_types (js_to_lower ext) of Some m \<Rightarrow> m | None \<Rightarrow> ''image/jpeg'')"

text \<open>\<open>fileToBase64\<close>: nothing for a missing or too large file; otherwise the
  encoding of its bytes, which is the empty (falsy) string for an empty file. The
  encoded bytes are represented by the size read.\<close>

definition file_to_base64 :: "(path \<rightharpoonup> nat) \<Rightarrow> path \<Rightarrow> nat option" where
  "file_to_base64 fs p =
     (case fs p of None \<Rightarrow> None | Some sz \<Rightarrow> if max_file_size_for_ai < sz then None else Some sz)"

text \<open>\<open>callMistralAPI\<close>: no request without an API key; the image is attached when a
  local path is given and its encoding is non-empty; a non-2xx status gives
  \<open>"rate-limited"\<close> for 429 and nothing otherwise; a 2xx answer gives the trimmed
  content when it is non-empty. The second component lists the requests sent.\<close>

definition call_mistral_api ::
  "string \<Rightarrow> http \<Rightarrow> (path \<rightharpoonup> nat) \<Rightarrow> prompt \<Rightarrow> path \<Rightarrow> string \<Rightarrow> string option \<times> mistral_request list" where
  "call_mistral_api api_key h fs pr local_path ext =
     (if api_key = [] then (None, [])
      else
        let img = (if local_path = [] then None
                   else case file_to_base64 fs local_path of
                          Some sz \<Rightarrow> if sz = 0 then None
                                     else Some (get_mime_type_from_extension ext, local_path)
                        | None \<Rightarrow> None);
            req = \<lparr>req_prompt = pr, req_image = img\<rparr>;
            ans = (case h req of
                     Network_error \<Rightarrow> None
                   | Http_status st content \<Rightarrow>
                       if 200 \<le> st \<and> st < 300 then
                         (case content of None \<Rightarrow> None
                          | Some t \<Rightarrow> if js_trim t = [] then None else Some (js_trim t))
                       else if st = 429 then Some ''rate-limited'' else None)
        in (ans, [req]))"

text \<open>The two-prompt strategy: for an image, first the image prompt with the file
  attached; when that gives nothing (falsy), the metadata prompt without it.\<close>

definition ai_suggest ::
  "string \<Rightarrow> http \<Rightarrow> (path \<rightharpoonup> nat) \<Rightarrow> path \<Rightarrow> download \<Rightarrow> string \<Rightarrow> string \<Rightarrow> string option \<times> mistral_request list" where
  "ai_suggest api_key h fs p d cur ext =
     (let is_image = ext \<in> set image_extensions;
          (s1, q1) = (if is_image then call_mistral_api api_key h fs (Image_prompt ext) p ext
                      else (None, []))
      in if s1 \<noteq> None then (s1, q1)
         else
           let url = (if source_url d \<noteq> [] then source_url d else ''unknown'');
               (s2, q2) = call_mistral_api api_key h fs (Metadata_prompt is_image cur url ext) [] ext
           in (s2, q1 @ q2))"

section \<open>The filename sanitiser\<close>

definition is_name_char :: "char \<Rightarrow> bool" where
  "is_name_char c \<longleftrightarrow> is_ascii_upper c \<or> is_ascii_lower c \<or> is_ascii_digit c \<or>
     c \<in> {CHR ''-'', CHR ''_'', CHR ''.''}"

text \<open>\<open>.replace(/\s+/g, "-")\<close>: each run of white space becomes one hyphen.\<close>

function collapse_ws :: "string \<Rightarrow> string" where
  "collapse_ws [] = []"
| "collapse_ws (c # cs) =
     (if js_is_space c then CHR ''-'' # collapse_ws (dropWhile js_is_space cs) else c # collapse_ws cs)"
  by pat_completeness auto
termination
  by (relation "measure length") (auto simp: le_imp_less_Suc length_dropWhile_le)

text \<open>Lines 1458-1468: keep \<open>[a-zA-Z0-9\-_.]\<close>, turn white space into hyphens,
  lower-case, cut to \<open>70 - |ext|\<close> characters, and append the extension unless the
  name already ends with it.\<close>

definition ai_clean_name :: "string \<Rightarrow> string \<Rightarrow> string" where
  "ai_clean_name suggested ext =
     (let c0 = js_to_lower (collapse_ws (filter is_name_char suggested));
          lim = ai_renaming_max_filename_length - int (length ext);
          c1 = (if lim < int (length c0) then js_prefix c0 lim else c0)
      in if ext \<noteq> [] \<and> \<not> ends_with (js_to_lower c1) (js_to_lower ext) then c1 @ ext else c1)"

section \<open>Renaming the file\<close>

text \<open>The characters \<open>renameDownloadFileAndUpdateRecord\<close> strips: \<open>\ / : * ? " < > |\<close>.\<close>

definition rename_forbidden :: "char \<Rightarrow> bool" where
  "rename_forbidden c \<longleftrightarrow>
     c \<in> {CHR 0x5C, CHR ''/'', CHR '':'', CHR ''*'', CHR ''?'', CHR 0x22, CHR ''<'', CHR ''>'', CHR ''|''}"

definition base_name :: "string \<Rightarrow> string" where
  "base_name n = (if CHR ''.'' \<in> set n then before_last (CHR ''.'') n else n)"

text \<open>The duplicate-name loop (lines 1588-1608): while \<open>counter < 100\<close>, stop at the
  first candidate that does not exist, else try \<open>base-counter.ext\<close> next. After 99
  failed probes the loop ends with the last candidate, whether it exists or not.\<close>

function collision_probe ::
  "(path \<Rightarrow> bool) \<Rightarrow> string \<Rightarrow> string \<Rightarrow> string \<Rightarrow> nat \<Rightarrow> string \<Rightarrow> string" where
  "collision_probe ex dir base ext counter final =
     (if counter < 100 then
        (if ex (dir @ path_separator # final)
         then collision_probe ex dir base ext (Suc counter) (base @ CHR ''-'' # dec_string counter @ ext)
         else final)
      else final)"
  by pat_completeness auto
termination
  by (relation "measure (\<lambda>(ex, dir, base, ext, counter, final). 100 - counter)") auto

declare collision_probe.simps [simp del]

text \<open>Moving the card of one key to another (the \<open>activeDownloadCards\<close> delete and
  set, \<open>cardData.key\<close>, and the \<open>splice\<close> of \<open>orderedPodKeys\<close>).\<close>

definition rekey_card :: "key \<Rightarrow> key \<Rightarrow> tidy_state \<Rightarrow> tidy_state" where
  "rekey_card k k' s =
     (case cards s k of None \<Rightarrow> s
      | Some c \<Rightarrow> s\<lparr>cards := ((cards s)(k := None))(k' \<mapsto> c\<lparr>card_key := k'\<rparr>),
                    ordered := replace_first k k' (ordered s)\<rparr>)"

text \<open>\<open>nsIFile.moveTo\<close> within the same directory; an existing target is replaced.\<close>

definition move_file :: "path \<Rightarrow> path \<Rightarrow> nat \<Rightarrow> tidy_state \<Rightarrow> tidy_state" where
  "move_file old new sz s = s\<lparr>files := ((files s)(old := None))(new \<mapsto> sz)\<rparr>"

text \<open>Lines 1576-1611: the target path of the rename. The new name is trimmed and
  stripped of the forbidden characters, gets the old extension (case kept) unless it
  already ends with it, and goes through the duplicate-name loop in the old
  directory.\<close>

definition rename_target :: "(path \<rightharpoonup> nat) \<Rightarrow> path \<Rightarrow> string \<Rightarrow> path" where
  "rename_target fs old new_name =
     (let dir = before_last path_separator old;
          ext = js_ext (after_last path_separator old);
          clean0 = filter (\<lambda>c. \<not> rename_forbidden c) (js_trim new_name);
          clean = (if ext \<noteq> [] \<and> \<not> ends_with clean0 ext then clean0 @ ext else clean0);
          final = collision_probe (\<lambda>p. p \<in> dom fs) dir (base_name clean) ext 1 clean
      in dir @ path_separator # final)"

definition rename_download_file_and_update_record ::
  "tidy_state \<Rightarrow> dlref \<Rightarrow> string \<Rightarrow> key \<Rightarrow> bool \<times> tidy_state" where
  "rename_download_file_and_update_record s r new_name k =
     (case downloads s r of None \<Rightarrow> (False, s)
      | Some d \<Rightarrow>
          let old = target_path d in
          if old = [] then (False, s)
          else
            let new = rename_target (files s) old new_name
            in case files s old of None \<Rightarrow> (False, s)
               | Some sz \<Rightarrow>
                   (True, rekey_card k new
                            ((move_file old new sz s)\<lparr>downloads := (downloads s)(r \<mapsto> d\<lparr>target_path := new\<rparr>)\<rparr>)))"

section \<open>The rename workflow\<close>

text \<open>How \<open>processDownloadForAIRenaming\<close> ends; only \<open>Renamed\<close> is \<open>true\<close>.\<close>

datatype ai_outcome =
    No_card | No_path | Already_processed | File_unavailable | Too_large
  | No_suggestion | Rate_limited | Unsuitable_name | Rename_failed | Renamed

text \<open>The failure paths after the path was claimed: it leaves \<open>renamedFiles\<close> and the
  pod loses \<open>renaming-initiated\<close>, so that a later focus retries.\<close>

definition release_path :: "path \<Rightarrow> key \<Rightarrow> tidy_state \<Rightarrow> tidy_state" where
  "release_path p k s =
     map_card k (\<lambda>c. c\<lparr>renaming_initiated := False\<rparr>) (s\<lparr>renamed_files := renamed_files s - {p}\<rparr>)"

text \<open>Lines 1305-1384: the guards before the \<open>try\<close> block. The key is the
  override when given (the caller passes the focus), else the download's own key.
  A request is only made for a card with a path not yet in \<open>renamedFiles\<close> whose
  file exists and is at most \<open>MAX_FILE_SIZE_FOR_AI\<close>; the path and name are then
  stored on the card for undo and the path is claimed in \<open>renamedFiles\<close>.\<close>

definition ai_claim ::
  "tidy_state \<Rightarrow> dlref \<Rightarrow> key option \<Rightarrow> time \<Rightarrow> ai_outcome + key \<times> download \<times> tidy_state" where
  "ai_claim s r key_override now =
     (case downloads s r of None \<Rightarrow> Inl No_card
      | Some d \<Rightarrow>
      let k = (case key_override of Some k \<Rightarrow> k | None \<Rightarrow> get_download_key d now) in
      case cards s k of None \<Rightarrow> Inl No_card
      | Some c \<Rightarrow>
      let p = target_path d in
      if p = [] then Inl No_path
      else if p \<in> renamed_files s then Inl Already_processed
      else case files s p of None \<Rightarrow> Inl File_unavailable
      | Some sz \<Rightarrow>
      if max_file_size_for_ai < sz then Inl Too_large
      else Inr (k, d,
        (map_card k (\<lambda>c. c\<lparr>orig_path_before_ai := Some p,
                            orig_name_before_ai := Some (after_last path_separator p)\<rparr>) s)
          \<lparr>renamed_files := insert p (renamed_files s)\<rparr>))"

text \<open>Lines 1446-1561: what the suggestion leads to. No suggestion, the
  rate-limit marker, a cleaned name of at most two characters or equal to the
  current one (ignoring case), and a failed rename each release the path. On
  success the download gets \<open>aiName\<close>, the focus follows the card when the card
  was focused, and the tooltip is refreshed for the final key.\<close>

definition ai_finish ::
  "tidy_state \<Rightarrow> dlref \<Rightarrow> key \<Rightarrow> path \<Rightarrow> string \<Rightarrow> string \<Rightarrow> string option \<Rightarrow> ai_outcome \<times> tidy_state" where
  "ai_finish s1 r k p cur ext sug =
     (case sug of None \<Rightarrow> (No_suggestion, release_path p k s1)
      | Some t \<Rightarrow>
      if t = ''rate-limited'' then (Rate_limited, release_path p k s1)
      else
        let cn = ai_clean_name t ext in
        if length cn \<le> 2 \<or> js_to_lower cn = js_to_lower cur
        then (Unsuitable_name, release_path p k s1)
        else
          (case rename_download_file_and_update_record s1 r cn k of
             (False, s2) \<Rightarrow> (Rename_failed, release_path p k s2)
           | (True, s2) \<Rightarrow>
               (case downloads s2 r of None \<Rightarrow> (Renamed, s2)
                | Some d2 \<Rightarrow>
                  let np = target_path d2;
                      s3 = s2\<lparr>downloads := (downloads s2)(r \<mapsto> d2\<lparr>ai_name := cn\<rparr>)\<rparr>;
                      (kf, s4) = (if focused s3 = Some k then (np, s3\<lparr>focused := Some np\<rparr>) else (k, s3))
                  in (Renamed, update_ui_for_focused_download s4 (Some kf)))))"

text \<open>\<open>processDownloadForAIRenaming\<close>: the guards, then the requests for a
  suggestion (lines 1393-1444; the extension is lower-cased there), then the
  outcome. The result is the outcome, the new state and the requests sent.\<close>

definition process_download_for_ai_renaming ::
  "string \<Rightarrow> http \<Rightarrow> tidy_state \<Rightarrow> dlref \<Rightarrow> key option \<Rightarrow> time \<Rightarrow>
   ai_outcome \<times> tidy_state \<times> mistral_request list" where
  "process_download_for_ai_renaming api_key h s r key_override now =
     (case ai_claim s r key_override now of
        Inl out \<Rightarrow> (out, s, [])
      | Inr (k, d, s1) \<Rightarrow>
          let p = target_path d;
              cur = after_last path_separator p;
              ext = js_to_lower (js_ext cur);
              (sug, reqs) = ai_suggest api_key h (files s1) p d cur ext;
              (out, s2) = ai_finish s1 r k p cur ext sug
          in (out, s2, reqs))"

text \<open>The AI timer scheduled by \<open>updateUIForFocusedDownload\<close> fires after 1.5 s,
  in scheduling order, and passes the focus of that moment as the key.\<close>

definition ai_timer_fire :: "string \<Rightarrow> http \<Rightarrow> tidy_state \<Rightarrow> time \<Rightarrow> tidy_state \<times> mistral_request list" where
  "ai_timer_fire api_key h s now =
     (case pending_ai s of [] \<Rightarrow> (s, [])
      | (r, _) # rest \<Rightarrow>
          let (_, s', q) = process_download_for_ai_renaming api_key h (s\<lparr>pending_ai := rest\<rparr>) r (focused s) now
          in (s', q))"

section \<open>The connection check\<close>

text \<open>\<open>verifyMistralConnection\<close> (lines 1924-1977), given the preference
  \<open>mistral_api_key\<close> (\<open>None\<close> when the preference service throws): no key, a
  failed read, a network error or a status outside 2xx disable AI renaming; a 2xx
  answer to the test prompt enables it. The result is the value of both flags
  \<open>aiRenamingPossible\<close> and \<open>ENABLE_AI_RENAMING\<close>, and the requests sent.\<close>

definition verify_mistral_connection :: "string option \<Rightarrow> http \<Rightarrow> bool \<times> mistral_request list" where
  "verify_mistral_connection key h =
     (case key of None \<Rightarrow> (False, [])
      | Some k \<Rightarrow>
          if k = [] then (False, [])
          else let rq = \<lparr>req_prompt = Test_prompt, req_image = None\<rparr>
               in (case h rq of
                     Network_error \<Rightarrow> (False, [rq])
                   | Http_status st _ \<Rightarrow> (200 \<le> st \<and> st < 300, [rq])))"

text \<open>\<open>init\<close> of the main script (lines 89-123): without the host's download list
  (\<open>dl_api\<close> false, or \<open>getList\<close> rejecting) both AI flags are cleared and no
  listener is attached; otherwise the connection check sets the flags and the
  download manager starts. The result: whether the manager runs, the AI flag, and
  the requests sent.\<close>

definition init_tidy :: "bool \<Rightarrow> string option \<Rightarrow> http \<Rightarrow> bool \<times> bool \<times> mistral_request list" where
  "init_tidy dl_api key h =
     (if \<not> dl_api then (False, False, [])
      else case verify_mistral_connection key h of (ai, q) \<Rightarrow> (True, ai, q))"

section \<open>Undo\<close>

text \<open>Lines 2213-2241 of \<open>undoRename\<close>: move the file at the current path back
  to the stored simple name in the same directory, restore the download and the
  card, re-key the card (and the focus) when the key changes, and forget both paths
  in \<open>renamedFiles\<close>.\<close>

definition undo_restore ::
  "tidy_state \<Rightarrow> key \<Rightarrow> card \<Rightarrow> download \<Rightarrow> string \<Rightarrow> path \<Rightarrow> path \<Rightarrow> nat \<Rightarrow> tidy_state" where
  "undo_restore s k c d on op tp sz =
     (let cur = target_path d;
          s1 = (move_file cur tp sz s)
                 \<lparr>downloads := (downloads s)(pod_dl c \<mapsto> d\<lparr>target_path := tp, ai_name := []\<rparr>)\<rparr>;
          s2 = map_card k (\<lambda>c. c\<lparr>original_filename := on\<rparr>) s1;
          s3 = (if k \<noteq> tp
                then (rekey_card k tp s2)
                       \<lparr>focused := (if focused s2 = Some k then Some tp else focused s2)\<rparr>
                else s2)
      in s3\<lparr>renamed_files := renamed_files s3 - {op, cur}\<rparr>)"

text \<open>\<open>undoRename\<close>: its guards (a card with its download, a current path, and the
  stored original name and path), then the restore and the refresh of the focus.
  The pod's \<open>renaming-initiated\<close> class is left as it is.\<close>

definition undo_rename :: "tidy_state \<Rightarrow> key \<Rightarrow> bool \<times> tidy_state" where
  "undo_rename s k =
     (case cards s k of None \<Rightarrow> (False, s)
      | Some c \<Rightarrow>
      case downloads s (pod_dl c) of None \<Rightarrow> (False, s)
      | Some d \<Rightarrow>
      let cur = target_path d in
      case (orig_name_before_ai c, orig_path_before_ai c) of
        (Some on, Some op) \<Rightarrow>
          if cur = [] \<or> on = [] \<or> op = [] then (False, s)
          else
            let tp = before_last path_separator cur @ path_separator # on in
            case files s cur of None \<Rightarrow> (False, s)
            | Some sz \<Rightarrow>
                let s4 = undo_restore s k c d on op tp sz
                in (True, update_ui_for_focused_download s4
                            (case focused s4 of Some f \<Rightarrow> Some f | None \<Rightarrow> Some tp))
      | _ \<Rightarrow> (False, s))"

text \<open>The name tried by the duplicate-name loop at each counter value: the cleaned
  name itself, then \<open>${baseName}-${counter}${fileExt}\<close> (line 1606).\<close>

definition probe_candidate :: "string \<Rightarrow> string \<Rightarrow> string \<Rightarrow> nat \<Rightarrow> string" where
  "probe_candidate clean base ext i = (if i = 0 then clean else base @ CHR ''-'' # dec_string i @ ext)"



section \<open>Worked example\<close>

text \<open>A completed download of a JPEG saved as \<open>/d/photo.JPG\<close>, with AI renaming
  enabled: after the host reports it, its pod is focused and an AI timer is pending.\<close>

definition demo_photo :: tidy_state where
  "demo_photo = store_run (init_state [0 \<mapsto> (demo_download ''/d/photo.JPG'')\<lparr>succeeded := True\<rparr>]
      [''/d/photo.JPG'' \<mapsto> 1000] True False) [Dl_added 0 1000]"

definition demo_http_sunset :: http where
  "demo_http_sunset = (\<lambda>_. Http_status 200 (Some ''sunset''))"

definition demo_renamed :: tidy_state where
  "demo_renamed = fst (ai_timer_fire ''key'' demo_http_sunset demo_photo 3000)"

text \<open>Two completed images: the second arrives while the first one's AI timer is
  pending, and takes the focus. The first timer then fires with the focus of that
  moment.\<close>

definition demo_two_images :: tidy_state where
  "demo_two_images = store_run (init_state
      [0 \<mapsto> (demo_download ''/d/a.png'')\<lparr>succeeded := True\<rparr>, 1 \<mapsto> (demo_download ''/d/b.png'')\<lparr>succeeded := True\<rparr>]
      [''/d/a.png'' \<mapsto> 1000, ''/d/b.png'' \<mapsto> 2000] True False) [Dl_added 0 1000, Dl_added 1 2000]"

definition demo_stale :: tidy_state where
  "demo_stale = fst (ai_timer_fire ''key'' demo_http_sunset demo_two_images 2500)"

text \<open>A completed PNG download.\<close>

definition demo_shot :: tidy_state where
  "demo_shot = store_run (init_state [0 \<mapsto> (demo_download ''/d/shot.png'')\<lparr>succeeded := True\<rparr>]
      [''/d/shot.png'' \<mapsto> 1000] True False) [Dl_added 0 1000]"

section \<open>Lemmas: the sanitiser\<close>

lemma name_char_not_space: "is_name_char c \<Longrightarrow> \<not> js_is_space c"
  by (auto simp: is_name_char_def js_is_space_def is_ascii_upper_def is_ascii_lower_def is_ascii_digit_def)

lemma collapse_ws_no_space: "\<forall>c\<in>set s. \<not> js_is_space c \<Longrightarrow> collapse_ws s = s"
  by (induction s rule: collapse_ws.induct) auto

lemma collapse_ws_name_chars [simp]: "collapse_ws (filter is_name_char s) = filter is_name_char s"
  by (rule collapse_ws_no_space) (auto dest: name_char_not_space)

lemma is_name_char_lower: "is_name_char c \<Longrightarrow> is_name_char (js_lower_char c)"
  using js_lower_char_cases [of c] by (auto simp: is_name_char_def)

lemma name_chars_to_lower:
  "\<forall>c\<in>set s. is_name_char c \<Longrightarrow> \<forall>c\<in>set (js_to_lower s). is_name_char c"
  by (auto simp: js_to_lower_def is_name_char_lower)

lemma name_chars_prefix:
  "\<forall>c\<in>set s. P c \<Longrightarrow> \<forall>c\<in>set (js_prefix s n). P c"
  by (auto simp: js_prefix_def dest: in_set_takeD)

lemma js_to_lower_prefix [simp]: "js_to_lower (js_prefix s n) = js_prefix (js_to_lower s) n"
  by (simp add: js_to_lower_def js_prefix_def take_map)

section \<open>Lemmas: the duplicate-name loop\<close>

lemma collision_probe_found:
  "final = probe_candidate clean base ext (c - 1) \<Longrightarrow> 0 < c \<Longrightarrow> c - 1 \<le> i \<Longrightarrow> i < 99 \<Longrightarrow>
   \<forall>j. c - 1 \<le> j \<and> j < i \<longrightarrow> ex (dir @ path_separator # probe_candidate clean base ext j) \<Longrightarrow>
   \<not> ex (dir @ path_separator # probe_candidate clean base ext i) \<Longrightarrow>
   collision_probe ex dir base ext c final = probe_candidate clean base ext i"
proof (induction ex dir base ext c final rule: collision_probe.induct)
  case (1 ex dir base ext counter final)
  show ?case
  proof (cases "counter - 1 = i")
    case True
    then show ?thesis using "1.prems" by (subst collision_probe.simps) simp
  next
    case False
    then have ex: "ex (dir @ path_separator # final)" and c: "counter < 100"
      using "1.prems" by auto
    have "collision_probe ex dir base ext (Suc counter) (base @ CHR ''-'' # dec_string counter @ ext)
          = probe_candidate clean base ext i"
    proof (rule "1.IH")
      show "base @ CHR ''-'' # dec_string counter @ ext = probe_candidate clean base ext (Suc counter - 1)"
        using "1.prems" by (simp add: probe_candidate_def)
      show "\<forall>j. Suc counter - 1 \<le> j \<and> j < i \<longrightarrow> ex (dir @ path_separator # probe_candidate clean base ext j)"
        using "1.prems" by auto
    qed (use "1.prems" False c in auto)
    then show ?thesis using ex c by (subst collision_probe.simps) simp
  qed
qed

lemma collision_probe_exhausted:
  "final = probe_candidate clean base ext (c - 1) \<Longrightarrow> 0 < c \<Longrightarrow> c \<le> 100 \<Longrightarrow>
   \<forall>j. c - 1 \<le> j \<and> j < 99 \<longrightarrow> ex (dir @ path_separator # probe_candidate clean base ext j) \<Longrightarrow>
   collision_probe ex dir base ext c final = probe_candidate clean base ext 99"
proof (induction ex dir base ext c final rule: collision_probe.induct)
  case (1 ex dir base ext counter final)
  show ?case
  proof (cases "counter = 100")
    case True
    then show ?thesis using "1.prems" by (subst collision_probe.simps) simp
  next
    case False
    then have c: "counter < 100" and ex: "ex (dir @ path_separator # final)"
      using "1.prems" by auto
    have "collision_probe ex dir base ext (Suc counter) (base @ CHR ''-'' # dec_string counter @ ext)
          = probe_candidate clean base ext 99"
    proof (rule "1.IH")
      show "base @ CHR ''-'' # dec_string counter @ ext = probe_candidate clean base ext (Suc counter - 1)"
        using "1.prems" by (simp add: probe_candidate_def)
      show "\<forall>j. Suc counter - 1 \<le> j \<and> j < 99 \<longrightarrow> ex (dir @ path_separator # probe_candidate clean base ext j)"
        using "1.prems" by auto
    qed (use "1.prems" c in auto)
    then show ?thesis using ex c by (subst collision_probe.simps) simp
  qed
qed

section \<open>Lemmas: the phases of the workflow\<close>

lemma ai_claim_Inl:
  "ai_claim s r ko now = Inl out \<Longrightarrow> out \<in> {No_card, No_path, Already_processed, File_unavailable, Too_large}"
  by (auto simp: ai_claim_def Let_def split: option.splits if_splits)

lemma ai_claim_Inr:
  "ai_claim s r ko now = Inr (k, d, s1) \<Longrightarrow>
   downloads s r = Some d \<and> k = (case ko of Some k \<Rightarrow> k | None \<Rightarrow> get_download_key d now) \<and>
   k \<in> dom (cards s) \<and> target_path d \<noteq> [] \<and> target_path d \<notin> renamed_files s \<and>
   (\<exists>sz. files s (target_path d) = Some sz \<and> sz \<le> max_file_size_for_ai) \<and>
   s1 = (map_card k (\<lambda>c. c\<lparr>orig_path_before_ai := Some (target_path d),
           orig_name_before_ai := Some (after_last path_separator (target_path d))\<rparr>) s)
          \<lparr>renamed_files := insert (target_path d) (renamed_files s)\<rparr>"
  by (auto simp: ai_claim_def Let_def split: option.splits if_splits)

lemma rename_False: "rename_download_file_and_update_record s r n k = (False, s') \<Longrightarrow> s' = s"
  by (auto simp: rename_download_file_and_update_record_def Let_def split: option.splits if_splits)

lemma ai_finish_fail:
  "ai_finish s1 r k p cur ext sug = (out, s2) \<Longrightarrow> out \<noteq> Renamed \<Longrightarrow>
   out \<in> {No_suggestion, Rate_limited, Unsuitable_name, Rename_failed} \<and> s2 = release_path p k s1"
  by (auto simp: ai_finish_def Let_def split: option.splits if_splits prod.splits bool.splits
           dest: rename_False)

lemma process_Inl:
  "ai_claim s r ko now = Inl out \<Longrightarrow> process_download_for_ai_renaming a h s r ko now = (out, s, [])"
  by (simp add: process_download_for_ai_renaming_def)

lemma process_Inr:
  "process_download_for_ai_renaming a h s r ko now = (out, s', q) \<Longrightarrow> ai_claim s r ko now = Inr (k, d, s1) \<Longrightarrow>
   \<exists>sug. ai_suggest a h (files s1) (target_path d) d (after_last path_separator (target_path d))
            (js_to_lower (js_ext (after_last path_separator (target_path d)))) = (sug, q) \<and>
         ai_finish s1 r k (target_path d) (after_last path_separator (target_path d))
            (js_to_lower (js_ext (after_last path_separator (target_path d)))) sug = (out, s')"
  by (auto simp: process_download_for_ai_renaming_def Let_def split: prod.splits)

lemma ai_claim_cases:
  obtains (Inl) out where "ai_claim s r ko now = Inl out"
        | (Inr) k d s1 where "ai_claim s r ko now = Inr (k, d, s1)"
  by (cases "ai_claim s r ko now") auto

lemma call_mistral_api_requests:
  "call_mistral_api a h fs pr lp ext = (sug, q) \<Longrightarrow>
   length q \<le> 1 \<and> (\<forall>rq\<in>set q. \<forall>m p'. req_image rq = Some (m, p') \<longrightarrow> p' = lp \<and> lp \<noteq> [])"
  by (auto simp: call_mistral_api_def Let_def split: option.splits if_splits)

lemma call_mistral_api_no_key: "call_mistral_api [] h fs pr lp ext = (None, [])"
  by (simp add: call_mistral_api_def)

lemma no_pair_Some_iff: "(\<forall>m p'. x \<noteq> Some (m, p')) \<longleftrightarrow> x = None"
  by (cases x) auto

lemma ai_suggest_requests:
  "ai_suggest a h fs p d cur ext = (sug, q) \<Longrightarrow>
   length q \<le> 2 \<and> (\<forall>rq\<in>set (drop 1 q). req_image rq = None) \<and>
   (\<forall>rq\<in>set q. \<forall>m p'. req_image rq = Some (m, p') \<longrightarrow> p' = p \<and> ext \<in> set image_extensions)"
  by (auto simp: ai_suggest_def Let_def split: if_splits prod.splits dest!: call_mistral_api_requests)
     (auto simp: no_pair_Some_iff dest: in_set_dropD)

lemmas ai_eval = store_eval ai_claim_def ai_finish_def process_download_for_ai_renaming_def ai_suggest_def
  call_mistral_api_def file_to_base64_def max_file_size_for_ai_def image_extensions_def
  get_mime_type_from_extension_def mime_types_def ai_clean_name_def is_name_char_def
  ai_renaming_max_filename_length_def path_separator_def release_path_def
  rename_download_file_and_update_record_def rename_target_def rekey_card_def move_file_def base_name_def rename_forbidden_def


lemma call_mistral_api_429:
  "a \<noteq> [] \<Longrightarrow> \<forall>rq. \<exists>b. h rq = Http_status 429 b \<Longrightarrow>
   \<exists>rq. call_mistral_api a h fs pr lp ext = (Some ''rate-limited'', [rq])"
proof -
  assume a: "a \<noteq> []" and h: "\<forall>rq. \<exists>b. h rq = Http_status 429 b"
  define img where "img = (if lp = [] then None
                   else case file_to_base64 fs lp of
                          Some sz \<Rightarrow> if sz = 0 then None else Some (get_mime_type_from_extension ext, lp)
                        | None \<Rightarrow> None)"
  obtain b where "h \<lparr>req_prompt = pr, req_image = img\<rparr> = Http_status 429 b"
    using h by blast
  then show ?thesis
    using a unfolding call_mistral_api_def Let_def img_def [symmetric] by simp
qed

lemma ai_suggest_429:
  "a \<noteq> [] \<Longrightarrow> \<forall>rq. \<exists>b. h rq = Http_status 429 b \<Longrightarrow>
   \<exists>rq. ai_suggest a h fs p d cur ext = (Some ''rate-limited'', [rq])"
proof -
  assume a: "a \<noteq> []" and h: "\<forall>rq. \<exists>b. h rq = Http_status 429 b"
  have c: "\<And>pr lp. \<exists>rq. call_mistral_api a h fs pr lp ext = (Some ''rate-limited'', [rq])"
    using call_mistral_api_429 [OF a h] by blast
  show ?thesis
  proof (cases "ext \<in> set image_extensions")
    case True
    obtain rq where "call_mistral_api a h fs (Image_prompt ext) p ext = (Some ''rate-limited'', [rq])"
      using c by blast
    then show ?thesis using True by (simp add: ai_suggest_def)
  next
    case False
    obtain rq where "call_mistral_api a h fs
        (Metadata_prompt False cur (if source_url d \<noteq> [] then source_url d else ''unknown'') ext) [] ext
        = (Some ''rate-limited'', [rq])"
      using c by blast
    then show ?thesis using False by (simp add: ai_suggest_def Let_def)
  qed
qed

section \<open>Lemmas: file names and paths\<close>

lemma collision_probe_cases:
  "P final \<Longrightarrow> (\<And>i. P (base @ CHR ''-'' # dec_string i @ ext)) \<Longrightarrow> P (collision_probe ex dir base ext c final)"
  by (induction ex dir base ext c final rule: collision_probe.induct) (subst collision_probe.simps; auto)

lemma rename_target_dir:
  "path_separator \<in> set old \<Longrightarrow>
   \<exists>fin. rename_target fs old n = before_last path_separator old @ path_separator # fin \<and> path_separator \<notin> set fin"
proof -
  let ?ext = "js_ext (after_last path_separator old)"
  let ?c0 = "filter (\<lambda>c. \<not> rename_forbidden c) (js_trim n)"
  let ?clean = "if ?ext \<noteq> [] \<and> \<not> ends_with ?c0 ?ext then ?c0 @ ?ext else ?c0"
  have sep: "rename_forbidden path_separator" "path_separator \<notin> set ''0123456789''"
    by (simp_all add: rename_forbidden_def path_separator_def)
  have ext: "path_separator \<notin> set ?ext"
    using set_after_last_subset [of "CHR ''.''" "after_last path_separator old"]
    by (auto simp: js_ext_def path_separator_def)
  have clean: "path_separator \<notin> set ?clean"
    using ext sep by auto
  have base: "path_separator \<notin> set (base_name ?clean)"
    using clean set_before_last_subset [of "CHR ''.''" ?clean] by (auto simp: base_name_def)
  have "path_separator \<notin> set (collision_probe (\<lambda>p. p \<in> dom fs) (before_last path_separator old) (base_name ?clean) ?ext 1 ?clean)"
    using clean base ext sep(2) set_dec_string
    by (intro collision_probe_cases [where P = "\<lambda>f. path_separator \<notin> set f"]) (auto simp: path_separator_def)
  then show ?thesis
    by (simp add: rename_target_def Let_def)
qed

section \<open>Lemmas: successful rename and undo\<close>

lemma rekey_card_frame [simp]:
  "downloads (rekey_card k k' s) = downloads s" "files (rekey_card k k' s) = files s"
  "focused (rekey_card k k' s) = focused s" "renamed_files (rekey_card k k' s) = renamed_files s"
  "pending_ai (rekey_card k k' s) = pending_ai s"
  by (simp_all add: rekey_card_def split: option.split)

lemma rekey_card_some:
  "cards s k = Some c \<Longrightarrow>
   cards (rekey_card k k' s) = ((cards s)(k := None))(k' \<mapsto> c\<lparr>card_key := k'\<rparr>) \<and>
   ordered (rekey_card k k' s) = replace_first k k' (ordered s)"
  by (simp add: rekey_card_def)

lemma rename_True:
  "rename_download_file_and_update_record s r n k = (True, s') \<Longrightarrow>
   \<exists>d sz. downloads s r = Some d \<and> target_path d \<noteq> [] \<and> files s (target_path d) = Some sz \<and>
     s' = rekey_card k (rename_target (files s) (target_path d) n)
            ((move_file (target_path d) (rename_target (files s) (target_path d) n) sz s)
               \<lparr>downloads := (downloads s)(r \<mapsto> d\<lparr>target_path := rename_target (files s) (target_path d) n\<rparr>)\<rparr>)"
  by (auto simp: rename_download_file_and_update_record_def Let_def split: option.splits if_splits)

lemma ai_finish_Renamed:
  "ai_finish s1 r k p cur ext sug = (Renamed, s2) \<Longrightarrow>
   \<exists>cn s2' d2. rename_download_file_and_update_record s1 r cn k = (True, s2') \<and> downloads s2' r = Some d2 \<and>
     s2 = update_ui_for_focused_download
            (s2'\<lparr>downloads := (downloads s2')(r \<mapsto> d2\<lparr>ai_name := cn\<rparr>),
                 focused := (if focused s2' = Some k then Some (target_path d2) else focused s2')\<rparr>)
            (Some (if focused s2' = Some k then target_path d2 else k))"
  apply (auto simp: ai_finish_def Let_def split: option.splits if_splits prod.splits bool.splits)
  apply (auto dest!: rename_True simp: move_file_def)
  done

lemma undo_restore_fields:
  "cards s k = Some c \<Longrightarrow> k \<noteq> tp \<Longrightarrow>
   files (undo_restore s k c d on op tp sz) = ((files s)(target_path d := None))(tp \<mapsto> sz) \<and>
   ordered (undo_restore s k c d on op tp sz) = replace_first k tp (ordered s) \<and>
   focused (undo_restore s k c d on op tp sz) = (if focused s = Some k then Some tp else focused s) \<and>
   downloads (undo_restore s k c d on op tp sz) (pod_dl c) = Some (d\<lparr>target_path := tp, ai_name := []\<rparr>) \<and>
   dom (cards (undo_restore s k c d on op tp sz)) = insert tp (dom (cards s) - {k})"
  by (auto simp: undo_restore_def Let_def rekey_card_def move_file_def)

lemma undo_rename_True:
  "undo_rename s k = (True, s') \<Longrightarrow>
   \<exists>c d on op sz. cards s k = Some c \<and> downloads s (pod_dl c) = Some d \<and>
     orig_name_before_ai c = Some on \<and> orig_path_before_ai c = Some op \<and>
     target_path d \<noteq> [] \<and> on \<noteq> [] \<and> op \<noteq> [] \<and> files s (target_path d) = Some sz \<and>
     (let tp = before_last path_separator (target_path d) @ path_separator # on;
          s4 = undo_restore s k c d on op tp sz
      in s' = update_ui_for_focused_download s4 (case focused s4 of Some f \<Rightarrow> Some f | None \<Rightarrow> Some tp))"
  by (auto simp: undo_rename_def Let_def split: option.splits if_splits)

lemma undo_restore_card:
  "cards s k = Some c \<Longrightarrow>
   \<exists>c'. cards (undo_restore s k c d on op tp sz) tp = Some c' \<and> pod_dl c' = pod_dl c \<and>
        renaming_initiated c' = renaming_initiated c"
  by (cases "k = tp") (auto simp: undo_restore_def Let_def rekey_card_def move_file_def)

lemma process_Renamed:
  assumes run: "process_download_for_ai_renaming a h s r (Some k) now = (Renamed, s2, q)"
  shows "\<exists>d c sz cn c2. downloads s r = Some d \<and> cards s k = Some c \<and> files s (target_path d) = Some sz \<and>
     target_path d \<noteq> [] \<and> target_path d \<notin> renamed_files s \<and>
     (let np = rename_target (files s) (target_path d) cn in
      files s2 = ((files s)(target_path d := None))(np \<mapsto> sz) \<and>
      ordered s2 = replace_first k np (ordered s) \<and>
      focused s2 = Some (if focused s = Some k then np else k) \<and>
      downloads s2 r = Some (d\<lparr>target_path := np, ai_name := cn\<rparr>) \<and>
      dom (cards s2) = insert np (dom (cards s) - {k}) \<and>
      cards s2 np = Some c2 \<and> pod_dl c2 = pod_dl c \<and> orig_path_before_ai c2 = Some (target_path d) \<and>
      orig_name_before_ai c2 = Some (after_last path_separator (target_path d)))"
proof (cases rule: ai_claim_cases [of s r "Some k" now])
  case (Inl o')
  then show ?thesis using run process_Inl [OF Inl, of a h] ai_claim_Inl [OF Inl] by auto
next
  case (Inr k1 d s1)
  note C = ai_claim_Inr [OF Inr]
  then have k1: "k1 = k" by simp
  obtain c where c: "cards s k = Some c" using C k1 by auto
  obtain sug where fin: "ai_finish s1 r k (target_path d) (after_last path_separator (target_path d))
      (js_to_lower (js_ext (after_last path_separator (target_path d)))) sug = (Renamed, s2)"
    using process_Inr [OF run Inr] k1 by blast
  obtain cn s2' d2 where rn: "rename_download_file_and_update_record s1 r cn k = (True, s2')"
    and d2: "downloads s2' r = Some d2"
    and s2: "s2 = update_ui_for_focused_download
            (s2'\<lparr>downloads := (downloads s2')(r \<mapsto> d2\<lparr>ai_name := cn\<rparr>),
                 focused := (if focused s2' = Some k then Some (target_path d2) else focused s2')\<rparr>)
            (Some (if focused s2' = Some k then target_path d2 else k))"
    using ai_finish_Renamed [OF fin] by blast
  define np where "np = rename_target (files s) (target_path d) cn"
  define c1 where "c1 = c\<lparr>orig_path_before_ai := Some (target_path d),
                          orig_name_before_ai := Some (after_last path_separator (target_path d))\<rparr>"
  have s1: "downloads s1 = downloads s" "files s1 = files s" "cards s1 k = Some c1" "focused s1 = focused s"
      "ordered s1 = ordered s" "dom (cards s1) = dom (cards s)"
    using C c by (simp_all add: c1_def)
  obtain sz where sz: "files s (target_path d) = Some sz"
    and s2': "s2' = rekey_card k np ((move_file (target_path d) np sz s1)
                 \<lparr>downloads := (downloads s1)(r \<mapsto> d\<lparr>target_path := np\<rparr>)\<rparr>)"
    using rename_True [OF rn] s1 C by (auto simp: np_def)
  have cards2': "cards s2' = ((cards s1)(k := None))(np \<mapsto> c1\<lparr>card_key := np\<rparr>)"
      "ordered s2' = replace_first k np (ordered s)"
    using rekey_card_some [of _ k c1 np] s1 s2' by (simp_all add: move_file_def)
  have d2': "d2 = d\<lparr>target_path := np\<rparr>" using d2 s2' by (simp add: move_file_def)
  define S where "S = s2'\<lparr>downloads := (downloads s2')(r \<mapsto> d2\<lparr>ai_name := cn\<rparr>),
                 focused := (if focused s2' = Some k then Some (target_path d2) else focused s2')\<rparr>"
  define kf where "kf = Some (if focused s2' = Some k then target_path d2 else k)"
  have s2S: "s2 = update_ui_for_focused_download S kf" unfolding s2 S_def kf_def ..
  have "cards S np = Some (c1\<lparr>card_key := np\<rparr>)" using cards2'(1) by (simp add: S_def)
  from update_ui_card_fields [OF this, of kf] obtain c2 where c2: "cards s2 np = Some c2" "pod_dl c2 = pod_dl c1"
      "orig_path_before_ai c2 = orig_path_before_ai c1" "orig_name_before_ai c2 = orig_name_before_ai c1"
    unfolding s2S by auto
  have "dom (cards s2) = insert np (dom (cards s) - {k})"
    using cards2'(1) s1(6) unfolding s2 by auto
  then show ?thesis
    using C c sz c2 cards2' d2' s1 s2' unfolding s2
    by (intro exI [of _ d] exI [of _ c] exI [of _ sz] exI [of _ cn] exI [of _ c2])
       (auto simp: Let_def np_def c1_def move_file_def)
qed

section \<open>Lemmas: the worked example\<close>

lemmas demo_ai_eval = demo_renamed_def demo_http_sunset_def demo_photo_def ai_eval ai_timer_fire_def
  collision_probe.simps js_simps

lemma demo_renamed_card:
  "\<exists>c. cards demo_renamed ''/d/sunset.jpg.JPG'' = Some c \<and> renaming_initiated c \<and> pod_dl c = 0"
  by (simp add: demo_ai_eval)

lemma demo_undo_ok: "fst (undo_rename demo_renamed ''/d/sunset.jpg.JPG'')"
  by (simp add: demo_ai_eval undo_rename_def undo_restore_def)

section \<open>Properties\<close>

text \<open>C4. The sanitised AI name is safe: for an extension of at most 70 filename
  characters in lower case (what the workflow passes for the usual extensions),
  the cleaned name uses only the characters \<open>[a-zA-Z0-9\-_.]\<close>, is in lower
  case, is at most 70 characters long, and ends with the extension.\<close>

theorem ai_clean_name_safe:
  assumes ext: "length ext \<le> 70" "\<forall>c\<in>set ext. is_name_char c" "js_to_lower ext = ext"
  shows "(\<forall>c\<in>set (ai_clean_name t ext). is_name_char c) \<and>
         js_to_lower (ai_clean_name t ext) = ai_clean_name t ext \<and> length (ai_clean_name t ext) \<le> 70 \<and>
         (ext \<noteq> [] \<longrightarrow> ends_with (ai_clean_name t ext) ext)"
proof -
  define c0 where "c0 = js_to_lower (filter is_name_char t)"
  define lim where "lim = 70 - int (length ext)"
  define c1 where "c1 = (if lim < int (length c0) then js_prefix c0 lim else c0)"
  have eq: "ai_clean_name t ext = (if ext \<noteq> [] \<and> \<not> ends_with c1 ext then c1 @ ext else c1)"
    using ext(3) by (simp add: ai_clean_name_def c0_def lim_def c1_def ai_renaming_max_filename_length_def Let_def)
  have c0: "\<forall>c\<in>set c0. is_name_char c"
    unfolding c0_def by (rule name_chars_to_lower) simp
  have chars: "\<forall>c\<in>set c1. is_name_char c"
    using c0 name_chars_prefix [OF c0] by (simp add: c1_def)
  have len: "int (length c1) \<le> lim"
    using ext(1) by (auto simp: c1_def lim_def js_prefix_def)
  have low: "js_to_lower c1 = c1"
    by (simp add: c1_def c0_def)
  show ?thesis
    using chars len low ext(2,3) unfolding eq lim_def by auto
qed


lemma ai_clean_name_safe_witness:
  "ai_clean_name ''Mountain Lake!'' ''.png'' = ''mountainlake.png'' \<and>
   length (ai_clean_name ''Mountain Lake!'' ''.png'') \<le> 70"
proof -
  have "length (ai_clean_name ''Mountain Lake!'' ''.png'') \<le> 70"
    using ai_clean_name_safe [of "''.png''" "''Mountain Lake!''"] by (simp add: is_name_char_def js_simps)
  moreover have "ai_clean_name ''Mountain Lake!'' ''.png'' = ''mountainlake.png''"
    by (simp add: ai_clean_name_def is_name_char_def ai_renaming_max_filename_length_def js_simps)
  ultimately show ?thesis by simp
qed

text \<open>C13. The step \<open>.replace(/\s+/g, "-")\<close> of the sanitiser never fires: white
  space has already been deleted by the character filter before it, so a space in
  the suggestion disappears instead of becoming a hyphen (\<open>"mountain lake"\<close> gives
  \<open>"mountainlake"\<close>, where the rules of the prompt ask for hyphens).\<close>

theorem ai_clean_name_drops_spaces:
  "ai_clean_name (a @ CHR '' '' # b) ext = ai_clean_name (a @ b) ext"
proof -
  have "\<not> is_name_char (CHR '' '')"
    by (simp add: is_name_char_def js_simps)
  then show ?thesis by (simp add: ai_clean_name_def)
qed

text \<open>C7. The duplicate-name loop of \<open>renameDownloadFileAndUpdateRecord\<close> picks the
  first free name among the cleaned name, \<open>base-1.ext\<close>, ..., \<open>base-98.ext\<close>: when
  the i-th candidate (i below 99) is the first that does not exist, it is the
  name chosen, and the chosen name is free.\<close>

theorem collision_probe_first_free:
  assumes "i < 99"
    and "\<forall>j<i. ex (dir @ path_separator # probe_candidate clean (base_name clean) ext j)"
    and "\<not> ex (dir @ path_separator # probe_candidate clean (base_name clean) ext i)"
  shows "collision_probe ex dir (base_name clean) ext 1 clean = probe_candidate clean (base_name clean) ext i \<and>
         \<not> ex (dir @ path_separator # collision_probe ex dir (base_name clean) ext 1 clean)"
  using collision_probe_found [of clean clean "base_name clean" ext 1 i ex dir] assms
  by (simp add: probe_candidate_def)

lemma collision_probe_first_free_witness:
  "collision_probe (\<lambda>p. p \<in> {''/d/a.png'', ''/d/a-1.png''}) ''/d'' (base_name ''a.png'') ''.png'' 1 ''a.png''
     = ''a-2.png''"
proof -
  have "collision_probe (\<lambda>p. p \<in> {''/d/a.png'', ''/d/a-1.png''}) ''/d'' (base_name ''a.png'') ''.png'' 1 ''a.png''
          = probe_candidate ''a.png'' (base_name ''a.png'') ''.png'' 2 \<and>
        \<not> (\<lambda>p. p \<in> {''/d/a.png'', ''/d/a-1.png''}) (''/d'' @ path_separator #
             collision_probe (\<lambda>p. p \<in> {''/d/a.png'', ''/d/a-1.png''}) ''/d'' (base_name ''a.png'') ''.png'' 1 ''a.png'')"
    by (rule collision_probe_first_free)
       (auto simp: probe_candidate_def base_name_def path_separator_def js_simps less_Suc_eq numeral_2_eq_2)
  then show ?thesis
    by (simp add: probe_candidate_def base_name_def path_separator_def js_simps)
qed

text \<open>C10. When the cleaned name and \<open>base-1.ext\<close> to \<open>base-98.ext\<close> all exist, the
  loop stops at its bound with \<open>base-99.ext\<close> without testing it; if that file
  exists too, it is the chosen target and \<open>moveTo\<close> replaces it.\<close>

theorem collision_probe_exhaustion:
  assumes "\<forall>j\<le>99. ex (dir @ path_separator # probe_candidate clean (base_name clean) ext j)"
  shows "collision_probe ex dir (base_name clean) ext 1 clean = base_name clean @ ''-99'' @ ext \<and>
         ex (dir @ path_separator # collision_probe ex dir (base_name clean) ext 1 clean)"
proof -
  have "collision_probe ex dir (base_name clean) ext 1 clean = probe_candidate clean (base_name clean) ext 99"
    using assms by (intro collision_probe_exhausted) (simp_all add: probe_candidate_def)
  moreover have "ex (dir @ path_separator # probe_candidate clean (base_name clean) ext 99)"
    using assms by blast
  ultimately show ?thesis
    by (simp add: probe_candidate_def js_simps)
qed

lemma collision_probe_exhaustion_witness:
  "collision_probe (\<lambda>p. True) ''/d'' (base_name ''a.png'') ''.png'' 1 ''a.png'' = ''a-99.png''"
proof -
  have "collision_probe (\<lambda>p. True) ''/d'' (base_name ''a.png'') ''.png'' 1 ''a.png''
          = base_name ''a.png'' @ ''-99'' @ ''.png''"
    by (rule collision_probe_exhaustion [THEN conjunct1]) simp
  then show ?thesis by (simp add: base_name_def js_simps)
qed

text \<open>C6. Every failure after the path was claimed (no suggestion, the rate-limit
  marker, an unsuitable cleaned name, a failed rename) releases it: the path leaves
  \<open>renamedFiles\<close> again, the files, downloads, pod order, focus and pending timers
  are as before, no other card changes, and the card loses \<open>renaming-initiated\<close>,
  so that focusing it again retries.\<close>

theorem ai_failure_releases:
  assumes run: "process_download_for_ai_renaming a h s r (Some k) now = (out, s', q)"
    and fail: "out \<in> {No_suggestion, Rate_limited, Unsuitable_name, Rename_failed}"
  shows "renamed_files s' = renamed_files s \<and> files s' = files s \<and> downloads s' = downloads s \<and>
         ordered s' = ordered s \<and> focused s' = focused s \<and> pending_ai s' = pending_ai s \<and>
         dom (cards s') = dom (cards s) \<and> (\<forall>k'. k' \<noteq> k \<longrightarrow> cards s' k' = cards s k') \<and>
         (\<forall>c. cards s' k = Some c \<longrightarrow> \<not> renaming_initiated c)"
proof (cases rule: ai_claim_cases [of s r "Some k" now])
  case (Inl o')
  then show ?thesis
    using run fail ai_claim_Inl [OF Inl] process_Inl [OF Inl, of a h] by auto
next
  case (Inr k1 d s1)
  note cl = ai_claim_Inr [OF Inr]
  obtain sug where fin: "ai_finish s1 r k1 (target_path d) (after_last path_separator (target_path d))
      (js_to_lower (js_ext (after_last path_separator (target_path d)))) sug = (out, s')"
    using process_Inr [OF run Inr] by blast
  have "s' = release_path (target_path d) k1 s1"
    using ai_finish_fail [OF fin] fail by auto
  then show ?thesis
    using cl by (auto simp: release_path_def)
qed

lemma ai_failure_releases_witness:
  "fst (process_download_for_ai_renaming ''key'' (\<lambda>_. Network_error) demo_photo 0 (Some ''/d/photo.JPG'') 3000) = No_suggestion \<and>
   renamed_files (fst (snd (process_download_for_ai_renaming ''key'' (\<lambda>_. Network_error) demo_photo 0 (Some ''/d/photo.JPG'') 3000))) = renamed_files demo_photo \<and> files (fst (snd (process_download_for_ai_renaming ''key'' (\<lambda>_. Network_error) demo_photo 0 (Some ''/d/photo.JPG'') 3000))) = files demo_photo"
proof -
  obtain out s' q where run: "process_download_for_ai_renaming ''key'' (\<lambda>_. Network_error) demo_photo 0 (Some ''/d/photo.JPG'') 3000 = (out, s', q)"
    by (metis prod.collapse)
  have "fst (process_download_for_ai_renaming ''key'' (\<lambda>_. Network_error) demo_photo 0 (Some ''/d/photo.JPG'') 3000) = No_suggestion"
    by (simp add: demo_photo_def ai_eval js_simps)
  then have o: "out = No_suggestion"
    using run by simp
  have "renamed_files s' = renamed_files demo_photo \<and> files s' = files demo_photo"
    using ai_failure_releases [OF run] o by simp
  then show ?thesis using run o by simp
qed

text \<open>C5. A request to the remote model is only ever sent for a download with a
  path that is not in \<open>renamedFiles\<close> and whose file exists with at most
  \<open>MAX_FILE_SIZE_FOR_AI\<close> bytes; in particular a path already being processed or
  renamed is never sent twice.\<close>

theorem ai_requests_only_when_claimed:
  assumes run: "process_download_for_ai_renaming a h s r ko now = (out, s', q)" and sent: "q \<noteq> []"
  shows "\<exists>d sz. downloads s r = Some d \<and> target_path d \<noteq> [] \<and> target_path d \<notin> renamed_files s \<and>
                files s (target_path d) = Some sz \<and> sz \<le> max_file_size_for_ai"
proof (cases rule: ai_claim_cases [of s r ko now])
  case (Inl o')
  then show ?thesis using run sent process_Inl [OF Inl, of a h] by auto
next
  case (Inr k1 d s1)
  then show ?thesis using ai_claim_Inr [OF Inr] by blast
qed

lemma ai_requests_only_when_claimed_witness:
  "snd (snd (process_download_for_ai_renaming ''key'' (\<lambda>_. Network_error) demo_photo 0 (Some ''/d/photo.JPG'') 3000)) \<noteq> [] \<and> (\<exists>sz. files demo_photo ''/d/photo.JPG'' = Some sz \<and> sz \<le> max_file_size_for_ai)"
proof -
  obtain out s' q where run: "process_download_for_ai_renaming ''key'' (\<lambda>_. Network_error) demo_photo 0 (Some ''/d/photo.JPG'') 3000 = (out, s', q)"
    by (metis prod.collapse)
  have "snd (snd (process_download_for_ai_renaming ''key'' (\<lambda>_. Network_error) demo_photo 0 (Some ''/d/photo.JPG'') 3000)) \<noteq> []"
    by (simp add: demo_photo_def ai_eval js_simps)
  then have q: "q \<noteq> []"
    using run by simp
  have d: "downloads demo_photo 0 = Some ((demo_download ''/d/photo.JPG'')\<lparr>succeeded := True\<rparr>)"
    by (simp add: demo_photo_def store_eval js_simps)
  show ?thesis
    using ai_requests_only_when_claimed [OF run q] d run q by (auto simp: demo_download_def)
qed

text \<open>C9. One run sends at most two requests (the image prompt, then the
  metadata prompt); only the first can carry a file, and a file is only attached
  for the download's own path when its lower-cased extension is one of
  \<open>IMAGE_EXTENSIONS\<close>.\<close>

theorem ai_request_shape:
  assumes run: "process_download_for_ai_renaming a h s r ko now = (out, s', q)"
  shows "length q \<le> 2 \<and> (\<forall>rq\<in>set (drop 1 q). req_image rq = None) \<and>
         (\<forall>rq\<in>set q. \<forall>m p. req_image rq = Some (m, p) \<longrightarrow>
            (\<exists>d. downloads s r = Some d \<and> p = target_path d \<and>
                 js_to_lower (js_ext (after_last path_separator p)) \<in> set image_extensions))"
proof (cases rule: ai_claim_cases [of s r ko now])
  case (Inl o')
  then show ?thesis using run process_Inl [OF Inl, of a h] by auto
next
  case (Inr k1 d s1)
  obtain sug where "ai_suggest a h (files s1) (target_path d) d (after_last path_separator (target_path d))
      (js_to_lower (js_ext (after_last path_separator (target_path d)))) = (sug, q)"
    using process_Inr [OF run Inr] by blast
  from ai_suggest_requests [OF this] show ?thesis
    using ai_claim_Inr [OF Inr] by auto
qed

lemma ai_request_shape_witness:
  "length (snd (snd (process_download_for_ai_renaming ''key'' (\<lambda>_. Network_error) demo_photo 0 (Some ''/d/photo.JPG'') 3000))) = 2 \<and>
   req_image (hd (snd (snd (process_download_for_ai_renaming ''key'' (\<lambda>_. Network_error) demo_photo 0 (Some ''/d/photo.JPG'') 3000)))) = Some (''image/jpeg'', ''/d/photo.JPG'') \<and>
   req_image (last (snd (snd (process_download_for_ai_renaming ''key'' (\<lambda>_. Network_error) demo_photo 0 (Some ''/d/photo.JPG'') 3000)))) = None"
proof -
  obtain out s' q where run: "process_download_for_ai_renaming ''key'' (\<lambda>_. Network_error) demo_photo 0 (Some ''/d/photo.JPG'') 3000 = (out, s', q)"
    by (metis prod.collapse)
  have "length q \<le> 2 \<and> (\<forall>rq\<in>set (drop 1 q). req_image rq = None)"
    using ai_request_shape [OF run] by simp
  moreover have "length (snd (snd (process_download_for_ai_renaming ''key'' (\<lambda>_. Network_error) demo_photo 0 (Some ''/d/photo.JPG'') 3000))) = 2 \<and>
      req_image (hd (snd (snd (process_download_for_ai_renaming ''key'' (\<lambda>_. Network_error) demo_photo 0 (Some ''/d/photo.JPG'') 3000)))) = Some (''image/jpeg'', ''/d/photo.JPG'')"
    by (simp add: demo_photo_def ai_eval js_simps)
  ultimately show ?thesis
    using run by (auto simp: numeral_2_eq_2 length_Suc_conv)
qed

text \<open>C12. \<open>undoRename\<close> does not clear the pod's \<open>renaming-initiated\<close> class:
  after a successful undo of a card that carried it, the restored card still
  carries it, and focusing that card schedules no new AI rename, although the
  comment at the \<open>renamedFiles\<close> deletion says the undo allows a retry.\<close>

theorem undo_keeps_renaming_initiated:
  assumes undo: "undo_rename s k = (True, s')" and c: "cards s k = Some c" "renaming_initiated c"
  shows "\<exists>k' c'. cards s' k' = Some c' \<and> pod_dl c' = pod_dl c \<and> renaming_initiated c' \<and>
           pending_ai (update_ui_for_focused_download s' (Some k')) = pending_ai s'"
proof -
  obtain d on op sz where
    s': "s' = update_ui_for_focused_download (undo_restore s k c d on op (before_last path_separator (target_path d) @ path_separator # on) sz)
            (case focused (undo_restore s k c d on op (before_last path_separator (target_path d) @ path_separator # on) sz) of
               Some f \<Rightarrow> Some f | None \<Rightarrow> Some (before_last path_separator (target_path d) @ path_separator # on))"
    using undo_rename_True [OF undo] c(1) by (auto simp: Let_def)
  obtain c1 where c1: "cards (undo_restore s k c d on op (before_last path_separator (target_path d) @ path_separator # on) sz)
        (before_last path_separator (target_path d) @ path_separator # on) = Some c1"
      "pod_dl c1 = pod_dl c" "renaming_initiated c1"
    using undo_restore_card [OF c(1), of d on op "before_last path_separator (target_path d) @ path_separator # on" sz] c(2)
    by auto
  obtain c2 where "cards s' (before_last path_separator (target_path d) @ path_separator # on) = Some c2"
      "pod_dl c2 = pod_dl c" "renaming_initiated c2"
    using update_ui_card_fields [OF c1(1)] c1(2,3) unfolding s' by (metis (no_types, lifting))
  then show ?thesis
    using update_ui_no_schedule by blast
qed

lemma undo_keeps_renaming_initiated_witness:
  "fst (undo_rename demo_renamed ''/d/sunset.jpg.JPG'') \<and>
   (\<exists>k' c'. cards (snd (undo_rename demo_renamed ''/d/sunset.jpg.JPG'')) k' = Some c' \<and> pod_dl c' = 0 \<and>
      renaming_initiated c')"
proof -
  obtain b s' where u: "undo_rename demo_renamed ''/d/sunset.jpg.JPG'' = (b, s')"
    by (metis prod.collapse)
  have b: "b = True" using demo_undo_ok u by simp
  obtain c where c: "cards demo_renamed ''/d/sunset.jpg.JPG'' = Some c" "renaming_initiated c" "pod_dl c = 0"
    using demo_renamed_card by blast
  show ?thesis
    using undo_keeps_renaming_initiated [OF u [unfolded b] c(1,2)] c(3) u b by auto
qed


text \<open>C3. Rename then undo is a round trip: when the focused card of a download
  (keyed by its path, with a file name after the last separator) is renamed by the
  AI workflow to a path that was neither a file nor a key, undoing the rename at
  the new key succeeds and restores the files, the pod order, the focus, the
  download's path and the set of keys.\<close>

theorem ai_rename_undo_round_trip:
  assumes run: "process_download_for_ai_renaming a h s r (Some k) now = (Renamed, s2, q)"
    and inv: "store_inv s" and foc: "focused s = Some k"
    and d: "downloads s r = Some d" "target_path d = k" "path_separator \<in> set k"
           "after_last path_separator k \<noteq> []"
    and c: "cards s k = Some c" "pod_dl c = r"
    and fresh: "downloads s2 r = Some d2" "target_path d2 \<notin> dom (files s)" "target_path d2 \<notin> dom (cards s)"
  shows "\<exists>s3. undo_rename s2 (target_path d2) = (True, s3) \<and> files s3 = files s \<and> ordered s3 = ordered s \<and>
           focused s3 = Some k \<and> map_option target_path (downloads s3 r) = Some k \<and>
           dom (cards s3) = dom (cards s)"
proof -
  obtain sz cn c2 where
    P: "files s k = Some sz"
       "files s2 = ((files s)(k := None))(rename_target (files s) k cn \<mapsto> sz)"
       "ordered s2 = replace_first k (rename_target (files s) k cn) (ordered s)"
       "focused s2 = Some (rename_target (files s) k cn)"
       "downloads s2 r = Some (d\<lparr>target_path := rename_target (files s) k cn, ai_name := cn\<rparr>)"
       "dom (cards s2) = insert (rename_target (files s) k cn) (dom (cards s) - {k})"
       "cards s2 (rename_target (files s) k cn) = Some c2" "pod_dl c2 = r"
       "orig_path_before_ai c2 = Some k" "orig_name_before_ai c2 = Some (after_last path_separator k)"
    using process_Renamed [OF run] d c foc by (auto simp: Let_def)
  define np where "np = rename_target (files s) k cn"
  have np2: "target_path d2 = np" using fresh(1) P(5) by (auto simp: np_def)
  obtain fin where fin: "np = before_last path_separator k @ path_separator # fin" "path_separator \<notin> set fin"
    using rename_target_dir [OF d(3)] by (auto simp: np_def)
  have tp: "before_last path_separator np @ path_separator # after_last path_separator k = k"
    using fin before_after_last [OF d(3)] by simp
  have nk: "np \<noteq> k" using fresh(2) P(1) np2 by auto
  have nord: "np \<notin> set (ordered s)" "k \<in> set (ordered s)"
    using inv fresh(3) c(1) np2 by (auto simp: store_inv_def)
  have kne: "k \<noteq> []" using d(3) by auto
  define d3 where "d3 = d\<lparr>target_path := np, ai_name := cn\<rparr>"
  define s4 where "s4 = undo_restore s2 np c2 d3 (after_last path_separator k) k k sz"
  have undo: "undo_rename s2 np = (True, update_ui_for_focused_download s4
                 (case focused s4 of Some f \<Rightarrow> Some f | None \<Rightarrow> Some k))"
    using P d(2,3,4) tp fin kne unfolding np_def [symmetric]
    by (simp add: undo_rename_def Let_def d3_def s4_def path_separator_def)
  have F: "files s4 = ((files s2)(np := None))(k \<mapsto> sz)" "ordered s4 = replace_first np k (ordered s2)"
      "focused s4 = Some k" "downloads s4 r = Some (d3\<lparr>target_path := k, ai_name := []\<rparr>)"
      "dom (cards s4) = insert k (dom (cards s2) - {np})"
    using undo_restore_fields [OF P(7)[folded np_def], of k d3 "after_last path_separator k" k sz] nk P(4,8)
    by (simp_all add: s4_def d3_def np_def)
  have "files s4 = files s"
    using F(1) P(1,2) fresh(2) np2 nk by (auto simp: np_def fun_eq_iff)
  moreover have "ordered s4 = ordered s"
    using F(2) P(3) nord(1) replace_first_back by (simp add: np_def)
  moreover have "dom (cards s4) = dom (cards s)"
    using F(5) P(6) nk nord fresh(3) np2 c(1) by (auto simp: np_def)
  ultimately show ?thesis
    using undo F(3,4) np2 by (simp add: d3_def)
qed

lemma ai_rename_undo_round_trip_witness:
  "\<exists>s3. undo_rename (fst (snd (process_download_for_ai_renaming ''key'' demo_http_sunset demo_photo 0
            (Some ''/d/photo.JPG'') 3000))) ''/d/sunset.jpg.JPG'' = (True, s3) \<and>
        files s3 = files demo_photo \<and> ordered s3 = [''/d/photo.JPG''] \<and> focused s3 = Some ''/d/photo.JPG''"
proof -
  obtain out s2 q where run: "process_download_for_ai_renaming ''key'' demo_http_sunset demo_photo 0
      (Some ''/d/photo.JPG'') 3000 = (out, s2, q)"
    by (metis prod.collapse)
  have "fst (process_download_for_ai_renaming ''key'' demo_http_sunset demo_photo 0 (Some ''/d/photo.JPG'') 3000) = Renamed
        \<and> downloads (fst (snd (process_download_for_ai_renaming ''key'' demo_http_sunset demo_photo 0
             (Some ''/d/photo.JPG'') 3000))) 0 \<noteq> None
        \<and> map_option target_path (downloads (fst (snd (process_download_for_ai_renaming ''key'' demo_http_sunset
             demo_photo 0 (Some ''/d/photo.JPG'') 3000))) 0) = Some ''/d/sunset.jpg.JPG''"
    by (simp add: demo_ai_eval)
  then obtain d2 where o: "out = Renamed" and d2: "downloads s2 0 = Some d2" "target_path d2 = ''/d/sunset.jpg.JPG''"
    using run by auto
  have inv: "store_inv demo_photo"
    unfolding demo_photo_def by (rule store_run_inv [OF init_state_inv])
  have st: "focused demo_photo = Some ''/d/photo.JPG''" "ordered demo_photo = [''/d/photo.JPG'']"
      "downloads demo_photo 0 = Some ((demo_download ''/d/photo.JPG'')\<lparr>succeeded := True\<rparr>)"
      "''/d/sunset.jpg.JPG'' \<notin> dom (files demo_photo)" "''/d/sunset.jpg.JPG'' \<notin> dom (cards demo_photo)"
    by (simp_all add: demo_photo_def store_eval js_simps)
  obtain c where c: "cards demo_photo ''/d/photo.JPG'' = Some c" "pod_dl c = 0"
    by (simp add: demo_photo_def store_eval js_simps)
  have s2: "fst (snd (process_download_for_ai_renaming ''key'' demo_http_sunset demo_photo 0
      (Some ''/d/photo.JPG'') 3000)) = s2"
    using run by simp
  show ?thesis
    unfolding s2 using ai_rename_undo_round_trip [OF run [unfolded o] inv st(1) st(3) _ _ _ c d2(1)] st(2,4,5) d2(2)
    by (simp add: demo_download_def path_separator_def js_simps) blast
qed

text \<open>C15. When the model answers every request with HTTP 429, a run that sends a
  request ends with the distinguished outcome \<open>Rate_limited\<close> after exactly one
  request, and the path is retry-eligible again (\<open>renamedFiles\<close> as before). For
  an image this means no fallback to the metadata prompt: the marker string is
  truthy, so the \<open>if (!suggestedName)\<close> fallback is skipped.\<close>

theorem ai_rate_limited:
  assumes run: "process_download_for_ai_renaming a h s r ko now = (out, s', q)"
    and key: "a \<noteq> []" and limited: "\<forall>rq. \<exists>b. h rq = Http_status 429 b" and sent: "q \<noteq> []"
  shows "out = Rate_limited \<and> length q = 1 \<and> renamed_files s' = renamed_files s"
proof (cases rule: ai_claim_cases [of s r ko now])
  case (Inl o')
  then show ?thesis using run sent process_Inl [OF Inl, of a h] by auto
next
  case (Inr k1 d s1)
  note C = ai_claim_Inr [OF Inr]
  obtain sug where sg: "ai_suggest a h (files s1) (target_path d) d (after_last path_separator (target_path d))
      (js_to_lower (js_ext (after_last path_separator (target_path d)))) = (sug, q)"
    and fin: "ai_finish s1 r k1 (target_path d) (after_last path_separator (target_path d))
      (js_to_lower (js_ext (after_last path_separator (target_path d)))) sug = (out, s')"
    using process_Inr [OF run Inr] by blast
  obtain rq where "sug = Some ''rate-limited''" "q = [rq]"
    using ai_suggest_429 [OF key limited] sg by (metis prod.inject)
  then show ?thesis
    using fin C by (auto simp: ai_finish_def release_path_def)
qed

lemma ai_rate_limited_witness:
  "fst (process_download_for_ai_renaming ''key'' (\<lambda>_. Http_status 429 None) demo_photo 0 (Some ''/d/photo.JPG'') 3000)
     = Rate_limited \<and>
   renamed_files (fst (snd (process_download_for_ai_renaming ''key'' (\<lambda>_. Http_status 429 None) demo_photo 0
      (Some ''/d/photo.JPG'') 3000))) = {}"
proof -
  obtain out s' q where run: "process_download_for_ai_renaming ''key'' (\<lambda>_. Http_status 429 None) demo_photo 0
      (Some ''/d/photo.JPG'') 3000 = (out, s', q)"
    by (metis prod.collapse)
  have "snd (snd (process_download_for_ai_renaming ''key'' (\<lambda>_. Http_status 429 None) demo_photo 0
      (Some ''/d/photo.JPG'') 3000)) \<noteq> []"
    by (simp add: demo_photo_def ai_eval js_simps)
  then have q: "q \<noteq> []" using run by simp
  have r: "renamed_files demo_photo = {}"
    by (simp add: demo_photo_def store_eval js_simps)
  show ?thesis
    using ai_rate_limited [OF run _ _ q] r run by simp
qed



lemma verify_mistral_connection_enabled:
  "fst (verify_mistral_connection key h) \<longleftrightarrow>
     (\<exists>k st c. key = Some k \<and> k \<noteq> [] \<and>
        h \<lparr>req_prompt = Test_prompt, req_image = None\<rparr> = Http_status st c \<and> 200 \<le> st \<and> st < 300)"
  by (auto simp: verify_mistral_connection_def Let_def split: option.split http_response.split)

end
