(* ===== verification/Preview.thy ===== *)
theory Preview
  imports AIRename "HOL-Library.While_Combinator"
begin

text \<open>
  The preview of a completed pod in \<open>src/tidy-downloads.uc.js\<close>:
  \<open>readTextFileSnippet\<close> (lines 1792-1894), which reads the first lines of a text
  file through a stream of 4096-byte chunks, \<open>setGenericIcon\<close> (lines 1165-1183)
  and the choice of \<open>setCompletedFilePreview\<close> (lines 1186-1300) between a text
  snippet, an image and an icon. A file is its content, a string of bytes; the
  UTF-8 stream decoder is the identity on it, so a chunk boundary never splits a
  character.
\<close>

section \<open>Constants\<close>

definition snippet_max_lines :: nat where "snippet_max_lines = 5"

definition snippet_max_length_per_line :: nat where "snippet_max_length_per_line = 80"

definition snippet_buffer_size :: nat where "snippet_buffer_size = 4096"

definition snippet_size_limit :: nat where "snippet_size_limit = 1 * 1024 * 1024"

definition newline :: char where "newline = CHR 0x0A"

section \<open>Lines\<close>

text \<open>\<open>s.trimEnd()\<close>.\<close>

definition js_trim_end :: "string \<Rightarrow> string" where
  "js_trim_end s = rev (dropWhile js_is_space (rev s))"

text \<open>One output line: trimmed at the end, and cut to \<open>maxLengthPerLine\<close>
  characters followed by \<open>...\<close> when longer.\<close>

definition shorten_line :: "nat \<Rightarrow> string \<Rightarrow> string" where
  "shorten_line m l = (let t = js_trim_end l in if m < length t then take m t @ ''...'' else t)"

text \<open>\<open>outputLines.join("\n")\<close>.\<close>

fun js_join :: "string \<Rightarrow> string list \<Rightarrow> string" where
  "js_join sep [] = []"
| "js_join sep [x] = x"
| "js_join sep (x # xs) = x @ sep @ js_join sep xs"

section \<open>The streaming reader\<close>

lemma length_tl_dropWhile_less: "x \<in> set xs \<Longrightarrow> length (tl (dropWhile (\<lambda>y. y \<noteq> x) xs)) < length xs"
  by (induction xs) auto

text \<open>The inner \<open>while\<close> of lines 1846-1855: while the buffer holds a newline and
  fewer than \<open>maxLines\<close> lines are out, move the line before it to the output.\<close>

function drain_lines :: "nat \<Rightarrow> nat \<Rightarrow> string \<Rightarrow> nat \<Rightarrow> string list \<Rightarrow> string \<times> nat \<times> string list" where
  "drain_lines maxl m buf n out =
     (if newline \<in> set buf \<and> n < maxl
      then drain_lines maxl m (tl (dropWhile (\<lambda>x. x \<noteq> newline) buf)) (Suc n)
             (out @ [shorten_line m (takeWhile (\<lambda>x. x \<noteq> newline) buf)])
      else (buf, n, out))"
  by pat_completeness auto
termination
  by (relation "measure (\<lambda>(maxl, m, buf, n, out). length buf)") (auto simp: length_tl_dropWhile_less simp del: length_tl)

declare drain_lines.simps [simp del]

text \<open>The state of the outer loop: the unread rest of the file, \<open>lineBuffer\<close>,
  \<open>linesRead\<close>, \<open>outputLines\<close>, and whether the loop has met the end of the file
  (its \<open>break\<close>).\<close>

record snippet_st =
  unread :: string
  line_buffer :: string
  lines_read :: nat
  output_lines :: "string list"
  at_eof :: bool

text \<open>One turn of the outer \<open>while (linesRead < maxLines)\<close> (lines 1826-1862):
  \<open>read(bufferSize)\<close> returns the next chunk of at most \<open>bs\<close> bytes; an empty chunk
  is the end of the file, where a non-empty buffer is pushed as the last line.\<close>

definition snippet_turn :: "nat \<Rightarrow> nat \<Rightarrow> nat \<Rightarrow> snippet_st \<Rightarrow> snippet_st" where
  "snippet_turn bs maxl m st =
     (let chunk = take bs (unread st)
      in if chunk = [] then
           (if line_buffer st \<noteq> []
            then st\<lparr>output_lines := output_lines st @ [shorten_line m (line_buffer st)],
                    lines_read := Suc (lines_read st), at_eof := True\<rparr>
            else st\<lparr>at_eof := True\<rparr>)
         else
           (case drain_lines maxl m (line_buffer st @ chunk) (lines_read st) (output_lines st) of
              (buf, n, out) \<Rightarrow>
                st\<lparr>unread := drop bs (unread st), line_buffer := buf, lines_read := n,
                   output_lines := out\<rparr>))"

definition snippet_start :: "string \<Rightarrow> snippet_st" where
  "snippet_start content = \<lparr>unread = content, line_buffer = [], lines_read = 0, output_lines = [],
     at_eof = False\<rparr>"

definition snippet_loop :: "nat \<Rightarrow> nat \<Rightarrow> nat \<Rightarrow> string \<Rightarrow> snippet_st option" where
  "snippet_loop bs maxl m content =
     while_option (\<lambda>st. \<not> at_eof st \<and> lines_read st < maxl) (snippet_turn bs maxl m) (snippet_start content)"

text \<open>Lines 1865-1879: after the loop a non-empty buffer is pushed once more when
  fewer than \<open>maxLines\<close> lines are out; no line at all gives a placeholder.\<close>

definition snippet_render :: "string list \<Rightarrow> string" where
  "snippet_render outl = (if outl = [] then ''[Could not read snippet contents]'' else js_join [newline] outl)"

definition snippet_finish :: "nat \<Rightarrow> nat \<Rightarrow> snippet_st \<Rightarrow> string" where
  "snippet_finish maxl m st =
     snippet_render (if lines_read st < maxl \<and> line_buffer st \<noteq> []
                     then output_lines st @ [shorten_line m (line_buffer st)] else output_lines st)"

definition read_snippet_stream :: "nat \<Rightarrow> nat \<Rightarrow> nat \<Rightarrow> string \<Rightarrow> string option" where
  "read_snippet_stream bs maxl m content = map_option (snippet_finish maxl m) (snippet_loop bs maxl m content)"

text \<open>\<open>readTextFileSnippet(filePath)\<close> with its defaults: \<open>null\<close> (\<open>None\<close>) for a
  missing or unreadable file, fixed texts for an empty file and for one over 1 MiB.\<close>

definition read_text_file_snippet :: "string option \<Rightarrow> string option" where
  "read_text_file_snippet f =
     (case f of None \<Rightarrow> None
      | Some content \<Rightarrow>
          if length content = 0 then Some ''[Empty file]''
          else if snippet_size_limit < length content then Some ''[File too large for preview]''
          else read_snippet_stream snippet_buffer_size snippet_max_lines snippet_max_length_per_line content)"

section \<open>The reference: the first lines of the whole file\<close>

text \<open>The complete (newline-terminated) lines of a text and its unterminated rest.\<close>

fun lines_of :: "string \<Rightarrow> string list \<times> string" where
  "lines_of [] = ([], [])"
| "lines_of (c # cs) =
     (if c = newline then ([] # fst (lines_of cs), snd (lines_of cs))
      else (case lines_of cs of ([], r) \<Rightarrow> ([], c # r) | (l # ls, r) \<Rightarrow> ((c # l) # ls, r)))"

definition text_lines :: "string \<Rightarrow> string list" where
  "text_lines s = (case lines_of s of (ls, r) \<Rightarrow> if r = [] then ls else ls @ [r])"

text \<open>What the function means to show: its first \<open>maxl\<close> lines, each shortened,
  joined by newlines.\<close>

definition snippet_reference :: "nat \<Rightarrow> nat \<Rightarrow> string \<Rightarrow> string" where
  "snippet_reference maxl m s = snippet_render (map (shorten_line m) (take maxl (text_lines s)))"


section \<open>Icons and the completed-file preview\<close>

text \<open>\<open>s.includes(t)\<close> and \<open>s.startsWith(t)\<close>.\<close>

fun js_includes :: "string \<Rightarrow> string \<Rightarrow> bool" where
  "js_includes [] t \<longleftrightarrow> t = []"
| "js_includes (c # s) t \<longleftrightarrow> take (length t) (c # s) = t \<or> js_includes s t"

definition starts_with :: "string \<Rightarrow> string \<Rightarrow> bool" where
  "starts_with s t \<longleftrightarrow> take (length t) s = t"

text \<open>The emoji that \<open>setGenericIcon\<close> writes into the preview: a page, a picture,
  a clapper, a note, a memo, a red book, a clamp, a package.\<close>

datatype file_icon = Icon_page | Icon_picture | Icon_clapper | Icon_note | Icon_memo
  | Icon_red_book | Icon_clamp | Icon_package

text \<open>\<open>setGenericIcon(el, contentType)\<close>: the first category whose marker the
  content type contains; anything that is not a string (\<open>None\<close>) gets the page.\<close>

definition set_generic_icon :: "string option \<Rightarrow> file_icon" where
  "set_generic_icon ct =
     (case ct of None \<Rightarrow> Icon_page
      | Some t \<Rightarrow>
          if js_includes t ''image/'' then Icon_picture
          else if js_includes t ''video/'' then Icon_clapper
          else if js_includes t ''audio/'' then Icon_note
          else if js_includes t ''text/'' then Icon_memo
          else if js_includes t ''application/pdf'' then Icon_red_book
          else if js_includes t ''application/zip'' \<or> js_includes t ''application/x-rar'' then Icon_clamp
          else if js_includes t ''application/'' then Icon_package
          else Icon_page)"

definition text_mime_types :: "string list" where
  "text_mime_types = [''text/plain'', ''text/markdown'', ''application/javascript'', ''text/javascript'',
     ''text/css'', ''text/html'', ''application/json'', ''application/xml'', ''text/xml'']"

text \<open>What the preview element shows: a text snippet, an image loaded from a
  \<open>file:///\<close> URL, or an icon.\<close>

datatype preview = Text_snippet string | Image_preview string | Generic_icon file_icon

text \<open>\<open>`file:///${path.replace(/\\/g, '/')}`\<close>.\<close>

definition file_url :: "path \<Rightarrow> string" where
  "file_url p = ''file:///'' @ map (\<lambda>c. if c = CHR 0x5C then CHR ''/'' else c) p"

text \<open>\<open>setCompletedFilePreview(el, download)\<close>, given the content of the file at the
  target path (\<open>None\<close> when it is missing). The result is what the element shows
  afterwards, \<open>None\<close> when it is left as it was: a text type whose snippet is
  \<open>null\<close> or empty falls through without touching it. A failed image load later
  replaces the image by the picture icon; that callback is not modelled.\<close>

definition set_completed_file_preview :: "download \<Rightarrow> string option \<Rightarrow> preview option" where
  "set_completed_file_preview d f =
     (if target_path d \<noteq> [] \<and> js_to_lower (content_type d) \<in> set text_mime_types then
        (case read_text_file_snippet f of
           None \<Rightarrow> None
         | Some sn \<Rightarrow> if sn = [] then None else Some (Text_snippet sn))
      else if starts_with (content_type d) ''image/'' \<and> target_path d \<noteq> [] then
        Some (Image_preview (file_url (target_path d)))
      else if target_path d \<noteq> [] then
        (if list_ex (ends_with (js_to_lower (target_path d))) image_extensions
         then Some (Image_preview (file_url (target_path d)))
         else Some (Generic_icon (set_generic_icon (Some (content_type d)))))
      else Some (Generic_icon (set_generic_icon None)))"

text \<open>The preview logic of \<open>createOrUpdatePodElement\<close>: the icon chosen when the pod
  is created (line 419), and on an update (lines 503-513) the completed preview,
  once, when the download has succeeded, or the package icon after an error or a
  cancel; \<open>None\<close> leaves the element unchanged.\<close>

definition pod_initial_preview :: "download \<Rightarrow> preview" where
  "pod_initial_preview d =
     Generic_icon (set_generic_icon (Some (if content_type d = [] then ''application/octet-stream'' else content_type d)))"

definition pod_preview_on_update :: "download \<Rightarrow> bool \<Rightarrow> string option \<Rightarrow> preview option" where
  "pod_preview_on_update d done f =
     (if succeeded d then (if done then None else set_completed_file_preview d f)
      else if dl_error d \<noteq> None \<or> canceled d
      then Some (Generic_icon (set_generic_icon (Some ''application/octet-stream'')))
      else None)"

section \<open>Lemmas on lines\<close>

lemma lines_of_no_newline: "newline \<notin> set s \<Longrightarrow> lines_of s = ([], s)"
  by (induction s) auto

lemma lines_of_nil_iff: "fst (lines_of s) = [] \<longleftrightarrow> newline \<notin> set s"
  by (induction s) (auto split: prod.split list.split)

lemma lines_of_split:
  "newline \<notin> set a \<Longrightarrow> lines_of (a @ newline # b) = (a # fst (lines_of b), snd (lines_of b))"
  by (induction a) (auto split: prod.split list.split)

lemma lines_of_append:
  "lines_of (xs @ ys) =
     (case lines_of xs of (l1, r1) \<Rightarrow> (case lines_of (r1 @ ys) of (l2, r2) \<Rightarrow> (l1 @ l2, r2)))"
  by (induction xs) (auto split: prod.split list.split)

lemma split_at_newline:
  "newline \<in> set buf \<Longrightarrow>
   buf = takeWhile (\<lambda>x. x \<noteq> newline) buf @ newline # tl (dropWhile (\<lambda>x. x \<noteq> newline) buf)"
  by (induction buf) auto

lemma lines_of_drain_step:
  "newline \<in> set buf \<Longrightarrow>
   lines_of buf = (takeWhile (\<lambda>x. x \<noteq> newline) buf # fst (lines_of (tl (dropWhile (\<lambda>x. x \<noteq> newline) buf))),
                   snd (lines_of (tl (dropWhile (\<lambda>x. x \<noteq> newline) buf))))"
  by (subst split_at_newline, assumption, subst lines_of_split) (auto dest: set_takeWhileD)

lemma drain_lines_lines:
  "n \<le> maxl \<Longrightarrow> drain_lines maxl m buf n out = (b', n', out') \<Longrightarrow>
   n' = min maxl (n + length (fst (lines_of buf))) \<and>
   out' = out @ map (shorten_line m) (take (maxl - n) (fst (lines_of buf))) \<and>
   (n + length (fst (lines_of buf)) \<le> maxl \<longrightarrow> b' = snd (lines_of buf))"
proof (induction maxl m buf n out arbitrary: b' n' out' rule: drain_lines.induct)
  case (1 maxl m buf n out)
  show ?case
  proof (cases "newline \<in> set buf \<and> n < maxl")
    case True
    let ?a = "takeWhile (\<lambda>x. x \<noteq> newline) buf" and ?b = "tl (dropWhile (\<lambda>x. x \<noteq> newline) buf)"
    have d: "drain_lines maxl m ?b (Suc n) (out @ [shorten_line m ?a]) = (b', n', out')"
      using "1.prems"(2) True by (subst (asm) drain_lines.simps) simp
    have ih: "n' = min maxl (Suc n + length (fst (lines_of ?b))) \<and>
       out' = (out @ [shorten_line m ?a]) @ map (shorten_line m) (take (maxl - Suc n) (fst (lines_of ?b))) \<and>
       (Suc n + length (fst (lines_of ?b)) \<le> maxl \<longrightarrow> b' = snd (lines_of ?b))"
      using "1.IH" [OF True _ d] True by simp
    have "maxl - n = Suc (maxl - Suc n)" using True Suc_diff_Suc [of n maxl] by linarith
    then show ?thesis using ih lines_of_drain_step [of buf] True by simp
  next
    case False
    then have "b' = buf \<and> n' = n \<and> out' = out"
      using "1.prems"(2) False by (subst (asm) drain_lines.simps) auto
    moreover have "newline \<notin> set buf \<or> n = maxl" using False "1.prems"(1) by auto
    ultimately show ?thesis
      using lines_of_no_newline [of buf] lines_of_nil_iff [of buf] "1.prems"(1) by auto
  qed
qed

lemma lines_of_last_newline: "s \<noteq> [] \<Longrightarrow> last s = newline \<Longrightarrow> snd (lines_of s) = []"
proof (induction s)
  case (Cons c cs)
  show ?case
  proof (cases "cs = []")
    case True then show ?thesis using Cons.prems by simp
  next
    case False
    then have r: "snd (lines_of cs) = []" and l: "fst (lines_of cs) \<noteq> []"
      using Cons lines_of_nil_iff [of cs] last_in_set [of cs] by auto
    then show ?thesis by (auto split: list.split prod.split)
  qed
qed simp

lemma text_lines_append:
  "text_lines (xs @ ys) = fst (lines_of xs) @ text_lines (snd (lines_of xs) @ ys)"
  by (simp add: text_lines_def lines_of_append [of xs ys] split: prod.split)

lemma text_lines_length: "length (text_lines s) \<le> Suc (length (fst (lines_of s)))"
  by (simp add: text_lines_def split: prod.split)

lemma text_lines_nil: "snd (lines_of s) = [] \<Longrightarrow> text_lines s = fst (lines_of s)"
  by (cases "lines_of s") (simp add: text_lines_def)

lemma text_lines_cons: "snd (lines_of s) \<noteq> [] \<Longrightarrow> text_lines s = fst (lines_of s) @ [snd (lines_of s)]"
  by (cases "lines_of s") (simp add: text_lines_def)

text \<open>C29. The streaming reader always finishes: whatever the buffer size and
  the file, the outer \<open>while\<close> loop stops (each turn consumes a chunk or meets
  the end of the file).\<close>

theorem snippet_loop_terminates: "\<exists>st. snippet_loop bs maxl m content = Some st"
  unfolding snippet_loop_def
  by (rule measure_while_option_Some [where P = "\<lambda>_. True" and
        f = "\<lambda>st. length (unread st) + (if at_eof st then 0 else 1)"])
     (auto simp: snippet_turn_def Let_def split: prod.split)

section \<open>Lemmas on the streaming reader\<close>

text \<open>The loop invariant: the consumed prefix \<open>pre\<close> of the file has been split into
  lines; before the end of the file the output holds its first complete lines
  and the buffer its unterminated rest, at the end also that rest.\<close>

definition snippet_inv :: "nat \<Rightarrow> nat \<Rightarrow> string \<Rightarrow> snippet_st \<Rightarrow> bool" where
  "snippet_inv maxl m content st \<longleftrightarrow> (\<exists>pre. content = pre @ unread st \<and>
     (if at_eof st
      then unread st = [] \<and> length (fst (lines_of pre)) < maxl \<and> line_buffer st = snd (lines_of pre) \<and>
           lines_read st = length (text_lines pre) \<and> output_lines st = map (shorten_line m) (text_lines pre)
      else lines_read st = min maxl (length (fst (lines_of pre))) \<and>
           output_lines st = map (shorten_line m) (take maxl (fst (lines_of pre))) \<and>
           (length (fst (lines_of pre)) \<le> maxl \<longrightarrow> line_buffer st = snd (lines_of pre))))"

lemma snippet_inv_start: "snippet_inv maxl m content (snippet_start content)"
  unfolding snippet_inv_def snippet_start_def by (rule exI [of _ "[]"]) simp

lemma snippet_turn_inv:
  assumes bs: "0 < bs" and inv: "snippet_inv maxl m content st"
    and run: "\<not> at_eof st" "lines_read st < maxl"
  shows "snippet_inv maxl m content (snippet_turn bs maxl m st)"
proof -
  obtain pre where c: "content = pre @ unread st"
    and st: "lines_read st = min maxl (length (fst (lines_of pre)))"
      "output_lines st = map (shorten_line m) (take maxl (fst (lines_of pre)))"
      "length (fst (lines_of pre)) \<le> maxl \<longrightarrow> line_buffer st = snd (lines_of pre)"
    using inv run unfolding snippet_inv_def by auto
  define ls r where "ls = fst (lines_of pre)" and "r = snd (lines_of pre)"
  have lt: "length ls < maxl" using st(1) run(2) unfolding ls_def by simp
  then have buf: "line_buffer st = r" and out: "output_lines st = map (shorten_line m) ls"
    and rd: "lines_read st = length ls"
    using st unfolding ls_def r_def by auto
  show ?thesis
  proof (cases "take bs (unread st) = []")
    case True
    then have "unread st = []" using bs by simp
    show ?thesis
    proof (cases "r = []")
      case r: True
      have "snippet_turn bs maxl m st = st\<lparr>at_eof := True\<rparr>"
        using True buf r by (simp add: snippet_turn_def)
      then show ?thesis
        unfolding snippet_inv_def using c lt buf out rd r text_lines_nil [of pre] \<open>unread st = []\<close>
        by (intro exI [of _ pre]) (simp add: ls_def r_def)
    next
      case r: False
      have "snippet_turn bs maxl m st = st\<lparr>output_lines := output_lines st @ [shorten_line m r],
                    lines_read := Suc (lines_read st), at_eof := True\<rparr>"
        using True buf r by (simp add: snippet_turn_def)
      then show ?thesis
        unfolding snippet_inv_def using c lt buf out rd r text_lines_cons [of pre] \<open>unread st = []\<close>
        by (intro exI [of _ pre]) (simp add: ls_def r_def)
    qed
  next
    case False
    obtain b' n' out' where d: "drain_lines maxl m (r @ take bs (unread st)) (length ls) (map (shorten_line m) ls) = (b', n', out')"
      by (metis prod.collapse)
    define ls2 r2 where "ls2 = fst (lines_of (r @ take bs (unread st)))" and "r2 = snd (lines_of (r @ take bs (unread st)))"
    have l': "lines_of (pre @ take bs (unread st)) = (ls @ ls2, r2)"
      by (simp add: lines_of_append [of pre] ls_def r_def ls2_def r2_def split: prod.split)
    have dr: "n' = min maxl (length ls + length ls2) \<and>
       out' = map (shorten_line m) ls @ map (shorten_line m) (take (maxl - length ls) ls2) \<and>
       (length ls + length ls2 \<le> maxl \<longrightarrow> b' = r2)"
      using drain_lines_lines [OF _ d] lt unfolding ls2_def r2_def by simp
    have tk: "take maxl (ls @ ls2) = ls @ take (maxl - length ls) ls2" using lt by simp
    have "snippet_turn bs maxl m st = st\<lparr>unread := drop bs (unread st), line_buffer := b', lines_read := n',
                   output_lines := out'\<rparr>"
      using False d buf rd out by (simp add: snippet_turn_def Let_def)
    then show ?thesis
      unfolding snippet_inv_def using c run(1) l' dr tk
      by (intro exI [of _ "pre @ take bs (unread st)"]) simp
  qed
qed

lemma snippet_loop_result:
  assumes bs: "0 < bs" and run: "snippet_loop bs maxl m content = Some st"
  shows "snippet_finish maxl m st =
    snippet_render (map (shorten_line m) (take maxl (text_lines content)) @
      (if snd (lines_of content) \<noteq> [] \<and> Suc (length (fst (lines_of content))) < maxl
       then [shorten_line m (snd (lines_of content))] else []))"
proof -
  have inv: "snippet_inv maxl m content st"
    by (rule while_option_rule [where P = "snippet_inv maxl m content",
          OF _ run [unfolded snippet_loop_def] snippet_inv_start])
       (auto intro: snippet_turn_inv [OF bs])
  have stop: "at_eof st \<or> maxl \<le> lines_read st"
    using while_option_stop [OF run [unfolded snippet_loop_def]] by auto
  obtain pre where c: "content = pre @ unread st" and pi:
     "if at_eof st
      then unread st = [] \<and> length (fst (lines_of pre)) < maxl \<and> line_buffer st = snd (lines_of pre) \<and>
           lines_read st = length (text_lines pre) \<and> output_lines st = map (shorten_line m) (text_lines pre)
      else lines_read st = min maxl (length (fst (lines_of pre))) \<and>
           output_lines st = map (shorten_line m) (take maxl (fst (lines_of pre))) \<and>
           (length (fst (lines_of pre)) \<le> maxl \<longrightarrow> line_buffer st = snd (lines_of pre))"
    using inv unfolding snippet_inv_def by blast
  show ?thesis
  proof (cases "at_eof st")
    case True
    then have e: "pre = content" "length (fst (lines_of content)) < maxl"
       "line_buffer st = snd (lines_of content)" "lines_read st = length (text_lines content)"
       "output_lines st = map (shorten_line m) (text_lines content)"
      using c pi by auto
    have tk: "take maxl (text_lines content) = text_lines content"
      using text_lines_length [of content] e(2) by simp
    show ?thesis
    proof (cases "snd (lines_of content) = []")
      case True
      then show ?thesis using e tk by (simp add: snippet_finish_def)
    next
      case False
      then show ?thesis using e tk text_lines_cons [of content] by (simp add: snippet_finish_def)
    qed
  next
    case False
    then have big: "maxl \<le> length (fst (lines_of pre))"
      and o: "output_lines st = map (shorten_line m) (take maxl (fst (lines_of pre)))"
      and rd: "lines_read st = maxl"
      using pi stop by auto
    have tl: "text_lines content = fst (lines_of pre) @ text_lines (snd (lines_of pre) @ unread st)"
      using c text_lines_append [of pre "unread st"] by simp
    have "length (fst (lines_of pre)) \<le> length (fst (lines_of content))"
      using c lines_of_append [of pre "unread st"] by (simp split: prod.split)
    then show ?thesis using big o rd tl by (simp add: snippet_finish_def)
  qed
qed

lemma read_snippet_stream_lines:
  "0 < bs \<Longrightarrow> read_snippet_stream bs maxl m content =
    Some (snippet_render (map (shorten_line m) (take maxl (text_lines content)) @
      (if snd (lines_of content) \<noteq> [] \<and> Suc (length (fst (lines_of content))) < maxl
       then [shorten_line m (snd (lines_of content))] else [])))"
  using snippet_loop_terminates [of bs maxl m content] snippet_loop_result [of bs maxl m content]
  by (auto simp: read_snippet_stream_def)

text \<open>C30. Reading by chunks is reading the whole file: for every positive buffer
  size, when the file ends with a newline or has at least \<open>maxLines - 1\<close>
  complete lines, the streaming reader returns exactly the first \<open>maxLines\<close>
  lines of the file, each trimmed and shortened, joined by newlines.\<close>

theorem read_snippet_stream_reference:
  "0 < bs \<Longrightarrow> snd (lines_of content) = [] \<or> maxl \<le> Suc (length (fst (lines_of content))) \<Longrightarrow>
   read_snippet_stream bs maxl m content = Some (snippet_reference maxl m content)"
  by (auto simp: read_snippet_stream_lines snippet_reference_def)

text \<open>C31. The last line is read twice: when the file ends without a newline and
  has fewer than \<open>maxLines - 1\<close> complete lines, the end-of-file branch pushes the
  buffered last line and the code after the loop pushes the same buffer again,
  so the snippet shows that line twice (\<open>abc\<close> reads as two lines \<open>abc\<close>).\<close>

theorem snippet_duplicates_last_line:
  "0 < bs \<Longrightarrow> lines_of content = (ls, r) \<Longrightarrow> r \<noteq> [] \<Longrightarrow> Suc (length ls) < maxl \<Longrightarrow>
   read_snippet_stream bs maxl m content = Some (snippet_render (map (shorten_line m) ls @ [shorten_line m r, shorten_line m r]))"
  by (simp add: read_snippet_stream_lines text_lines_def)

theorem read_snippet_stream_reference_witness:
  "read_text_file_snippet (Some (''ab'' @ [newline] @ ''cd'' @ [newline])) = Some (''ab'' @ [newline] @ ''cd'') \<and>
   read_snippet_stream 4096 5 80 (''ab'' @ [newline] @ ''cd'' @ [newline]) = Some (snippet_reference 5 80 (''ab'' @ [newline] @ ''cd'' @ [newline]))"
proof
  show "read_snippet_stream 4096 5 80 (''ab'' @ [newline] @ ''cd'' @ [newline]) = Some (snippet_reference 5 80 (''ab'' @ [newline] @ ''cd'' @ [newline]))"
    by (rule read_snippet_stream_reference) (simp_all add: newline_def)
  then show "read_text_file_snippet (Some (''ab'' @ [newline] @ ''cd'' @ [newline])) = Some (''ab'' @ [newline] @ ''cd'')"
    by (simp add: read_text_file_snippet_def snippet_size_limit_def snippet_buffer_size_def snippet_max_lines_def
        snippet_max_length_per_line_def snippet_reference_def snippet_render_def text_lines_def newline_def
        shorten_line_def js_trim_end_def js_is_space_def)
qed

theorem snippet_duplicates_last_line_witness:
  "read_text_file_snippet (Some ''abc'') = Some (''abc'' @ [newline] @ ''abc'')"
proof -
  have "read_snippet_stream 4096 5 80 ''abc'' =
        Some (snippet_render (map (shorten_line 80) [] @ [shorten_line 80 ''abc'', shorten_line 80 ''abc'']))"
    by (rule snippet_duplicates_last_line) (simp_all add: newline_def)
  then show ?thesis
    by (simp add: read_text_file_snippet_def snippet_size_limit_def snippet_buffer_size_def snippet_max_lines_def
        snippet_max_length_per_line_def snippet_render_def shorten_line_def js_trim_end_def js_is_space_def)
qed

text \<open>C32. A completed text download shows the first lines of its file: for a
  download with a target path and one of the text MIME types, whose file is
  non-empty, at most 1 MiB and ends with a newline, the preview is the text
  snippet of the whole-file reference (five lines of at most 80 characters), or
  is left unchanged when that snippet is the empty string.\<close>

theorem completed_text_preview:
  assumes "target_path d \<noteq> []" "js_to_lower (content_type d) \<in> set text_mime_types"
    and "content \<noteq> []" "length content \<le> snippet_size_limit" "last content = newline"
  shows "set_completed_file_preview d (Some content) =
    (let sn = snippet_reference snippet_max_lines snippet_max_length_per_line content
     in if sn = [] then None else Some (Text_snippet sn))"
proof -
  have "read_snippet_stream snippet_buffer_size snippet_max_lines snippet_max_length_per_line content =
        Some (snippet_reference snippet_max_lines snippet_max_length_per_line content)"
    by (rule read_snippet_stream_reference)
       (simp_all add: snippet_buffer_size_def lines_of_last_newline assms)
  then show ?thesis using assms
    by (simp add: set_completed_file_preview_def read_text_file_snippet_def Let_def)
qed

theorem completed_text_preview_witness:
  "set_completed_file_preview ((demo_download ''/d/a.txt'')\<lparr>content_type := ''text/plain''\<rparr>) (Some (''hello'' @ [newline]))
   = Some (Text_snippet ''hello'')"
proof -
  have "set_completed_file_preview ((demo_download ''/d/a.txt'')\<lparr>content_type := ''text/plain''\<rparr>) (Some (''hello'' @ [newline]))
    = (let sn = snippet_reference snippet_max_lines snippet_max_length_per_line (''hello'' @ [newline])
       in if sn = [] then None else Some (Text_snippet sn))"
    by (rule completed_text_preview)
       (simp_all add: demo_download_def text_mime_types_def js_simps snippet_size_limit_def newline_def)
  then show ?thesis
    by (simp add: snippet_reference_def snippet_max_lines_def snippet_max_length_per_line_def snippet_render_def
        text_lines_def newline_def shorten_line_def js_trim_end_def js_is_space_def)
qed

end
