(* ===== verification/PileHover.thy ===== *)
theory PileHover
  imports DismissedPile Preview
begin

text \<open>
  The pointer handlers of \<open>src/zen-stuff.uc.js\<close> around the dismissed pile
  (lines 634-708): the downloads button (and the main script's container), the
  dynamic sizer and the pile container each have an enter and a leave handler,
  and all of them share one debounce timer \<open>hoverTimeout\<close>: every handler clears
  it, the button's enter and every leave arm it again. Also the pod actions of
  \<open>createPodElement\<close> (lines 403-425): a double click restores the pod through
  the main script and a confirmed context menu deletes it, both removing the pod
  from the pile. The pointer's position when a timer fires, whether the main
  script has pods (\<open>shouldDisableHover\<close>, lines 1043-1067), the outcome of
  \<open>restorePod\<close> and the answer to \<open>confirm\<close> are inputs of the events.
\<close>

section \<open>The debounce timer\<close>

text \<open>What the pending \<open>hoverTimeout\<close> will do when it fires: show the pile (armed
  by the button's enter), or hide it unless the pointer is over one of the areas
  the arming leave handler checks.\<close>

datatype hover_action = Timed_show | Timed_hide_button | Timed_hide_sizer | Timed_hide_pile

text \<open>Where the pointer is when the timer fires (\<open>:hover\<close> of the downloads button
  or the main container, of the pile container and of the dynamic sizer).\<close>

record pointer =
  over_download_area :: bool
  over_pile :: bool
  over_sizer :: bool

record hover_state =
  pile :: pile_state
  hover_timeout :: "hover_action option"

definition hover_start :: "pile_state \<Rightarrow> hover_state" where
  "hover_start s = \<lparr>pile = s, hover_timeout = None\<rparr>"

section \<open>Handlers\<close>

text \<open>\<open>handleDownloadButtonHover\<close>: nothing on an empty pile or while the main script
  shows pods; else re-arm the timer to show the pile.\<close>

definition handle_download_button_hover :: "bool \<Rightarrow> hover_state \<Rightarrow> hover_state" where
  "handle_download_button_hover busy h =
     (if dismissed (pile h) = [] then h
      else if busy then h
      else h\<lparr>hover_timeout := Some Timed_show\<rparr>)"

text \<open>\<open>handleDownloadButtonLeave\<close>: nothing while the main script shows pods; else
  re-arm the timer to hide.\<close>

definition handle_download_button_leave :: "bool \<Rightarrow> hover_state \<Rightarrow> hover_state" where
  "handle_download_button_leave busy h =
     (if busy then h else h\<lparr>hover_timeout := Some Timed_hide_button\<rparr>)"

definition handle_dynamic_sizer_hover :: "hover_state \<Rightarrow> hover_state" where
  "handle_dynamic_sizer_hover h =
     (let h1 = h\<lparr>hover_timeout := None\<rparr>
      in if dismissed (pile h) \<noteq> [] then h1\<lparr>pile := show_pile (pile h1)\<rparr> else h1)"

definition handle_dynamic_sizer_leave :: "hover_state \<Rightarrow> hover_state" where
  "handle_dynamic_sizer_leave h = h\<lparr>hover_timeout := Some Timed_hide_sizer\<rparr>"

definition handle_pile_hover :: "hover_state \<Rightarrow> hover_state" where
  "handle_pile_hover h =
     (let h1 = h\<lparr>hover_timeout := None\<rparr>
      in if \<not> grid_mode (pile h) then h1\<lparr>pile := transition_to_grid (pile h1)\<rparr> else h1)"

definition handle_pile_leave :: "hover_state \<Rightarrow> hover_state" where
  "handle_pile_leave h = h\<lparr>hover_timeout := Some Timed_hide_pile\<rparr>"

text \<open>The timer's callback: the action armed last, with the pointer of that moment.\<close>

definition hover_action_hides :: "hover_action \<Rightarrow> pointer \<Rightarrow> bool" where
  "hover_action_hides a p =
     (case a of
        Timed_show \<Rightarrow> False
      | Timed_hide_button \<Rightarrow> \<not> over_download_area p \<and> \<not> over_pile p \<and> \<not> over_sizer p
      | Timed_hide_sizer \<Rightarrow> \<not> over_download_area p \<and> \<not> over_pile p
      | Timed_hide_pile \<Rightarrow> \<not> over_download_area p \<and> \<not> over_sizer p)"

definition hover_timer_fire :: "pointer \<Rightarrow> hover_state \<Rightarrow> hover_state" where
  "hover_timer_fire p h =
     (case hover_timeout h of
        None \<Rightarrow> h
      | Some a \<Rightarrow>
          let h1 = h\<lparr>hover_timeout := None\<rparr>
          in if a = Timed_show then h1\<lparr>pile := show_pile (pile h1)\<rparr>
             else if hover_action_hides a p then h1\<lparr>pile := hide_pile (pile h1)\<rparr>
             else h1)"

text \<open>The pod's double click (\<open>restorePod(key)\<close> resolving to \<open>ok\<close>) and context
  menu (\<open>confirm\<close> answering \<open>yes\<close>; the main script's \<open>permanentDelete\<close> is
  outside the pile).\<close>

definition pod_restore :: "key \<Rightarrow> bool \<Rightarrow> pile_state \<Rightarrow> pile_state" where
  "pod_restore k ok s = (if ok then remove_pod_from_pile k s else s)"

definition pod_delete :: "key \<Rightarrow> bool \<Rightarrow> pile_state \<Rightarrow> pile_state" where
  "pod_delete k yes s = (if yes then remove_pod_from_pile k s else s)"

text \<open>\<open>getFileIcon(contentType)\<close> (lines 429-440), the pile's copy of the main script's
  \<open>setGenericIcon\<close> choice: a missing or empty type gets the page.\<close>

definition get_file_icon :: "string option \<Rightarrow> file_icon" where
  "get_file_icon ct =
     (case ct of None \<Rightarrow> Icon_page
      | Some t \<Rightarrow>
          if t = [] then Icon_page
          else if js_includes t ''image/'' then Icon_picture
          else if js_includes t ''video/'' then Icon_clapper
          else if js_includes t ''audio/'' then Icon_note
          else if js_includes t ''text/'' then Icon_memo
          else if js_includes t ''application/pdf'' then Icon_red_book
          else if js_includes t ''application/zip'' \<or> js_includes t ''application/x-rar'' then Icon_clamp
          else if js_includes t ''application/'' then Icon_package
          else Icon_page)"

text \<open>\<open>updateDownloadsButtonVisibility\<close> (lines 1029-1040), run after every addition
  and removal: the downloads button is shown when more than six pods are dismissed.\<close>

definition downloads_button_shown :: "pile_state \<Rightarrow> bool" where
  "downloads_button_shown s \<longleftrightarrow> 6 < length (dismissed s)"

section \<open>Events\<close>

text \<open>The listeners exist once \<open>init\<close> has run (\<open>setupEventListeners\<close>); a pod's
  own listeners exist while its node does. Other events are those of
  \<open>pile_step\<close>.\<close>

datatype hover_event =
    Button_enter bool
  | Button_leave bool
  | Sizer_enter
  | Sizer_leave
  | Pile_enter
  | Pile_leave
  | Hover_timer pointer
  | Pod_dblclick key bool
  | Pod_contextmenu key bool
  | Pile_event pile_event

fun hover_step :: "bool \<Rightarrow> hover_state \<Rightarrow> hover_event \<Rightarrow> hover_state" where
  "hover_step api h (Pile_event e) = h\<lparr>pile := pile_step api (pile h) e\<rparr>"
| "hover_step api h e =
     (if \<not> initialized (pile h) then h
      else case e of
        Button_enter busy \<Rightarrow> handle_download_button_hover busy h
      | Button_leave busy \<Rightarrow> handle_download_button_leave busy h
      | Sizer_enter \<Rightarrow> handle_dynamic_sizer_hover h
      | Sizer_leave \<Rightarrow> handle_dynamic_sizer_leave h
      | Pile_enter \<Rightarrow> handle_pile_hover h
      | Pile_leave \<Rightarrow> handle_pile_leave h
      | Hover_timer p \<Rightarrow> hover_timer_fire p h
      | Pod_dblclick k ok \<Rightarrow> (if k \<in> elements (pile h) then h\<lparr>pile := pod_restore k ok (pile h)\<rparr> else h)
      | Pod_contextmenu k yes \<Rightarrow> (if k \<in> elements (pile h) then h\<lparr>pile := pod_delete k yes (pile h)\<rparr> else h)
      | Pile_event e \<Rightarrow> h)"

fun hover_run :: "bool \<Rightarrow> hover_state \<Rightarrow> hover_event list \<Rightarrow> hover_state" where
  "hover_run api h [] = h"
| "hover_run api h (e # es) = hover_run api (hover_step api h e) es"


definition away :: pointer where
  "away = \<lparr>over_download_area = False, over_pile = False, over_sizer = False\<rparr>"

text \<open>The pile of \<open>demo_pile_tie\<close> (two pods, listeners registered), shown.\<close>

definition demo_hover :: hover_state where
  "demo_hover = hover_start (show_pile demo_pile_tie)"

section \<open>Lemmas on the pointer handlers\<close>

text \<open>The two scripts pick the same icon for every content type.\<close>

lemma get_file_icon_generic: "get_file_icon ct = set_generic_icon ct"
  by (cases ct) (auto simp: get_file_icon_def set_generic_icon_def)

lemma hover_step_inv: "pile_inv (pile h) \<Longrightarrow> pile_inv (pile (hover_step api h e))"
  by (cases e)
     (auto simp: pile_step_inv handle_download_button_hover_def handle_download_button_leave_def
        handle_dynamic_sizer_hover_def handle_dynamic_sizer_leave_def handle_pile_hover_def handle_pile_leave_def
        hover_timer_fire_def pod_restore_def pod_delete_def remove_pod_inv transition_to_grid_inv Let_def
        split: option.split)

lemma hover_run_inv: "pile_inv (pile h) \<Longrightarrow> pile_inv (pile (hover_run api h es))"
  by (induction es arbitrary: h) (auto simp: hover_step_inv)

lemma show_pile_shown: "pile_shown s \<Longrightarrow> pile_shown (show_pile s)"
  by (simp add: show_pile_def)

lemma hide_pile_hidden [simp]: "pile_shown (hide_pile s) = False"
  by (simp add: hide_pile_def transition_to_pile_def Let_def)

lemma hover_frame [simp]:
  "pile (handle_download_button_leave b h) = pile h"
  "hover_timeout (handle_download_button_leave b h) = (if b then hover_timeout h else Some Timed_hide_button)"
  "hover_timeout (handle_dynamic_sizer_hover h) = None"
  "initialized (pile (handle_dynamic_sizer_hover h)) = initialized (pile h)"
  by (simp_all add: handle_download_button_leave_def handle_dynamic_sizer_hover_def Let_def show_pile_def)

lemma hover_timer_idle [simp]: "hover_timeout h = None \<Longrightarrow> hover_timer_fire p h = h"
  by (simp add: hover_timer_fire_def)


text \<open>C37. The debounce cancels a pending hide: when the pointer leaves the
  downloads button and enters the dynamic sizer before the timer fires, the shown
  pile stays shown wherever the pointer is when the timer fires.\<close>

theorem sizer_enter_cancels_hide:
  assumes "initialized (pile h)" "pile_shown (pile h)"
  shows "pile_shown (pile (hover_run api h [Button_leave False, Sizer_enter, Hover_timer p])) \<and>
         hover_timeout (hover_run api h [Button_leave False, Sizer_enter, Hover_timer p]) = None"
  using assms
  by (simp add: handle_dynamic_sizer_hover_def handle_download_button_leave_def Let_def show_pile_shown)

text \<open>C38. While the main script shows pods, leaving the downloads button never
  hides an open pile: the leave handler returns before arming the timer, so even
  with the pointer away from every area the pile stays open; when the main script
  is idle the same leave hides it.\<close>

theorem busy_leave_keeps_pile_open:
  assumes "initialized (pile h)" "pile_shown (pile h)" "hover_timeout h = None"
  shows "pile_shown (pile (hover_run api h [Button_leave True, Hover_timer away])) \<and>
         \<not> pile_shown (pile (hover_run api h [Button_leave False, Hover_timer away]))"
  using assms
  by (simp add: handle_download_button_leave_def hover_timer_fire_def hover_action_hides_def away_def)


text \<open>A pod's double click whose \<open>restorePod\<close> succeeds removes exactly that pod
  from the pile and keeps the order of the others; a failed restore leaves the
  pile as it was.\<close>

lemma pod_dblclick_restores:
  assumes "initialized (pile h)" "pile_inv (pile h)" "k \<in> elements (pile h)"
  shows "map fst (dismissed (pile (hover_step api h (Pod_dblclick k ok)))) =
    (if ok then remove1 k (map fst (dismissed (pile h))) else map fst (dismissed (pile h)))"
  using assms by (simp add: pod_restore_def remove_pod_keys)

lemma demo_hover_ready: "initialized (pile demo_hover) \<and> pile_shown (pile demo_hover) \<and> hover_timeout demo_hover = None"
  by (simp add: demo_hover_def hover_start_def show_pile_def demo_pile_eval)

theorem sizer_enter_cancels_hide_witness:
  "pile_shown (pile (hover_run True demo_hover [Button_leave False, Sizer_enter, Hover_timer away]))"
  using sizer_enter_cancels_hide [of demo_hover True away] demo_hover_ready by simp

theorem busy_leave_keeps_pile_open_witness:
  "pile_shown (pile (hover_run True demo_hover [Button_leave True, Hover_timer away])) \<and>
   \<not> pile_shown (pile (hover_run True demo_hover [Button_leave False, Hover_timer away]))"
  using busy_leave_keeps_pile_open [of demo_hover True] demo_hover_ready by simp

end
