(* ===== verification/Widths.thy ===== *)
theory Widths
  imports DismissedPile
begin

text \<open>
  The width synchronisation of both scripts with the Zen sidebar: in
  \<open>src/tidy-downloads.uc.js\<close>, \<open>updateCurrentZenSidebarWidth\<close>,
  \<open>initSidebarWidthSync\<close> and \<open>applyGlobalWidthToAllTooltips\<close> (lines 1981-2091),
  which keep the master tooltip \<open>20px\<close> narrower than the CSS variable
  \<open>--zen-sidebar-width\<close>; in \<open>src/zen-stuff.uc.js\<close>, \<open>updatePileContainerWidth\<close>
  (lines 931-967) and the geometry \<open>showPile\<close> and \<open>recalculateLayout\<close> derive
  from it. The CSS values are strings, as in the code; \<open>parseFloat\<close> and the
  rendering of numbers in template literals are modelled on decimals.
\<close>

section \<open>JavaScript numbers as decimals\<close>

text \<open>A decimal \<open>(m, e)\<close> stands for \<open>m / 10^e\<close>. The numbers these functions
  compute are sums, halves and quarters of decimal lengths, which a double holds
  exactly as long as they have at most 15 significant digits; for those,
  \<open>Number.prototype.toString\<close> gives the shortest decimal, which is what
  \<open>js_number_string\<close> prints. This is not IEEE 754 arithmetic beyond that range.\<close>

type_synonym decimal = "int \<times> nat"

definition dec_value :: "decimal \<Rightarrow> real" where
  "dec_value d = real_of_int (fst d) / 10 ^ snd d"

definition digit_val :: "char \<Rightarrow> nat" where
  "digit_val c = of_char c - 48"

definition digits_val :: "string \<Rightarrow> nat" where
  "digits_val ds = foldl (\<lambda>n c. 10 * n + digit_val c) 0 ds"

text \<open>\<open>parseFloat(s)\<close>: leading white space, an optional sign, then the longest
  prefix of the form \<open>digits[.digits]\<close> with at least one digit; \<open>None\<close> is
  \<open>NaN\<close>. Exponents and \<open>Infinity\<close> are not modelled (no CSS length the scripts
  read has them).\<close>

definition js_parse_float :: "string \<Rightarrow> decimal option" where
  "js_parse_float s =
     (let t = dropWhile js_is_space s;
          (neg, u) = (case t of
                        c # r \<Rightarrow> if c = CHR ''-'' then (True, r) else if c = CHR ''+'' then (False, r) else (False, t)
                      | [] \<Rightarrow> (False, []));
          ip = takeWhile is_ascii_digit u;
          v = dropWhile is_ascii_digit u;
          fp = (case v of c # r \<Rightarrow> if c = CHR ''.'' then takeWhile is_ascii_digit r else [] | [] \<Rightarrow> []);
          m = int (digits_val (ip @ fp))
      in if ip = [] \<and> fp = [] then None else Some (if neg then - m else m, length fp))"

text \<open>\<open>`${x}`\<close> of a number: sign, integer part, and the fraction without its
  trailing zeros; \<open>NaN\<close> for \<open>None\<close>.\<close>

definition pad_digits :: "nat \<Rightarrow> string \<Rightarrow> string" where
  "pad_digits e ds = replicate (e - length ds) (CHR ''0'') @ ds"

definition js_number_string :: "decimal \<Rightarrow> string" where
  "js_number_string d =
     (let a = nat \<bar>fst d\<bar>; e = snd d;
          fs = rev (dropWhile (\<lambda>c. c = CHR ''0'') (rev (pad_digits e (dec_string (a mod 10 ^ e)))))
      in (if fst d < 0 then ''-'' else []) @ dec_string (a div 10 ^ e) @ (if fs = [] then [] else CHR ''.'' # fs))"

definition js_number_string_opt :: "decimal option \<Rightarrow> string" where
  "js_number_string_opt d = (case d of None \<Rightarrow> ''NaN'' | Some x \<Rightarrow> js_number_string x)"

text \<open>Sum, difference, halving, quartering and \<open>Math.max\<close> on decimals.\<close>

definition dec_align :: "decimal \<Rightarrow> nat \<Rightarrow> int" where
  "dec_align d e = fst d * 10 ^ (e - snd d)"

definition dec_add :: "decimal \<Rightarrow> decimal \<Rightarrow> decimal" where
  "dec_add a b = (let e = max (snd a) (snd b) in (dec_align a e + dec_align b e, e))"

definition dec_sub :: "decimal \<Rightarrow> decimal \<Rightarrow> decimal" where
  "dec_sub a b = dec_add a (- fst b, snd b)"

definition dec_half :: "decimal \<Rightarrow> decimal" where
  "dec_half d = (fst d * 5, Suc (snd d))"

definition dec_quarter :: "decimal \<Rightarrow> decimal" where
  "dec_quarter d = (fst d * 25, snd d + 2)"

definition dec_le :: "decimal \<Rightarrow> decimal \<Rightarrow> bool" where
  "dec_le a b \<longleftrightarrow> (let e = max (snd a) (snd b) in dec_align a e \<le> dec_align b e)"

definition js_max :: "decimal \<Rightarrow> decimal \<Rightarrow> decimal" where
  "js_max a b = (if dec_le a b then b else a)"

section \<open>The tooltip width\<close>

text \<open>The global \<open>currentZenSidebarWidth\<close> and the \<open>style.width\<close> of the master
  tooltip (\<open>None\<close> while there is no tooltip element).\<close>

record tooltip_width_state =
  current_zen_sidebar_width :: string
  tooltip_style_width :: "string option"

text \<open>\<open>applyGlobalWidthToAllTooltips\<close>: a usable sidebar width \<open>w\<close> gives
  \<open>calc(w - 20px)\<close>, anything else the default \<open>350px\<close>.\<close>

definition tooltip_width_for :: "string \<Rightarrow> string" where
  "tooltip_width_for w =
     (if w \<noteq> [] \<and> w \<noteq> ''0px'' \<and> js_parse_float w \<noteq> None then ''calc('' @ w @ '' - 20px)'' else ''350px'')"

definition apply_global_width_to_all_tooltips :: "tooltip_width_state \<Rightarrow> tooltip_width_state" where
  "apply_global_width_to_all_tooltips st =
     (case tooltip_style_width st of
        None \<Rightarrow> st
      | Some _ \<Rightarrow> st\<lparr>tooltip_style_width := Some (tooltip_width_for (current_zen_sidebar_width st))\<rparr>)"

text \<open>\<open>updateCurrentZenSidebarWidth\<close>, given the computed value of
  \<open>--zen-sidebar-width\<close> on \<open>#navigator-toolbox\<close> (\<open>None\<close> without the toolbox,
  the empty string when the variable is unset): a new non-zero value is stored
  and applied; an empty or zero value clears the stored one and applies the
  default; an unchanged value does nothing.\<close>

definition update_current_zen_sidebar_width :: "string option \<Rightarrow> tooltip_width_state \<Rightarrow> tooltip_width_state" where
  "update_current_zen_sidebar_width tv st =
     (case tv of
        None \<Rightarrow> st
      | Some raw \<Rightarrow>
          let v = js_trim raw
          in if v \<noteq> [] \<and> v \<noteq> ''0px'' then
               (if current_zen_sidebar_width st \<noteq> v
                then apply_global_width_to_all_tooltips (st\<lparr>current_zen_sidebar_width := v\<rparr>) else st)
             else if current_zen_sidebar_width st \<noteq> []
             then apply_global_width_to_all_tooltips (st\<lparr>current_zen_sidebar_width := []\<rparr>)
             else st)"

text \<open>\<open>initSidebarWidthSync\<close> registers a mutation observer on the compact-mode
  attribute of \<open>#main-window\<close> and a resize observer on the toolbox, each only when
  its element exists, and runs one update. The resize observer is debounced by
  250 ms with \<open>resizeTimeoutId\<close>; when its timer fires it runs the update once per
  entry of the last batch.\<close>

record sidebar_sync =
  tooltip_state :: tooltip_width_state
  observes_compact_mode :: bool
  observes_resize :: bool
  resize_timeout :: "nat option"    \<comment> \<open>pending timer, with the number of entries\<close>

definition init_sidebar_width_sync ::
  "bool \<Rightarrow> bool \<Rightarrow> string option \<Rightarrow> tooltip_width_state \<Rightarrow> sidebar_sync" where
  "init_sidebar_width_sync main_window toolbox tv st =
     \<lparr>tooltip_state = update_current_zen_sidebar_width tv st, observes_compact_mode = main_window,
      observes_resize = toolbox, resize_timeout = None\<rparr>"

datatype width_event =
    Compact_mode_changed "string option"
  | Toolbox_resized nat
  | Resize_timer "string option"

fun width_step :: "sidebar_sync \<Rightarrow> width_event \<Rightarrow> sidebar_sync" where
  "width_step ss (Compact_mode_changed tv) =
     (if observes_compact_mode ss
      then ss\<lparr>tooltip_state := update_current_zen_sidebar_width tv (tooltip_state ss)\<rparr> else ss)"
| "width_step ss (Toolbox_resized n) =
     (if observes_resize ss then ss\<lparr>resize_timeout := Some n\<rparr> else ss)"
| "width_step ss (Resize_timer tv) =
     (case resize_timeout ss of
        None \<Rightarrow> ss
      | Some n \<Rightarrow> ss\<lparr>tooltip_state := (update_current_zen_sidebar_width tv ^^ n) (tooltip_state ss),
                    resize_timeout := None\<rparr>)"

fun width_run :: "sidebar_sync \<Rightarrow> width_event list \<Rightarrow> sidebar_sync" where
  "width_run ss [] = ss"
| "width_run ss (e # es) = width_run (width_step ss e) es"

section \<open>The pile container's width and position\<close>

text \<open>\<open>currentZenSidebarWidthForPile\<close> and the \<open>style.width\<close> of the dynamic sizer.\<close>

record pile_width_state =
  width_for_pile :: string
  sizer_width :: string

text \<open>\<open>updatePileContainerWidth\<close>: the sidebar variable when set and not zero, else
  the \<open>clientWidth\<close> of \<open>#sidebar-box\<close> when positive, else \<open>300px\<close>; the sizer gets
  \<open>parseFloat\<close> of that width plus 5 pixels.\<close>

definition update_pile_container_width ::
  "string option \<Rightarrow> nat option \<Rightarrow> pile_width_state \<Rightarrow> pile_width_state" where
  "update_pile_container_width tv sb pw =
     (let v = (case tv of None \<Rightarrow> [] | Some raw \<Rightarrow> js_trim raw);
          nw = (if v \<noteq> [] \<and> v \<noteq> ''0px'' then v
                else case sb of Some w \<Rightarrow> if 0 < w then dec_string w @ ''px'' else ''300px''
                              | None \<Rightarrow> ''300px'')
      in pw\<lparr>width_for_pile := nw,
            sizer_width := js_number_string_opt (map_option (\<lambda>d. dec_add d (5, 0)) (js_parse_float nw)) @ ''px''\<rparr>)"

text \<open>\<open>parseFloat(currentZenSidebarWidthForPile) || 300\<close>: \<open>NaN\<close> and 0 fall back.\<close>

definition pile_container_width :: "string \<Rightarrow> decimal" where
  "pile_container_width w =
     (case js_parse_float w of Some d \<Rightarrow> if fst d = 0 then (300, 0) else d | None \<Rightarrow> (300, 0))"

text \<open>The geometry of \<open>showPile\<close> (lines 720-769): the sizer's left edge (at the
  toolbox's left, or its right minus the container width on a right-side sidebar),
  the left padding that centres the three-column grid, and the height of two rows.\<close>

definition sizer_left :: "bool \<Rightarrow> decimal \<Rightarrow> decimal \<Rightarrow> string \<Rightarrow> decimal" where
  "sizer_left right_side rect_left rect_right w =
     (if right_side then dec_sub rect_right (pile_container_width w) else rect_left)"

definition grid_width :: int where
  "grid_width = 3 * min_pod_size + 2 * grid_padding"

definition smart_left_padding :: "string \<Rightarrow> decimal" where
  "smart_left_padding w =
     (let grid_left_edge = dec_sub (dec_half (pile_container_width w)) (dec_half (grid_width, 0))
      in dec_add (js_max (dec_quarter grid_left_edge) (10, 0)) (10, 0))"

definition pile_sizer_height :: int where
  "pile_sizer_height = min_pod_size * 2 + 100"

text \<open>The styles \<open>showPile\<close> writes, after updating the width: left edge (only with
  a toolbox, whose rectangle is given), left padding and height, as strings.\<close>

record sizer_style =
  sizer_left_px :: "string option"
  sizer_padding_left :: string
  sizer_height :: string

definition show_pile_styles ::
  "string option \<Rightarrow> nat option \<Rightarrow> (decimal \<times> decimal) option \<Rightarrow> bool \<Rightarrow> pile_width_state \<Rightarrow>
   pile_width_state \<times> sizer_style" where
  "show_pile_styles tv sb rect right_side pw =
     (let pw' = update_pile_container_width tv sb pw; w = width_for_pile pw'
      in (pw', \<lparr>sizer_left_px = map_option (\<lambda>(l, r). js_number_string (sizer_left right_side l r w) @ ''px'') rect,
                sizer_padding_left = js_number_string (smart_left_padding w) @ ''px'',
                sizer_height = dec_string (nat pile_sizer_height) @ ''px''\<rparr>))"

section \<open>Lemmas on the number model\<close>

text \<open>\<open>parseFloat\<close> reads back what a template literal prints for a whole number
  of pixels, and the decimal operations compute the real sum, difference, halves,
  quarters and maximum.\<close>

lemma digit_val_digit_char: "d < 10 \<Longrightarrow> digit_val (digit_char d) = d"
proof -
  assume "d < 10"
  then have "d \<in> {0,1,2,3,4,5,6,7,8,9}" by auto
  then show ?thesis by (auto simp: digit_val_def digit_char_def)
qed

lemma digits_val_snoc: "digits_val (ds @ [c]) = 10 * digits_val ds + digit_val c"
  by (simp add: digits_val_def)

lemma digits_val_dec_string [simp]: "digits_val (dec_string n) = n"
proof (induction n rule: dec_string.induct)
  case (1 n)
  show ?case
  proof (cases "n < 10")
    case True then show ?thesis
      by (subst dec_string.simps) (simp add: digits_val_def digit_val_digit_char)
  next
    case False
    then have "dec_string n = dec_string (n div 10) @ [digit_char (n mod 10)]"
      by (subst dec_string.simps) simp
    then show ?thesis using 1 False by (simp add: digits_val_snoc digit_val_digit_char)
  qed
qed

lemma dec_string_ne [simp]: "dec_string n \<noteq> []"
  by (subst dec_string.simps) simp

lemma dec_string_digits: "\<forall>c\<in>set (dec_string n). is_ascii_digit c"
proof
  fix c assume "c \<in> set (dec_string n)"
  then have "c \<in> set ''0123456789''" using set_dec_string by blast
  then show "is_ascii_digit c" by (auto simp: is_ascii_digit_def)
qed

lemma js_parse_float_px: "js_parse_float (dec_string n @ ''px'') = Some (int n, 0)"
proof -
  obtain c cs where d: "dec_string n = c # cs" by (cases "dec_string n") auto
  have dig: "is_ascii_digit x" if "x \<in> set (dec_string n)" for x using dec_string_digits that by blast
  have c: "is_ascii_digit c" using dig d by simp
  then have ns: "\<not> js_is_space c" "c \<noteq> CHR ''-''" "c \<noteq> CHR ''+''"
    by (auto simp: is_ascii_digit_def js_is_space_def)
  have tw: "takeWhile is_ascii_digit (dec_string n @ ''px'') = dec_string n"
    using dig by (simp add: takeWhile_append2 is_ascii_digit_def)
  have dw: "dropWhile is_ascii_digit (dec_string n @ ''px'') = ''px''"
    using dig by (simp add: dropWhile_append2 is_ascii_digit_def)
  have v: "digits_val (c # cs) = n" using d by (metis digits_val_dec_string)
  show ?thesis
    using ns tw dw d v by (simp add: js_parse_float_def Let_def)
qed

lemma dec_string_0: "dec_string 0 = ''0''"
  by (simp add: dec_string.simps digit_char_def)

lemma js_number_string_int: "0 \<le> m \<Longrightarrow> js_number_string (m, 0) = dec_string (nat m)"
  by (simp add: js_number_string_def pad_digits_def dec_string_0)

lemma dec_add_nat: "dec_add (int n, 0) (int k, 0) = (int (n + k), 0)"
  by (simp add: dec_add_def dec_align_def)

lemma dec_value_align: "snd a \<le> e \<Longrightarrow> dec_value a = real_of_int (dec_align a e) / 10 ^ e"
proof -
  assume le: "snd a \<le> e"
  have "(10::real) ^ e = 10 ^ (e - snd a) * 10 ^ snd a"
    using le by (simp add: power_add [symmetric])
  then show ?thesis by (simp add: dec_value_def dec_align_def)
qed

lemma dec_value_add [simp]: "dec_value (dec_add a b) = dec_value a + dec_value b"
proof -
  let ?e = "max (snd a) (snd b)"
  have "dec_value a = real_of_int (dec_align a ?e) / 10 ^ ?e" "dec_value b = real_of_int (dec_align b ?e) / 10 ^ ?e"
    by (simp_all add: dec_value_align)
  then show ?thesis by (simp add: dec_add_def Let_def dec_value_def add_divide_distrib)
qed

lemma dec_value_neg [simp]: "dec_value (- fst b, snd b) = - dec_value b"
  by (simp add: dec_value_def)

lemma dec_value_sub [simp]: "dec_value (dec_sub a b) = dec_value a - dec_value b"
  by (simp add: dec_sub_def)

lemma dec_value_half [simp]: "dec_value (dec_half d) = dec_value d / 2"
  by (simp add: dec_half_def dec_value_def)

lemma dec_value_quarter [simp]: "dec_value (dec_quarter d) = dec_value d / 4"
  by (simp add: dec_quarter_def dec_value_def power_add)

lemma dec_le_value: "dec_le a b \<longleftrightarrow> dec_value a \<le> dec_value b"
proof -
  let ?e = "max (snd a) (snd b)"
  have "dec_value a = real_of_int (dec_align a ?e) / 10 ^ ?e" "dec_value b = real_of_int (dec_align b ?e) / 10 ^ ?e"
    by (simp_all add: dec_value_align)
  moreover have "0 < (10::real) ^ ?e" by simp
  ultimately show ?thesis by (simp add: dec_le_def Let_def divide_le_cancel)
qed

lemma dec_value_max [simp]: "dec_value (js_max a b) = max (dec_value a) (dec_value b)"
  by (simp add: js_max_def dec_le_value)

lemma dec_value_int [simp]: "dec_value (i, 0) = real_of_int i"
  by (simp add: dec_value_def)

lemma smart_left_padding_bound: "20 \<le> dec_value (smart_left_padding w)"
  by (simp add: smart_left_padding_def Let_def)

lemma update_width_idem:
  "update_current_zen_sidebar_width tv (update_current_zen_sidebar_width tv st) = update_current_zen_sidebar_width tv st"
  by (auto simp: update_current_zen_sidebar_width_def apply_global_width_to_all_tooltips_def Let_def
      split: option.split)

lemma update_width_burst:
  "(update_current_zen_sidebar_width tv ^^ Suc n) st = update_current_zen_sidebar_width tv st"
  by (induction n) (simp_all add: update_width_idem)

section \<open>Lemmas on the width synchronisation\<close>

text \<open>C39. The pile's sizer is 5 pixels wider than the sidebar: for a sidebar width of
  \<open>n\<close> pixels, \<open>updatePileContainerWidth\<close> writes \<open>(n + 5)px\<close>, although its comment
  says it subtracts 5px so that the pile does not protrude beyond the sidebar.\<close>

theorem pile_sizer_wider_than_sidebar:
  assumes "js_trim v = dec_string n @ ''px''" "0 < n"
  shows "sizer_width (update_pile_container_width (Some v) sb pw) = dec_string (n + 5) @ ''px''"
proof -
  have "dec_string n @ ''px'' \<noteq> ''0px''"
  proof
    assume "dec_string n @ ''px'' = ''0px''"
    then have "dec_string n = ''0''" by simp
    then have "digits_val (dec_string n) = 0" by (simp add: digits_val_def digit_val_def)
    then show False using assms(2) by simp
  qed
  moreover have "nat (int n + 5) = n + 5" by arith
  ultimately show ?thesis using assms dec_add_nat [of n 5]
    by (simp add: update_pile_container_width_def js_parse_float_px js_number_string_opt_def
        js_number_string_int)
qed

theorem pile_sizer_wider_than_sidebar_witness:
  "sizer_width (update_pile_container_width (Some ''240px'') None \<lparr>width_for_pile = [], sizer_width = []\<rparr>) = ''245px''"
proof -
  have "js_trim ''240px'' = dec_string 240 @ ''px''"
    by (simp add: js_trim_def js_is_space_def dec_string.simps digit_char_def)
  from pile_sizer_wider_than_sidebar [OF this, of None "\<lparr>width_for_pile = [], sizer_width = []\<rparr>"]
  show ?thesis by (simp add: dec_string.simps digit_char_def)
qed

end
