(* ===== verification/HostServices.thy ===== *)
theory HostServices
  imports PodStore
begin

text \<open>
  The small host-service helpers of both scripts: \<open>getPref\<close> (typed reads of the
  preference service with a default, \<open>src/tidy-downloads.uc.js\<close> lines 1144-1162),
  \<open>scheduleCardRemoval\<close> (the auto-hide timer, lines 1130-1141),
  \<open>openDownloadedFile\<close> (lines 1897-1922) and the pile pod's click in
  \<open>src/zen-stuff.uc.js\<close> (lines 373-400), which opens the file or, when it is gone,
  its folder. The preference branch, the files and the folders are inputs.
\<close>

section \<open>Preferences\<close>

text \<open>A stored preference has one of the three types of the service.\<close>

datatype pref_value = Pref_bool bool | Pref_string string | Pref_int int

type_synonym prefs = "string \<rightharpoonup> pref_value"

text \<open>\<open>getPref(name, default)\<close>: the getter is chosen by the type of the default
  (\<open>getBoolPref\<close>, \<open>getStringPref\<close>, \<open>getIntPref\<close>); a missing preference gives the
  default, and a stored one of another type makes the getter throw, which the
  \<open>catch\<close> turns into the default too.\<close>

definition get_pref :: "prefs \<Rightarrow> string \<Rightarrow> pref_value \<Rightarrow> pref_value" where
  "get_pref ps name dflt =
     (case ps name of
        None \<Rightarrow> dflt
      | Some v \<Rightarrow>
          (case (v, dflt) of
             (Pref_bool _, Pref_bool _) \<Rightarrow> v
           | (Pref_string _, Pref_string _) \<Rightarrow> v
           | (Pref_int _, Pref_int _) \<Rightarrow> v
           | _ \<Rightarrow> dflt))"

definition disable_autohide_pref :: string where
  "disable_autohide_pref = ''extensions.downloads.disable_autohide''"

definition card_autohide_delay_ms :: nat where
  "card_autohide_delay_ms = 20000"

section \<open>The auto-hide timer\<close>

text \<open>\<open>scheduleCardRemoval(key)\<close>: nothing when auto-hide is disabled, else a timer
  of \<open>CARD_AUTOHIDE_DELAY_MS\<close> for the key; when it fires, an unforced
  \<open>removeCard\<close>, which the grace period may refuse.\<close>

definition schedule_card_removal :: "prefs \<Rightarrow> key \<Rightarrow> (key \<times> nat) option" where
  "schedule_card_removal ps k =
     (if get_pref ps disable_autohide_pref (Pref_bool False) = Pref_bool True then None
      else Some (k, card_autohide_delay_ms))"

definition autohide_fire :: "tidy_state \<Rightarrow> key \<Rightarrow> time \<Rightarrow> tidy_state" where
  "autohide_fire s k now = snd (remove_card s k False now)"

section \<open>Opening files\<close>

text \<open>What a click launches: the file, its folder, or nothing.\<close>

datatype launch = Launch_file path | Launch_folder path | No_launch

text \<open>\<open>openDownloadedFile(download)\<close>: a download with a target path whose file
  exists (and is readable) is launched; otherwise nothing happens.\<close>

definition open_downloaded_file :: "(path \<rightharpoonup> nat) \<Rightarrow> download \<Rightarrow> launch" where
  "open_downloaded_file fs d =
     (if target_path d = [] then No_launch
      else if target_path d \<in> dom fs then Launch_file (target_path d) else No_launch)"

text \<open>The pile pod's click: with a target path, launch the file when it exists,
  else its parent folder when that exists (\<open>file.parent\<close>, the part before the last
  separator), else nothing.\<close>

definition pile_pod_click :: "(path \<rightharpoonup> nat) \<Rightarrow> path set \<Rightarrow> path \<Rightarrow> launch" where
  "pile_pod_click fs dirs p =
     (if p = [] then No_launch
      else if p \<in> dom fs then Launch_file p
      else if before_last (CHR ''/'') p \<noteq> [] \<and> before_last (CHR ''/'') p \<in> dirs
      then Launch_folder (before_last (CHR ''/'') p)
      else No_launch)"

section \<open>Lemmas\<close>

text \<open>\<open>getPref\<close> never changes the type asked for: the result has the type of the
  default.\<close>

fun pref_kind :: "pref_value \<Rightarrow> nat" where
  "pref_kind (Pref_bool _) = 0"
| "pref_kind (Pref_string _) = 1"
| "pref_kind (Pref_int _) = 2"

lemma get_pref_kind: "pref_kind (get_pref ps name dflt) = pref_kind dflt"
  by (auto simp: get_pref_def split: option.split pref_value.split)

lemma get_pref_stored: "ps name = Some v \<Longrightarrow> pref_kind v = pref_kind dflt \<Longrightarrow> get_pref ps name dflt = v"
  by (cases v; cases dflt) (simp_all add: get_pref_def)

lemma get_pref_mismatch: "ps name = Some v \<Longrightarrow> pref_kind v \<noteq> pref_kind dflt \<Longrightarrow> get_pref ps name dflt = dflt"
  by (cases v; cases dflt) (simp_all add: get_pref_def)

lemma schedule_card_removal_disabled:
  "schedule_card_removal ps k = None \<longleftrightarrow> ps disable_autohide_pref = Some (Pref_bool True)"
  by (auto simp: schedule_card_removal_def get_pref_def split: option.split pref_value.split)

lemma autohide_fire_inv: "store_inv s \<Longrightarrow> store_inv (autohide_fire s k now)"
  by (simp add: autohide_fire_def remove_card_inv)

lemma open_downloaded_file_launches:
  "open_downloaded_file fs d = Launch_file p \<longleftrightarrow> p = target_path d \<and> p \<noteq> [] \<and> p \<in> dom fs"
  by (auto simp: open_downloaded_file_def)

lemma pile_pod_click_folder:
  "pile_pod_click fs dirs p = Launch_folder q \<Longrightarrow> p \<notin> dom fs \<and> q \<in> dirs \<and> q \<noteq> []"
  by (auto simp: pile_pod_click_def split: if_splits)

end
