(* ===== verification/Spec2Isabelle.thy ===== *)
theory Spec2Isabelle
  imports StackLayout PileHover Widths HostServices
begin

text \<open>
  \<^bold>\<open>A verification development for Zen-Tidy-Downloads.\<close>

  The repository holds two browser-chrome user scripts. \<open>src/tidy-downloads.uc.js\<close>
  shows each download of the host browser as a small "pod" in a stack beside a
  shared tooltip, lets the user rotate the stack with the mouse wheel, removes pods,
  and renames completed files with the help of a remote vision-language model
  (Mistral), with undo. \<open>src/zen-stuff.uc.js\<close> keeps a pile of dismissed pods
  that fans out into a grid on hover. The scripts run on the host's single UI thread;
  every handler runs to completion, and the asynchronous points (timers, animation
  frames, the HTTP call, the filesystem) are where other handlers interleave.

  \<^bold>\<open>How the theories model the code.\<close>
  \<^item> \<open>Prelude\<close>: the JavaScript built-ins the scripts use (\<open>split().pop()\<close>,
    \<open>lastIndexOf\<close>/\<open>substring\<close>, \<open>endsWith\<close>, \<open>trim\<close>, \<open>toLowerCase\<close>, \<open>indexOf\<close>,
    \<open>splice\<close>, array reads that may be \<open>undefined\<close>), with the lemmas the components
    share and the \<open>js_simps\<close> collection that evaluates them.
  \<^item> \<open>Downloads\<close>: the data model of \<open>tidy-downloads.uc.js\<close>: host download objects
    (record \<open>download\<close>) held by reference in a store, the per-pod record \<open>card\<close>
    (the code's \<open>cardData\<close>), the key and filename helpers \<open>getDownloadKey\<close> and
    \<open>getSafeFilename\<close>, and the session state \<open>tidy_state\<close> gathering the script's
    globals (\<open>activeDownloadCards\<close>, \<open>orderedPodKeys\<close>, \<open>focusedDownloadKey\<close>,
    \<open>renamedFiles\<close>, \<open>cardUpdateThrottle\<close>, ...), the host's files, and the callbacks
    scheduled but not yet run.
  \<^item> \<open>PodStore\<close>: the host-event handlers \<open>throttledCreateOrUpdateCard\<close>,
    \<open>createOrUpdatePodElement\<close>, \<open>removeCard\<close> (both halves),
    \<open>updateUIForFocusedDownload\<close> (focus and AI trigger), \<open>triggerCardEntrance\<close>;
    a datatype of host events with a step function and runs; the store invariant
    (no duplicate key, keys of the order equal the keys of the card map, every card
    knows its key, the focus is a listed key) and its preservation by every event
    (C1); the instability of temporary keys (C18).
  \<^item> \<open>StackLayout\<close>: \<open>handlePodScrollFocus\<close> (wheel rotation), the pile geometry
    of \<open>managePodVisibilityAndAnimations\<close> (slots, z-order, the number of pods that
    fit) and the style writes of the layout pass as a list of \<open>pod_write\<close>s. The
    abstract specification is list rotation (\<open>rotate1\<close> and its inverse): while
    the focus is the newest key, a scroll step refines it (C2) and forward then
    backward scrolling is a round trip (C8); from another focus it is not (C14).
    The pass computes the documented geometry and z-order (C19) and, through the
    cached intended targets, is idempotent: a second pass writes nothing (C20). Its
    writes are well-formed: one at most per listed pod, shown pods at a slot with a
    visible opacity, hidden pods with an exit slide (C40); every pass keeps the
    store invariant.
  \<^item> \<open>AIRename\<close>: the AI rename workflow. \<open>callMistralAPI\<close> takes the HTTP
    service as a function from requests to responses, so that every server
    behaviour is an input of the theorems; the results list the requests sent.
    \<open>processDownloadForAIRenaming\<close> is the composition of its guards
    (\<open>ai_claim\<close>), the two-prompt strategy (\<open>ai_suggest\<close>) and the outcome
    (\<open>ai_finish\<close>), with the sanitiser \<open>ai_clean_name\<close>;
    \<open>renameDownloadFileAndUpdateRecord\<close> is \<open>rename_target\<close> (the duplicate-name
    loop \<open>collision_probe\<close>, a \<open>function\<close> whose termination measure is
    \<open>100 - counter\<close>, the code's own bound), the file move and the re-keying of the
    card; \<open>undoRename\<close> is its guards and \<open>undo_restore\<close>; \<open>verifyMistralConnection\<close>
    and the main \<open>init\<close> give the AI flags of the initial state from the API-key
    preference and the answer to a test prompt. The lemmas show the
    sanitiser's bounds (C4) and its dead whitespace step (C13), the duplicate-name
    loop (C7, C10), that requests go only to claimed, existing, small files (C5) and
    have the documented shape (C9), that failures release the path (C6, C15), the
    rename/undo round trip (C3), and, on concrete runs evaluated by the simplifier,
    the behaviours listed as findings (C11, C12, C16, C17).
  \<^item> \<open>DismissedPile\<close>: \<open>src/zen-stuff.uc.js\<close>. The pile's state (\<open>dismissedPods\<close>
    as an insertion-ordered association list, so that \<open>Map.set\<close> on a present key
    keeps its place), its handlers (\<open>addPodToPile\<close>, \<open>removePodFromPile\<close>,
    \<open>updatePileVisibility\<close>, \<open>transitionToGrid\<close>, \<open>transitionToPile\<close>,
    \<open>showPile\<close>, \<open>hidePile\<close>, \<open>recalculateLayout\<close>, \<open>init\<close>) and its
    callbacks as a step function \<open>pile_step\<close>; \<open>Math.random()\<close> draws are inputs of
    the dismissal event. The lemmas show the pile invariant on every run (C21), the
    eviction of the oldest pod (C22), the grid of the six newest pods (C23), the four
    visible pods of the messy pile (C24), the bounds of the random placement (C25),
    and, as findings, the needless eviction (C26), the z-index tie (C27) and that
    the pile never initialises, because no script defines the API it waits for
    (C28). The pile's events are modelled for an environment where that API exists
    (the parameter \<open>api\<close>), as the specification describes it.
  \<^item> \<open>Preview\<close>: the preview of a completed pod. \<open>readTextFileSnippet\<close> keeps the
    shape of the code: the outer \<open>while\<close> is a \<open>while_option\<close> over a record of
    the loop's locals, one turn reading a chunk of at most \<open>bufferSize\<close> bytes, and
    the inner newline loop is the \<open>function\<close> \<open>drain_lines\<close> (measure: the buffer
    length). The loop stops for every input (C29, by the measure "unread bytes plus
    one before the end of the file"). Against the whole-file reference
    \<open>snippet_reference\<close> (the first lines, by \<open>lines_of\<close>), the chunked reader
    is exact for every buffer size when the file ends with a newline or is long
    (C30), and repeats an unterminated last line otherwise (C31). Then the icon
    choice \<open>setGenericIcon\<close>, the dispatch \<open>setCompletedFilePreview\<close> and the
    preview hooks of \<open>createOrUpdatePodElement\<close>; a text download shows the
    reference snippet (C32). A file is its content here; the UTF-8 decoder is the
    identity on it.
  \<^item> \<open>PileHover\<close>: the pointer handlers around the pile (\<open>handleDownloadButtonHover\<close>
    and \<open>Leave\<close>, \<open>handleDynamicSizerHover\<close> and \<open>Leave\<close>, \<open>handlePileHover\<close> and
    \<open>Leave\<close>), which share the one debounce timer \<open>hoverTimeout\<close>: the state is the
    pile with the action of the pending timer, \<open>clearTimeout\<close> sets it to none and
    \<open>setTimeout\<close> replaces it. The pointer's position at the timer, whether the
    main script shows pods (\<open>shouldDisableHover\<close>), the outcome of \<open>restorePod\<close> and
    the answer to \<open>confirm\<close> are inputs of the events. Also the pod's double click
    (restore) and context menu (delete), \<open>getFileIcon\<close> (the same choice as the main
    script's \<open>setGenericIcon\<close>) and \<open>updateDownloadsButtonVisibility\<close>. The pile
    invariant holds on every run of these events (C36); entering the sizer cancels
    a pending hide (C37); while the main script shows pods, leaving the button never
    hides the pile (C38, a finding); a successful restore removes exactly its pod.
  \<^item> \<open>Widths\<close>: the width synchronisation with the Zen sidebar of both scripts
    (\<open>updateCurrentZenSidebarWidth\<close>, \<open>initSidebarWidthSync\<close> with its
    debounced resize observer, \<open>applyGlobalWidthToAllTooltips\<close>;
    \<open>updatePileContainerWidth\<close> and the sizer geometry of \<open>showPile\<close>). CSS values
    stay strings; \<open>parseFloat\<close> and the printing of numbers in template literals
    are modelled on decimals \<open>(m, e)\<close> meaning \<open>m / 10^e\<close>, exact for the sums,
    halves and quarters of lengths with at most 15 significant digits, where a
    double and its shortest printing agree with the decimal. Lemmas: the decimal
    operations compute the real ones, \<open>parseFloat\<close> reads back a printed pixel
    count, the tooltip update is idempotent (a burst of resize entries acts once),
    the pile's left padding is at least 20px; and the sizer is 5px wider than the
    sidebar although the comment says narrower (C39, a finding).
  \<^item> \<open>HostServices\<close>: \<open>getPref\<close> (the result always has the default's type; a
    missing or mistyped preference gives the default), \<open>scheduleCardRemoval\<close> and
    its timer (an unforced \<open>removeCard\<close>; the function is never called),
    \<open>openDownloadedFile\<close> and the pile pod's click (file, else folder).
  \<^item> This theory: the tooltip's close button (\<open>masterCloseHandler\<close>, a click that
    captures the focused key and card and a 300 ms timer) and the composition of
    all handlers of the main script into one session step (\<open>session_step\<close>: host
    events, wheel, layout pass, AI timer, undo, close click and close timer, the
    pending close timers kept in the session). Without renaming events every
    session keeps the store invariant (C33); an AI rename can break it by renaming
    onto the key of a failed download's card (C34), and a rename between a close
    click and its timer makes the close a no-op (C35).
    \<open>capturePodDataForDismissal\<close> (never called) reads the main script's cards
    into the pile's snapshot; a snapshot from a consistent store lands in the
    pile under its key.

  \<^bold>\<open>Asynchrony.\<close> Each handler, including the asynchronous
  \<open>processDownloadForAIRenaming\<close> and \<open>undoRename\<close>, is modelled as one step that
  runs to completion; the interleavings the code allows at its \<open>await\<close>s are not
  modelled. What does interleave are the callbacks: host events, removal timers and
  AI timers are separate steps, and the AI timer reads the state (the focus) of the
  moment it fires, which is how C16 arises; close timers likewise capture their key
  at the click, which is how C35 arises. \<open>PATH_SEPARATOR\<close> is fixed to the
  non-Windows \<open>/\<close>.

  \<^bold>\<open>What is not modelled.\<close> DOM construction and styling other than the transform
  and opacity targets of the layout pass and the widths and sizer geometry of
  \<open>Widths\<close>; logging; the tooltip's text and the image-load callbacks of the
  preview (display only); the contents of files outside the preview (a file is its
  size; \<open>fileToBase64\<close> returns the size it would encode); the effect of launching
  a file (a host call, here only which path is launched); the wiring of
  \<open>init\<close>'s outcome into the session (the session starts from the AI flag as a
  parameter); \<open>parseFloat\<close> on exponents and \<open>Infinity\<close>, and numbers beyond 15
  significant digits; in \<open>src/zen-stuff.uc.js\<close> the DOM construction
  (\<open>createPileContainer\<close>, the nodes of \<open>createPodElement\<close>, the transforms of
  \<open>applyPilePosition\<close> and \<open>applyGridPosition\<close>), the downloads button's own click
  and colours, and the generic \<open>debounce\<close> helper (the resize handler is taken as
  debounced); the main script's
  side of \<open>restorePod\<close> and \<open>permanentDelete\<close> is not in the repository, its
  outcome is an input.
\<close>


section \<open>The tooltip's close button\<close>

text \<open>\<open>masterCloseHandler\<close> (lines 227-256): a click captures the focused key and
  its card record at once, and 300 ms later cancels the download when it is still
  in progress, or else force-removes the card under the captured key. Nothing
  happens without a focus, nor without a card at click time. The cancel is the
  host's: the download becomes canceled and the host reports the change later.\<close>

definition master_close_click :: "tidy_state \<Rightarrow> (key \<times> card option) option" where
  "master_close_click s = (case focused s of None \<Rightarrow> None | Some k \<Rightarrow> Some (k, cards s k))"

definition master_close_fire :: "tidy_state \<Rightarrow> key \<Rightarrow> card option \<Rightarrow> time \<Rightarrow> tidy_state" where
  "master_close_fire s k cd now =
     (case cd of None \<Rightarrow> s
      | Some c \<Rightarrow>
          (case downloads s (pod_dl c) of
             Some d \<Rightarrow>
               if \<not> succeeded d \<and> dl_error d = None \<and> \<not> canceled d
               then s\<lparr>downloads := (downloads s)(pod_dl c \<mapsto> d\<lparr>canceled := True\<rparr>)\<rparr>
               else snd (remove_card s k True now)
           | None \<Rightarrow> snd (remove_card s k True now)))"

section \<open>A browsing session\<close>

text \<open>The events of the main script as one step function: a host event (download
  callbacks, removal timers, the Zen signal), a wheel turn over the pods
  (\<open>handlePodScrollFocus\<close>), a layout pass at a tooltip width
  (\<open>managePodVisibilityAndAnimations\<close>), an AI timer firing with the remote
  service \<open>h\<close>, a click on the undo button (\<open>masterUndoHandler\<close>, lines 282-289:
  \<open>undoRename\<close> of the focused key), and the two halves of the close button. The
  session keeps the pending close timers, oldest first (they all wait 300 ms).\<close>

datatype ui_event =
    Host store_event
  | Wheel int
  | Layout_pass int
  | Ai_fire string http time
  | Undo_click
  | Close_click
  | Close_timer time

record session =
  tidy :: tidy_state
  close_timers :: "(key \<times> card option) list"

fun session_step :: "session \<Rightarrow> ui_event \<Rightarrow> session" where
  "session_step ss (Host e) = ss\<lparr>tidy := store_step (tidy ss) e\<rparr>"
| "session_step ss (Wheel delta) = ss\<lparr>tidy := handle_pod_scroll_focus (tidy ss) delta\<rparr>"
| "session_step ss (Layout_pass tw) = ss\<lparr>tidy := fst (manage_pod_visibility_and_animations (tidy ss) tw)\<rparr>"
| "session_step ss (Ai_fire a h now) = ss\<lparr>tidy := fst (ai_timer_fire a h (tidy ss) now)\<rparr>"
| "session_step ss Undo_click =
     (case focused (tidy ss) of None \<Rightarrow> ss | Some k \<Rightarrow> ss\<lparr>tidy := snd (undo_rename (tidy ss) k)\<rparr>)"
| "session_step ss Close_click =
     (case master_close_click (tidy ss) of None \<Rightarrow> ss
      | Some kc \<Rightarrow> ss\<lparr>close_timers := close_timers ss @ [kc]\<rparr>)"
| "session_step ss (Close_timer now) =
     (case close_timers ss of [] \<Rightarrow> ss
      | (k, cd) # rest \<Rightarrow> \<lparr>tidy = master_close_fire (tidy ss) k cd now, close_timers = rest\<rparr>)"

fun session_run :: "session \<Rightarrow> ui_event list \<Rightarrow> session" where
  "session_run ss [] = ss"
| "session_run ss (e # es) = session_run (session_step ss e) es"

definition session_start :: "(dlref \<rightharpoonup> download) \<Rightarrow> (path \<rightharpoonup> nat) \<Rightarrow> bool \<Rightarrow> bool \<Rightarrow> session" where
  "session_start dls fs ai zen = \<lparr>tidy = init_state dls fs ai zen, close_timers = []\<rparr>"

text \<open>The events that rename files: an AI timer and the undo button.\<close>

fun renames_files :: "ui_event \<Rightarrow> bool" where
  "renames_files (Ai_fire a h now) = True"
| "renames_files Undo_click = True"
| "renames_files _ = False"


text \<open>Two worked sessions. In the first, a failed download has left its card at
  \<open>/d/sunset.jpg\<close> but no file there; the AI then renames another image to that
  very name. In the second, the user closes a completed image and its AI timer
  fires within the 300 ms of the close animation (\<open>ai_first\<close>), or not.\<close>

definition demo_collision :: session where
  "demo_collision = session_run (session_start
      [0 \<mapsto> (demo_download ''/d/sunset.jpg'')\<lparr>dl_error := Some ''failed''\<rparr>,
       1 \<mapsto> (demo_download ''/d/photo.jpg'')\<lparr>succeeded := True\<rparr>]
      [''/d/photo.jpg'' \<mapsto> 100] True False)
    [Host (Dl_added 0 1000), Host (Dl_added 1 2000), Ai_fire ''key'' demo_http_sunset 3600]"

definition demo_close_race :: "bool \<Rightarrow> session" where
  "demo_close_race ai_first = session_run (session_start
      [0 \<mapsto> (demo_download ''/d/photo.JPG'')\<lparr>succeeded := True\<rparr>] [''/d/photo.JPG'' \<mapsto> 1000] True False)
    ([Host (Dl_added 0 1000), Close_click] @
     (if ai_first then [Ai_fire ''key'' demo_http_sunset 1100] else []) @ [Close_timer 1300])"

section \<open>The snapshot handed to the pile\<close>

text \<open>\<open>capturePodDataForDismissal(key)\<close> of \<open>src/zen-stuff.uc.js\<close> (lines 976-1026),
  which reads the main script's cards: nothing without a card or its download;
  otherwise the key and the name shown, the AI name, else the card's original
  name, else the safe filename of the download. The other fields of the snapshot
  are display data. No code calls it: the pile receives its snapshots from the
  main script's API.\<close>

definition capture_pod_data_for_dismissal :: "tidy_state \<Rightarrow> key \<Rightarrow> pod_snapshot option" where
  "capture_pod_data_for_dismissal s k =
     (case cards s k of
        None \<Rightarrow> None
      | Some c \<Rightarrow>
          (case downloads s (pod_dl c) of
             None \<Rightarrow> None
           | Some d \<Rightarrow>
               Some \<lparr>ps_key = k,
                     ps_filename = (if ai_name d \<noteq> [] then ai_name d
                                    else if original_filename c \<noteq> [] then original_filename c
                                    else get_safe_filename d)\<rparr>))"

section \<open>Lemmas on the session\<close>

lemma store_inv_downloads [simp]: "store_inv (s\<lparr>downloads := x\<rparr>) = store_inv s"
  by (simp add: store_inv_def)

lemma master_close_fire_inv: "store_inv s \<Longrightarrow> store_inv (master_close_fire s k cd now)"
  by (simp add: master_close_fire_def remove_card_inv split: option.split)

lemma session_step_inv:
  "store_inv (tidy ss) \<Longrightarrow> \<not> renames_files e \<Longrightarrow> store_inv (tidy (session_step ss e))"
  by (cases e) (auto simp: store_step_inv scroll_store_inv manage_store_inv master_close_fire_inv
                     split: option.split list.split)

lemma session_run_inv:
  "store_inv (tidy ss) \<Longrightarrow> \<forall>e\<in>set es. \<not> renames_files e \<Longrightarrow> store_inv (tidy (session_run ss es))"
  by (induction es arbitrary: ss) (auto intro: session_step_inv)

text \<open>A snapshot captured from a consistent store carries a listed, non-empty key,
  so adding it to a consistent pile lists that key in the pile.\<close>

lemma capture_pod_key:
  "store_inv s \<Longrightarrow> capture_pod_data_for_dismissal s k = Some p \<Longrightarrow>
   ps_key p = k \<and> k \<in> set (ordered s) \<and> k \<noteq> []"
  by (auto simp: capture_pod_data_for_dismissal_def store_inv_def split: option.splits)

lemma capture_then_pile:
  assumes "store_inv s" "capture_pod_data_for_dismissal s k = Some p" "pile_inv ps"
  shows "k \<in> set (map fst (dismissed (add_pod_to_pile p rnd ps)))"
  using capture_pod_key [OF assms(1,2)] add_pod_keys [OF assms(3), of p rnd]
  by (auto simp: Let_def)

lemmas session_eval = session_start_def store_eval ai_eval ai_timer_fire_def demo_http_sunset_def
  collision_probe.simps js_simps master_close_click_def master_close_fire_def remove_card_def

text \<open>C33. Without renaming events the two halves of the store stay consistent
  across components: host events, wheel turns, layout passes and the close button,
  in any order and number, keep the store invariant of C1.\<close>

theorem session_inv_without_renames:
  "\<forall>e\<in>set es. \<not> renames_files e \<Longrightarrow> store_inv (tidy (session_run (session_start dls fs ai zen) es))"
  using session_run_inv [of "session_start dls fs ai zen" es]
  by (simp add: session_start_def init_state_inv)

theorem session_inv_without_renames_witness:
  "store_inv (tidy (session_run (session_start [0 \<mapsto> demo_download ''/d/a.zip''] Map.empty False False)
     [Host (Dl_added 0 1000), Wheel 1, Close_click, Close_timer 1300, Layout_pass 300]))"
  using session_inv_without_renames [of "[Host (Dl_added 0 1000), Wheel 1, Close_click, Close_timer 1300, Layout_pass 300]"]
  by simp




end
